(* ===== verification/Prelude.thy ===== *)
theory Prelude
  imports Main "HOL-Library.Word" "HOL-Library.AList" "HOL-Library.Sublist"
begin

text \<open>
  Shared vocabulary of the development: the collections of lemmas that the component
  theories fill and use, names for the types that several components share, and generic
  facts about lists and insertion-ordered dictionaries.

  A Python \<open>dict\<close> is an association list kept in insertion order. \<open>d.get(k)\<close> is
  \<open>map_of d k\<close>; \<open>d[k] = v\<close> is \<open>AList.update k v d\<close>, which replaces the value in place
  when the key is present and appends otherwise, as Python does.
\<close>

named_theorems run_simps \<open>evaluation of one program step\<close>
named_theorems run_inv \<open>inversion of a run that returned or raised\<close>
named_theorems throws_intros \<open>composition rules for the exceptions a program may raise\<close>
named_theorems evolve_intros \<open>composition rules for relations between the worlds before and after a run\<close>

type_synonym byte = "8 word"
type_synonym bytes = "byte list"
type_synonym 'v dict = "(string \<times> 'v) list"

abbreviation dget :: "('k \<times> 'v) list \<Rightarrow> 'k \<Rightarrow> 'v option" where
  "dget \<equiv> map_of"

abbreviation dset :: "('k \<times> 'v) list \<Rightarrow> 'k \<Rightarrow> 'v \<Rightarrow> ('k \<times> 'v) list" where
  "dset d k v \<equiv> AList.update k v d"

abbreviation dkeys :: "('k \<times> 'v) list \<Rightarrow> 'k list" where
  "dkeys d \<equiv> map fst d"

lemma dget_dset: "dget (dset d k v) k' = (if k' = k then Some v else dget d k')"
  by (simp add: update_conv')

lemma dkeys_dset: "dkeys (dset d k v) = (if k \<in> set (dkeys d) then dkeys d else dkeys d @ [k])"
  by (simp add: update_keys)

lemma dset_size: "length (dset d k v) = (if k \<in> set (dkeys d) then length d else Suc (length d))"
  by (induction d) auto

subsection \<open>Lists\<close>

lemma takeWhile_dropWhile_decomp:
  "x \<in> set xs \<Longrightarrow> xs = takeWhile (\<lambda>y. y \<noteq> x) xs @ x # tl (dropWhile (\<lambda>y. y \<noteq> x) xs)"
proof (induction xs)
  case Nil
  then show ?case by simp
next
  case (Cons a xs)
  then show ?case by (cases "a = x") auto
qed

lemma find_Some_iff_first:
  "find P xs = Some x \<longleftrightarrow> (\<exists>i < length xs. P (xs ! i) \<and> x = xs ! i \<and> (\<forall>j < i. \<not> P (xs ! j)))"
  by (simp add: find_Some_iff)

lemma find_in_set: "find P xs = Some x \<Longrightarrow> x \<in> set xs \<and> P x"
  by (auto simp: find_Some_iff)

subsection \<open>Results that may be errors\<close>

text \<open>An error is \<open>Inl\<close>; \<open>sbind\<close> stops at the first one.\<close>

definition sbind :: "'e + 'a \<Rightarrow> ('a \<Rightarrow> 'e + 'b) \<Rightarrow> 'e + 'b" where
  "sbind r k = (case r of Inl e \<Rightarrow> Inl e | Inr a \<Rightarrow> k a)"

lemma sbind_simps [simp]: "sbind (Inl e) k = Inl e" "sbind (Inr a) k = k a"
  by (simp_all add: sbind_def)

lemma sbind_InrD [run_inv]: "sbind r k = Inr b \<longleftrightarrow> (\<exists>a. r = Inr a \<and> k a = Inr b)"
  by (cases r) auto

lemma sbind_InlD [run_inv]:
  "sbind r k = Inl e \<longleftrightarrow> r = Inl e \<or> (\<exists>a. r = Inr a \<and> k a = Inl e)"
  by (cases r) auto

text \<open>\<open>fails_as P r\<close>: the error of \<open>r\<close>, if it is one, satisfies \<open>P\<close>; \<open>gives Q r\<close>: its value does.\<close>

definition fails_as :: "('e \<Rightarrow> bool) \<Rightarrow> 'e + 'a \<Rightarrow> bool" where
  "fails_as P r \<longleftrightarrow> (\<forall>e. r = Inl e \<longrightarrow> P e)"

definition gives :: "('a \<Rightarrow> bool) \<Rightarrow> 'e + 'a \<Rightarrow> bool" where
  "gives Q r \<longleftrightarrow> (\<forall>a. r = Inr a \<longrightarrow> Q a)"

lemma fails_as_Inr [simp]: "fails_as P (Inr a)" and gives_Inl [simp]: "gives Q (Inl e)"
  and fails_as_Inl [simp]: "fails_as P (Inl e) \<longleftrightarrow> P e" and gives_Inr [simp]: "gives Q (Inr a) \<longleftrightarrow> Q a"
  by (simp_all add: fails_as_def gives_def)

lemma fails_as_sbind: "fails_as P r \<Longrightarrow> (\<And>a. fails_as P (k a)) \<Longrightarrow> fails_as P (sbind r k)"
  by (cases r) auto

lemma gives_sbind: "gives Q r \<Longrightarrow> (\<And>a. Q a \<Longrightarrow> gives S (k a)) \<Longrightarrow> gives S (sbind r k)"
  by (cases r) auto

text \<open>Map a fallible function over a list, numbering the elements from \<open>i\<close>.\<close>

fun map_err :: "(nat \<Rightarrow> 'a \<Rightarrow> 'e + 'b) \<Rightarrow> nat \<Rightarrow> 'a list \<Rightarrow> 'e + 'b list" where
  "map_err f i [] = Inr []"
| "map_err f i (x # xs) = sbind (f i x) (\<lambda>y. sbind (map_err f (Suc i) xs) (\<lambda>ys. Inr (y # ys)))"

lemma map_err_length: "map_err f i xs = Inr ys \<Longrightarrow> length ys = length xs"
  by (induction xs arbitrary: i ys) (auto simp: run_inv)

lemma map_err_nth:
  "map_err f i xs = Inr ys \<Longrightarrow> j < length xs \<Longrightarrow> f (i + j) (xs ! j) = Inr (ys ! j)"
proof (induction xs arbitrary: i ys j)
  case Nil
  then show ?case by simp
next
  case (Cons x xs)
  then show ?case by (cases j) (fastforce simp: run_inv)+
qed

lemma map_err_set:
  "map_err f i xs = Inr ys \<Longrightarrow> y \<in> set ys \<Longrightarrow> \<exists>j x. x \<in> set xs \<and> f j x = Inr y"
  by (induction xs arbitrary: i ys) (fastforce simp: run_inv)+

lemma map_err_map:
  "(\<And>j x. x \<in> set xs \<Longrightarrow> f j (g x) = Inr x) \<Longrightarrow> map_err f i (map g xs) = Inr xs"
  by (induction xs arbitrary: i) auto

end
