(* ===== verification/PyBytes.thy ===== *)
theory PyBytes
  imports PyStr
begin

text \<open>
  Python's \<open>bytes\<close> and the codecs of the standard library that the program calls: UTF-8 and
  ASCII text, hexadecimal digits, and \<open>base64\<close> as CPython 3.11 implements it. Decoding is
  \<open>None\<close> where Python raises (\<open>UnicodeDecodeError\<close>, \<open>binascii.Error\<close>).

  The locale \<open>codec\<close> is the contract of an encoder with its decoder; \<open>codec_chain\<close> composes
  two of them. Every codec of the program is an interpretation of it.
\<close>

subsection \<open>The contract of a codec\<close>

locale codec =
  fixes enc :: "'a \<Rightarrow> 'b"
    and dec :: "'b \<Rightarrow> 'a option"
    and ok :: "'a \<Rightarrow> bool"
  assumes dec_enc: "ok x \<Longrightarrow> dec (enc x) = Some x"
begin

lemma enc_eqD: "enc x = enc y \<Longrightarrow> ok x \<Longrightarrow> ok y \<Longrightarrow> x = y"
  using dec_enc by (metis option.inject)

lemma inj_on_enc: "inj_on enc (Collect ok)"
  by (rule inj_onI) (auto dest: enc_eqD)

end

locale codec_chain =
  first: codec e1 d1 ok1 + second: codec e2 d2 ok2
  for e1 :: "'a \<Rightarrow> 'b" and d1 ok1
  and e2 :: "'b \<Rightarrow> 'c" and d2 ok2 +
  assumes ok_step: "ok1 x \<Longrightarrow> ok2 (e1 x)"
begin

lemma chain_dec_enc: "ok1 x \<Longrightarrow> Option.bind (d2 (e2 (e1 x))) d1 = Some x"
  by (simp add: first.dec_enc second.dec_enc ok_step)

end

sublocale codec_chain \<subseteq> whole: codec "\<lambda>x. e2 (e1 x)" "\<lambda>y. Option.bind (d2 y) d1" ok1
  by unfold_locales (rule chain_dec_enc)

subsection \<open>Text encodings\<close>

definition byte_of :: "nat \<Rightarrow> byte" where
  "byte_of n = word_of_nat n"

lemma unat_byte_of: "n < 256 \<Longrightarrow> unat (byte_of n) = n"
  by (simp add: byte_of_def unat_of_nat)

lemma byte_of_unat [simp]: "byte_of (unat b) = b"
  by (simp add: byte_of_def)

lemma unat_byte_less [simp]: "unat (b :: byte) < 256"
  using unsigned_less[of b] by simp

definition utf8_char :: "char \<Rightarrow> bytes" where
  "utf8_char c = (if code c < 128 then [byte_of (code c)]
                  else [byte_of (192 + code c div 64), byte_of (128 + code c mod 64)])"

definition utf8_encode :: "string \<Rightarrow> bytes" where
  "utf8_encode s = concat (map utf8_char s)"

fun utf8_decode :: "bytes \<Rightarrow> string option" where
  "utf8_decode [] = Some []"
| "utf8_decode (b # bs) =
     (if unat b < 128 then map_option (Cons (char_of (unat b))) (utf8_decode bs)
      else if 194 \<le> unat b \<and> unat b \<le> 195 then
        (case bs of
           [] \<Rightarrow> None
         | d # ds \<Rightarrow>
             if 128 \<le> unat d \<and> unat d < 192
             then map_option (Cons (char_of ((unat b - 192) * 64 + (unat d - 128)))) (utf8_decode ds)
             else None)
      else None)"

text \<open>
  \<open>bytes.decode("utf-8", errors="replace")\<close>. The replacement character is outside the code
  points of the model; a question mark stands for it, and for text beyond the model's range.
\<close>

fun utf8_decode_replace :: "bytes \<Rightarrow> string" where
  "utf8_decode_replace [] = []"
| "utf8_decode_replace (b # bs) =
     (if unat b < 128 then char_of (unat b) # utf8_decode_replace bs
      else if 194 \<le> unat b \<and> unat b \<le> 195 \<and> bs \<noteq> [] \<and> 128 \<le> unat (hd bs) \<and> unat (hd bs) < 192
      then char_of ((unat b - 192) * 64 + (unat (hd bs) - 128)) # utf8_decode_replace (tl bs)
      else CHR ''?'' # utf8_decode_replace bs)"

definition ascii_encode :: "string \<Rightarrow> bytes" where
  "ascii_encode s = map (\<lambda>c. byte_of (code c)) s"

definition is_ascii :: "string \<Rightarrow> bool" where
  "is_ascii s \<longleftrightarrow> list_all (\<lambda>c. code c < 128) s"

definition ascii_decode :: "bytes \<Rightarrow> string option" where
  "ascii_decode bs =
     (if list_all (\<lambda>b. unat b < 128) bs then Some (map (\<lambda>b. char_of (unat b)) bs) else None)"

lemma utf8_decode_char:
  "utf8_decode (utf8_char c @ bs) = map_option (Cons c) (utf8_decode bs)"
proof (cases "code c < 128")
  case True
  then show ?thesis by (simp add: utf8_char_def unat_byte_of)
next
  case False
  have "code c < 256" by simp
  define q r where "q = code c div 64" and "r = code c mod 64"
  have "q < 4" unfolding q_def by (rule less_mult_imp_div_less) (use \<open>code c < 256\<close> in simp)
  moreover have "2 \<le> q" using div_le_mono[of 128 "code c" 64] False by (simp add: q_def)
  moreover have r: "r < 64" by (simp add: r_def)
  ultimately have q: "2 \<le> q" "q \<le> 3" by simp_all
  have qr: "code c div 64 = q" "code c mod 64 = r" by (simp_all add: q_def r_def)
  have "q * 64 + r = code c" by (simp add: q_def r_def)
  with False q r qr show ?thesis by (simp add: utf8_char_def unat_byte_of)
qed

lemma utf8_roundtrip: "utf8_decode (utf8_encode s) = Some s"
proof (induction s)
  case Nil
  then show ?case by (simp add: utf8_encode_def)
next
  case (Cons c s)
  then show ?case by (simp add: utf8_encode_def utf8_decode_char)
qed

lemma ascii_roundtrip: "is_ascii s \<Longrightarrow> ascii_decode (ascii_encode s) = Some s"
  by (induction s)
    (auto simp: is_ascii_def ascii_encode_def ascii_decode_def unat_byte_of list_all_iff)

lemma utf8_encode_ascii: "is_ascii s \<Longrightarrow> utf8_encode s = ascii_encode s"
  by (induction s) (auto simp: utf8_encode_def ascii_encode_def is_ascii_def utf8_char_def)

interpretation utf8: codec utf8_encode utf8_decode "\<lambda>_. True"
  by unfold_locales (rule utf8_roundtrip)

interpretation ascii: codec ascii_encode ascii_decode is_ascii
  by unfold_locales (rule ascii_roundtrip)

definition hex_of :: "bytes \<Rightarrow> string" where
  "hex_of bs = concat (map (\<lambda>b. [hex_digit (unat b div 16), hex_digit (unat b mod 16)]) bs)"

lemma length_hex_of: "length (hex_of bs) = 2 * length bs"
  by (induction bs) (auto simp: hex_of_def)

subsection \<open>base64\<close>

definition b64_pad :: byte where
  "b64_pad = byte_of 61"

definition b64_char :: "nat \<Rightarrow> byte" where
  "b64_char n =
     (if n < 26 then byte_of (65 + n)
      else if n < 52 then byte_of (71 + n)
      else if n < 62 then byte_of (n - 4)
      else if n = 62 then byte_of 43 else byte_of 47)"

definition b64_val :: "byte \<Rightarrow> nat option" where
  "b64_val b = (let n = unat b in
     if 65 \<le> n \<and> n \<le> 90 then Some (n - 65)
     else if 97 \<le> n \<and> n \<le> 122 then Some (n - 71)
     else if 48 \<le> n \<and> n \<le> 57 then Some (n + 4)
     else if n = 43 then Some 62 else if n = 47 then Some 63 else None)"

text \<open>\<open>base64.b64encode\<close>\<close>

fun b64encode :: "bytes \<Rightarrow> bytes" where
  "b64encode [] = []"
| "b64encode [a] = [b64_char (unat a div 4), b64_char (unat a mod 4 * 16), b64_pad, b64_pad]"
| "b64encode [a, b] =
     [b64_char (unat a div 4), b64_char (unat a mod 4 * 16 + unat b div 16),
      b64_char (unat b mod 16 * 4), b64_pad]"
| "b64encode (a # b # c # rest) =
     b64_char (unat a div 4) # b64_char (unat a mod 4 * 16 + unat b div 16)
     # b64_char (unat b mod 16 * 4 + unat c div 64) # b64_char (unat c mod 64) # b64encode rest"

text \<open>
  \<open>binascii.a2b_base64(s, strict_mode=True)\<close>, which \<open>base64.b64decode(s, validate=True)\<close> calls:
  the position in the quad, the bits left over, the pads seen, and whether padding has started.
\<close>

fun a2b_base64 :: "nat \<Rightarrow> nat \<Rightarrow> nat \<Rightarrow> bool \<Rightarrow> bytes \<Rightarrow> bytes option" where
  "a2b_base64 quad left pads padding [] = (if quad = 0 then Some [] else None)"
| "a2b_base64 quad left pads padding (c # cs) =
     (if c = b64_pad then
        (if 2 \<le> quad \<and> 4 \<le> quad + Suc pads then (if cs = [] then Some [] else None)
         else a2b_base64 quad left (if 2 \<le> quad then Suc pads else pads) True cs)
      else
        (case b64_val c of
           None \<Rightarrow> None
         | Some v \<Rightarrow>
             if padding then None
             else if quad = 0 then a2b_base64 1 v 0 False cs
             else if quad = 1 then
               map_option (Cons (byte_of (left * 4 + v div 16))) (a2b_base64 2 (v mod 16) 0 False cs)
             else if quad = 2 then
               map_option (Cons (byte_of (left * 16 + v div 4))) (a2b_base64 3 (v mod 4) 0 False cs)
             else map_option (Cons (byte_of (left * 64 + v))) (a2b_base64 0 0 0 False cs)))"

definition b64decode :: "bytes \<Rightarrow> bytes option" where
  "b64decode s = (if s \<noteq> [] \<and> hd s = b64_pad then None else a2b_base64 0 0 0 False s)"

lemma b64_char_cases:
  assumes "n < 64"
  shows "b64_val (b64_char n) = Some n" and "b64_char n \<noteq> b64_pad" and "unat (b64_char n) < 128"
proof -
  consider "n < 26" | "26 \<le> n" "n < 52" | "52 \<le> n" "n < 62" | "n = 62" | "n = 63"
    using assms by linarith
  then have "b64_val (b64_char n) = Some n \<and> unat (b64_char n) \<noteq> 61 \<and> unat (b64_char n) < 128"
    by cases (auto simp: b64_char_def b64_val_def unat_byte_of Let_def)
  moreover have "unat b64_pad = 61" by (simp add: b64_pad_def unat_byte_of)
  ultimately show "b64_val (b64_char n) = Some n" "b64_char n \<noteq> b64_pad" "unat (b64_char n) < 128"
    by auto
qed

lemma b64_pad_ascii: "unat b64_pad < 128"
  by (simp add: b64_pad_def unat_byte_of)

text \<open>Three bytes as four groups of six bits, and back.\<close>

lemma div_mod_pair:
  fixes x y k :: nat
  assumes "y < k"
  shows "(x * k + y) div k = x" and "(x * k + y) mod k = y"
  using assms by simp_all

lemma quad_bounds:
  fixes a b c :: nat
  assumes "a < 256" "b < 256" "c < 256"
  shows "a div 4 < 64" and "a mod 4 * 16 + b div 16 < 64" and "b mod 16 * 4 + c div 64 < 64"
    and "a mod 4 * 16 < 64" and "b mod 16 * 4 < 64" and "c mod 64 < 64"
proof -
  have "a mod 4 < 4" and "b mod 16 < 16" by simp_all
  moreover have "b div 16 < 16" and "c div 64 < 4" and "a div 4 < 64"
    using assms by (simp_all add: less_mult_imp_div_less)
  ultimately show "a div 4 < 64" "a mod 4 * 16 + b div 16 < 64" "b mod 16 * 4 + c div 64 < 64"
    "a mod 4 * 16 < 64" "b mod 16 * 4 < 64" "c mod 64 < 64"
    by linarith+
qed

lemma quad_bytes:
  fixes a b c :: nat
  assumes "a < 256" "b < 256" "c < 256"
  shows "a div 4 * 4 + (a mod 4 * 16 + b div 16) div 16 = a"
    and "(a mod 4 * 16 + b div 16) mod 16 * 16 + (b mod 16 * 4 + c div 64) div 4 = b"
    and "(b mod 16 * 4 + c div 64) mod 4 * 64 + c mod 64 = c"
    and "a div 4 * 4 + (a mod 4 * 16) div 16 = a"
    and "(a mod 4 * 16 + b div 16) mod 16 * 16 + (b mod 16 * 4) div 4 = b"
proof -
  have "b div 16 < 16" and "c div 64 < 4"
    using assms by (simp_all add: less_mult_imp_div_less)
  note q = div_mod_pair [OF this(1), of "a mod 4"] div_mod_pair [OF this(2), of "b mod 16"]
  show "a div 4 * 4 + (a mod 4 * 16 + b div 16) div 16 = a"
    and "(a mod 4 * 16 + b div 16) mod 16 * 16 + (b mod 16 * 4 + c div 64) div 4 = b"
    and "(b mod 16 * 4 + c div 64) mod 4 * 64 + c mod 64 = c"
    and "a div 4 * 4 + (a mod 4 * 16) div 16 = a"
    and "(a mod 4 * 16 + b div 16) mod 16 * 16 + (b mod 16 * 4) div 4 = b"
    unfolding q by (simp_all only: nonzero_mult_div_cancel_right div_mult_mod_eq) (simp_all)?
qed

lemmas unat_quad_bounds = quad_bounds [OF unat_byte_less unat_byte_less unat_byte_less]
  and unat_quad_bytes = quad_bytes [OF unat_byte_less unat_byte_less unat_byte_less]

lemma a2b_quad:
  assumes "v1 < 64" "v2 < 64" "v3 < 64" "v4 < 64"
  shows "a2b_base64 0 0 0 False (b64_char v1 # b64_char v2 # b64_char v3 # b64_char v4 # rest) =
      map_option (\<lambda>r. byte_of (v1 * 4 + v2 div 16) # byte_of (v2 mod 16 * 16 + v3 div 4)
        # byte_of (v3 mod 4 * 64 + v4) # r) (a2b_base64 0 0 0 False rest)"
  using assms by (simp add: b64_char_cases option.map_comp comp_def)

lemma a2b_two:
  assumes "v1 < 64" "v2 < 64"
  shows "a2b_base64 0 0 0 False [b64_char v1, b64_char v2, b64_pad, b64_pad] =
      Some [byte_of (v1 * 4 + v2 div 16)]"
  using assms by (simp add: b64_char_cases)

lemma a2b_three:
  assumes "v1 < 64" "v2 < 64" "v3 < 64"
  shows "a2b_base64 0 0 0 False [b64_char v1, b64_char v2, b64_char v3, b64_pad] =
      Some [byte_of (v1 * 4 + v2 div 16), byte_of (v2 mod 16 * 16 + v3 div 4)]"
  using assms by (simp add: b64_char_cases)

lemma a2b_b64encode: "a2b_base64 0 0 0 False (b64encode bs) = Some bs"
proof (induction bs rule: b64encode.induct)
  case 1
  then show ?case by simp
next
  case (2 a)
  show ?case
    by (simp only: b64encode.simps a2b_two unat_quad_bounds unat_quad_bytes byte_of_unat)
next
  case (3 a b)
  show ?case
    by (simp only: b64encode.simps a2b_three unat_quad_bounds unat_quad_bytes byte_of_unat)
next
  case (4 a b c rest)
  then show ?case
    by (simp only: b64encode.simps a2b_quad unat_quad_bounds unat_quad_bytes byte_of_unat option.map)
qed

lemma b64encode_hd: "b64encode bs \<noteq> [] \<Longrightarrow> hd (b64encode bs) \<noteq> b64_pad"
  by (cases bs rule: b64encode.cases) (simp_all add: b64_char_cases unat_quad_bounds)

lemma b64_roundtrip: "b64decode (b64encode bs) = Some bs"
  using b64encode_hd[of bs] unfolding b64decode_def a2b_b64encode by argo

lemma b64encode_ascii: "list_all (\<lambda>b. unat b < 128) (b64encode bs)"
  by (induction bs rule: b64encode.induct) (simp_all add: b64_char_cases unat_quad_bounds b64_pad_ascii)

lemma b64_val_not_space: "b64_val b = Some v \<Longrightarrow> \<not> is_space (char_of (unat b))"
  by (auto simp: b64_val_def is_space_def Let_def split: if_splits)

interpretation base64: codec b64encode b64decode "\<lambda>_. True"
  by unfold_locales (rule b64_roundtrip)

interpretation utf8_base64: codec_chain utf8_encode utf8_decode "\<lambda>_. True" b64encode b64decode "\<lambda>_. True"
  by unfold_locales simp

end
