(* ===== verification/PyPath.thy ===== *)
theory PyPath
  imports PyBytes
begin

text \<open>
  Python's \<open>pathlib\<close> and \<open>os.path\<close> in their POSIX flavour. A path is its root and the list of
  its components; building one from text drops empty components and \<open>.\<close>, as
  \<open>PurePosixPath\<close> does, and \<open>path_str\<close> is \<open>str(path)\<close> (also \<open>as_posix()\<close>).
\<close>

datatype path = Path (root_of: string) (parts_of: "string list")

definition path_of :: "string \<Rightarrow> path" where
  "path_of s =
     Path (if startswith s ''//'' \<and> \<not> startswith s ''///'' then ''//''
           else if startswith s ''/'' then ''/'' else [])
          (filter (\<lambda>p. p \<noteq> [] \<and> p \<noteq> ''.'') (split_on CHR ''/'' s))"

definition path_str :: "path \<Rightarrow> string" where
  "path_str p = (if root_of p = [] \<and> parts_of p = [] then ''.''
                 else root_of p @ join ''/'' (parts_of p))"

definition path_name :: "path \<Rightarrow> string" where
  "path_name p = (if parts_of p = [] then [] else last (parts_of p))"

definition path_parent :: "path \<Rightarrow> path" where
  "path_parent p = Path (root_of p) (butlast (parts_of p))"

text \<open>\<open>p / name\<close> for a relative name of one or more components.\<close>

definition path_join :: "path \<Rightarrow> string \<Rightarrow> path" where
  "path_join p s =
     (if startswith s ''/'' then path_of s
      else Path (root_of p) (parts_of p @ parts_of (path_of s)))"

text \<open>The suffix starts at the last dot of the name, unless that is its first or last character.\<close>

definition last_dot :: "string \<Rightarrow> nat option" where
  "last_dot s = (if CHR ''.'' \<in> set s
                 then Some (length (before_last CHR ''.'' s)) else None)"

definition name_suffix :: "string \<Rightarrow> string" where
  "name_suffix s = (case last_dot s of
       None \<Rightarrow> []
     | Some i \<Rightarrow> if 0 < i \<and> i < length s - 1 then drop i s else [])"

definition name_stem :: "string \<Rightarrow> string" where
  "name_stem s = take (length s - length (name_suffix s)) s"

definition path_suffix :: "path \<Rightarrow> string" where
  "path_suffix p = name_suffix (path_name p)"

definition path_stem :: "path \<Rightarrow> string" where
  "path_stem p = name_stem (path_name p)"

definition with_name :: "path \<Rightarrow> string \<Rightarrow> path" where
  "with_name p n = Path (root_of p) (butlast (parts_of p) @ [n])"

definition with_suffix :: "path \<Rightarrow> string \<Rightarrow> path" where
  "with_suffix p suf = with_name p (path_stem p @ suf)"

lemma stem_suffix: "name_stem s @ name_suffix s = s"
proof (cases "name_suffix s = []")
  case True
  then show ?thesis by (simp add: name_stem_def)
next
  case False
  then obtain i where "name_suffix s = drop i s" "i < length s"
    by (auto simp: name_suffix_def split: option.splits if_splits)
  then show ?thesis by (simp add: name_stem_def)
qed

text \<open>Appending \<open>.pub\<close> to the suffix, as the program does for public keys, appends to the name.\<close>

lemma with_suffix_pub:
  "with_suffix p (path_suffix p @ ext) = with_name p (path_name p @ ext)"
proof -
  have "path_stem p @ path_suffix p @ ext = path_name p @ ext"
    using stem_suffix[of "path_name p"] unfolding path_stem_def path_suffix_def by (metis append_assoc)
  then show ?thesis unfolding with_suffix_def by presburger
qed

lemma with_name_distinct: "n \<noteq> path_name p \<Longrightarrow> parts_of p \<noteq> [] \<Longrightarrow> with_name p n \<noteq> p"
  by (cases p) (auto simp: with_name_def path_name_def dest: arg_cong[where f = last])

subsection \<open>Expansion of variables and of the home directory\<close>

definition is_word_char :: "char \<Rightarrow> bool" where
  "is_word_char c \<longleftrightarrow> is_digit c \<or> is_lower c \<or> is_upper c \<or> c = CHR ''_''"

text \<open>
  \<open>os.path.expandvars\<close>: \<open>$name\<close> and \<open>${name}\<close> are replaced when the variable is set and
  left as they are otherwise; a replacement is not expanded again.
\<close>

function expandvars :: "string dict \<Rightarrow> string \<Rightarrow> string" where
  "expandvars env [] = []"
| "expandvars env (c # cs) =
     (if c \<noteq> CHR ''$'' then c # expandvars env cs
      else if cs \<noteq> [] \<and> hd cs = CHR ''{'' \<and> CHR ''}'' \<in> set (tl cs) then
        (let name = takeWhile (\<lambda>d. d \<noteq> CHR ''}'') (tl cs);
             rest = tl (dropWhile (\<lambda>d. d \<noteq> CHR ''}'') (tl cs))
         in (case dget env name of Some v \<Rightarrow> v | None \<Rightarrow> ''${'' @ name @ ''}'')
            @ expandvars env rest)
      else
        (let name = takeWhile is_word_char cs; rest = dropWhile is_word_char cs
         in (if name = [] then [c]
             else case dget env name of Some v \<Rightarrow> v | None \<Rightarrow> c # name)
            @ expandvars env rest))"
  by pat_completeness auto
termination
proof (relation "measure (\<lambda>(env, s). length s)", goal_cases)
  case 1
  then show ?case by simp
next
  case (2 env c cs)
  then show ?case by simp
next
  case (3 env c cs name rest)
  have "length rest \<le> length (dropWhile (\<lambda>d. d \<noteq> CHR ''}'') (tl cs))" using 3 by simp
  also have "\<dots> \<le> length cs" by (metis diff_le_self le_trans length_dropWhile_le length_tl)
  finally show ?case by simp
next
  case (4 env c cs name rest)
  have "length rest \<le> length cs" using 4 by (simp add: length_dropWhile_le)
  then show ?case by simp
qed

text \<open>
  \<open>os.path.expanduser\<close>: a leading \<open>~\<close> or \<open>~user\<close> becomes a home directory. For \<open>~\<close> the
  variable \<open>HOME\<close> wins over the account database, which is the parameter \<open>home\<close>.
\<close>

definition expanduser :: "string dict \<Rightarrow> (string option \<Rightarrow> string option) \<Rightarrow> string \<Rightarrow> string" where
  "expanduser env home s =
     (if \<not> startswith s ''~'' then s
      else let user = takeWhile (\<lambda>c. c \<noteq> CHR ''/'') (tl s);
               rest = dropWhile (\<lambda>c. c \<noteq> CHR ''/'') (tl s);
               dir = (if user = [] then (case dget env ''HOME'' of Some h \<Rightarrow> Some h | None \<Rightarrow> home None)
                      else home (Some user))
           in case dir of
                None \<Rightarrow> s
              | Some h \<Rightarrow> or_else (rstrip_by (\<lambda>c. c = CHR ''/'') h @ rest) ''/'')"

end
