(* ===== verification/Errors.thy ===== *)
theory Errors
  imports PyPath
begin

text \<open>
  \<^verbatim>\<open>src/vmdeploy/exceptions.py\<close>: the exception hierarchy, plus the Python exceptions
  outside it that reach a handler of the program. \<open>exn_str\<close> is \<open>str(exc)\<close>.
\<close>

datatype exn =
    VmDeployError string
  | ConfigurationError string
  | SSHConnectionError string
  | RemoteCommandError string int string string
  | VirtualBoxError "string list" int string
  | ProvisioningTimeoutError string
  | InventoryError string
  | DecryptionError string
  | WebsiteFetchError string
  | OSError string
  | UnicodeDecodeError string
  | UnicodeEncodeError string
  | ValueError string
  | AttributeError string
  | TypeError string
  | RuntimeError string
  | SSHException string
  | KeyboardInterrupt

definition empty_or :: "string \<Rightarrow> string" where
  "empty_or s = or_else (strip s) ''<empty>''"

fun exn_str :: "exn \<Rightarrow> string" where
  "exn_str (RemoteCommandError command exit_status stdout stderr) =
     ''Remote command exited with status '' @ show_int exit_status @ '': '' @ command @ [c_nl]
     @ ''stderr: '' @ empty_or stderr"
| "exn_str (VirtualBoxError args_used exit_status stderr) =
     ''VBoxManage '' @ join '' '' args_used @ '' failed with status '' @ show_int exit_status
     @ '': '' @ empty_or stderr"
| "exn_str (VmDeployError msg) = msg"
| "exn_str (ConfigurationError msg) = msg"
| "exn_str (SSHConnectionError msg) = msg"
| "exn_str (ProvisioningTimeoutError msg) = msg"
| "exn_str (InventoryError msg) = msg"
| "exn_str (DecryptionError msg) = msg"
| "exn_str (WebsiteFetchError msg) = msg"
| "exn_str (OSError msg) = msg"
| "exn_str (UnicodeDecodeError msg) = msg"
| "exn_str (UnicodeEncodeError msg) = msg"
| "exn_str (ValueError msg) = msg"
| "exn_str (AttributeError msg) = msg"
| "exn_str (TypeError msg) = msg"
| "exn_str (RuntimeError msg) = msg"
| "exn_str (SSHException msg) = msg"
| "exn_str KeyboardInterrupt = []"

text \<open>What an \<open>except\<close> clause naming the class catches: the class and its subclasses.\<close>

fun is_VmDeployError :: "exn \<Rightarrow> bool" where
  "is_VmDeployError (OSError _) = False"
| "is_VmDeployError (UnicodeDecodeError _) = False"
| "is_VmDeployError (UnicodeEncodeError _) = False"
| "is_VmDeployError (ValueError _) = False"
| "is_VmDeployError (AttributeError _) = False"
| "is_VmDeployError (TypeError _) = False"
| "is_VmDeployError (RuntimeError _) = False"
| "is_VmDeployError (SSHException _) = False"
| "is_VmDeployError KeyboardInterrupt = False"
| "is_VmDeployError _ = True"

fun is_SSHConnectionError :: "exn \<Rightarrow> bool" where
  "is_SSHConnectionError (SSHConnectionError _) = True"
| "is_SSHConnectionError _ = False"

fun is_RemoteCommandError :: "exn \<Rightarrow> bool" where
  "is_RemoteCommandError (RemoteCommandError _ _ _ _) = True"
| "is_RemoteCommandError _ = False"

fun is_VirtualBoxError :: "exn \<Rightarrow> bool" where
  "is_VirtualBoxError (VirtualBoxError _ _ _) = True"
| "is_VirtualBoxError _ = False"

fun is_ProvisioningTimeoutError :: "exn \<Rightarrow> bool" where
  "is_ProvisioningTimeoutError (ProvisioningTimeoutError _) = True"
| "is_ProvisioningTimeoutError _ = False"

fun is_InventoryError :: "exn \<Rightarrow> bool" where
  "is_InventoryError (InventoryError _) = True"
| "is_InventoryError (DecryptionError _) = True"
| "is_InventoryError _ = False"

fun is_OSError :: "exn \<Rightarrow> bool" where
  "is_OSError (OSError _) = True"
| "is_OSError _ = False"

fun is_ValueError :: "exn \<Rightarrow> bool" where
  "is_ValueError (ValueError _) = True"
| "is_ValueError (UnicodeDecodeError _) = True"
| "is_ValueError (UnicodeEncodeError _) = True"
| "is_ValueError _ = False"

lemma subclass_VmDeployError:
  "is_SSHConnectionError e \<Longrightarrow> is_VmDeployError e"
  "is_RemoteCommandError e \<Longrightarrow> is_VmDeployError e"
  "is_VirtualBoxError e \<Longrightarrow> is_VmDeployError e"
  "is_ProvisioningTimeoutError e \<Longrightarrow> is_VmDeployError e"
  "is_InventoryError e \<Longrightarrow> is_VmDeployError e"
  by (cases e; simp)+

end
