(* ===== verification/World.thy ===== *)
theory World
  imports Errors
begin

text \<open>
  The effects of the program. A program is a function from the world to a result, an exception
  or a value, and the world after it; an exception keeps the effects made so far, as in Python.

  The world holds what the automation host itself keeps: the monotonic clock in milliseconds,
  the files, the environment variables, the entropy pool, the connection state of each
  \<open>RemoteHost\<close> object, the text printed, and \<open>trace\<close>, the record of every call that left
  the process. The state of everything outside (hypervisor, guests, network) is \<open>ext\<close>, of an
  arbitrary type; \<open>'e env\<close> holds the outside operations, one field each, as functions on that
  state. Each returns its outcome, the milliseconds it took and the state after it; the outcome
  is \<open>None\<close> when the user interrupted the program during the call.
\<close>

text \<open>A TOML value; a float, a date or a time is kept as the text \<open>str\<close> gives it.\<close>

datatype toml =
    TStr string | TInt int | TBool bool | TFloat string | TDate string
  | TArr "toml list" | TTab "(string \<times> toml) list"

datatype proc_outcome = ProcDone int string string | ProcTimeout | ProcOSError string
datatype connect_outcome = Connected | AuthFailed string | Unreachable string
datatype exec_outcome = ExecDone int string string | ExecFailed string

text \<open>
  An HTTP answer: the status, its reason phrase and the body, or the part of it that came before the
  transfer broke off.
\<close>

datatype http_outcome = HttpDone int string bytes | HttpCut int string bytes string | HttpFailed string

text \<open>
  \<open>socket.getaddrinfo\<close>: the addresses found, a \<open>gaierror\<close>, another \<open>OSError\<close>, or the \<open>ValueError\<close> (a
  \<open>UnicodeError\<close>) of a name that cannot be encoded.
\<close>

datatype resolve_outcome = Resolved "string list" | NotResolved | ResolveOSError string | ResolveValueError string

datatype sftp_fault = FaultOS (fault_text: string) | FaultSSH (fault_text: string)

text \<open>The Win32 structure \<open>MEMORYSTATUSEX\<close>, which Windows fills in.\<close>

record memory_status =
  dwLength :: "32 word"
  dwMemoryLoad :: "32 word"
  ullTotalPhys :: "64 word"
  ullAvailPhys :: "64 word"
  ullTotalPageFile :: "64 word"
  ullAvailPageFile :: "64 word"
  ullTotalVirtual :: "64 word"
  ullAvailVirtual :: "64 word"
  ullAvailExtendedVirtual :: "64 word"

text \<open>The arguments of \<open>PyCdlib.new\<close> and of \<open>add_fp\<close>.\<close>

record iso_options =
  interchange_level :: nat
  joliet_level :: nat
  rock_ridge :: string
  vol_ident :: string

record iso_file =
  iso_payload :: bytes
  iso_identifier :: string
  rr_name :: string
  joliet_path :: string

type_synonym ('e, 'r) service = "'e \<Rightarrow> 'r option \<times> nat \<times> 'e"
type_synonym utc = "nat \<times> nat \<times> nat \<times> nat \<times> nat \<times> nat"

datatype event =
    EvProc "string list" "proc_outcome option"
  | EvConnect string string "connect_outcome option"
  | EvClose string
  | EvExec string string string "string option" "exec_outcome option"
  | EvSftpOpen string
  | EvSftpWrite string string bytes "sftp_fault option option"
  | EvSftpRead string string
  | EvHttp string "http_outcome option"
  | EvResolve string "resolve_outcome option"
  | EvProbe
  | EvSleep int

record 'e env =
  x_proc :: "string list \<Rightarrow> int \<Rightarrow> ('e, proc_outcome) service"
  x_connect :: "string \<Rightarrow> string \<Rightarrow> string \<Rightarrow> int \<Rightarrow> ('e, connect_outcome) service"
  x_exec :: "string \<Rightarrow> string \<Rightarrow> string \<Rightarrow> string option \<Rightarrow> int \<Rightarrow> ('e, exec_outcome) service"
  x_sftp_open :: "string \<Rightarrow> ('e, string option) service"
  x_sftp_write :: "string \<Rightarrow> string \<Rightarrow> bytes \<Rightarrow> ('e, sftp_fault option) service"
  x_sftp_read :: "string \<Rightarrow> string \<Rightarrow> ('e, string + bytes) service"
  x_http :: "string \<Rightarrow> int \<Rightarrow> ('e, http_outcome) service"
  x_resolve :: "string \<Rightarrow> ('e, resolve_outcome) service"
  x_lan :: "('e, string option) service"
  x_sleep :: "int \<Rightarrow> ('e, unit) service"
  x_utc :: "int \<Rightarrow> utc"
  x_home :: "string option \<Rightarrow> string option"
  x_toml :: "string \<Rightarrow> string + toml dict"
  x_seal :: "bytes \<Rightarrow> bytes \<Rightarrow> bytes \<Rightarrow> bytes"
  x_open :: "bytes \<Rightarrow> bytes \<Rightarrow> bytes \<Rightarrow> bytes option"
  x_float_str :: "string \<Rightarrow> string"
  x_date_repr :: "string \<Rightarrow> string"
  x_iso :: "iso_options \<Rightarrow> iso_file list \<Rightarrow> string + bytes"
  x_keypair :: "bytes \<Rightarrow> bytes \<times> string"
  x_system :: string
  x_memory_status :: "('e \<Rightarrow> memory_status \<Rightarrow> memory_status option) option"
  x_sysconf :: "'e \<Rightarrow> (int \<times> int) option"
  x_is_dir :: "'e \<Rightarrow> path \<Rightarrow> bool"
  x_disk_free :: "'e \<Rightarrow> string \<Rightarrow> string + nat"
  x_made :: "'e \<Rightarrow> path \<Rightarrow> bytes option"
  x_tmpdir :: path

text \<open>
  The operations on a local path that the operating system can refuse, each on its own: opening it,
  removing it, making it a directory, changing its mode. The fields \<open>denied\<close> and \<open>room\<close> of the world
  say which refusals the program meets, and after how many bytes a write to a path finds the disk full.
  A file that can be opened for writing can be opened for reading.
\<close>

datatype file_op = Opening | Removing | Making | Changing

record 'e world =
  ext :: 'e
  clock :: int
  files :: "path \<Rightarrow> bytes option"
  modes :: "path \<Rightarrow> int option"
  denied :: "file_op \<Rightarrow> path \<Rightarrow> bool"
  room :: "path \<Rightarrow> nat option"
  environ :: "string dict"
  entropy :: "nat \<Rightarrow> byte"
  drawn :: nat
  clients :: "nat \<Rightarrow> bool"
  sftps :: "nat \<Rightarrow> bool"
  next_host :: nat
  trace :: "event list"
  printed :: "string list"

type_synonym ('e, 'a) prog = "'e world \<Rightarrow> (exn + 'a) \<times> 'e world"

subsection \<open>Sequencing, exceptions, loops\<close>

definition ret :: "'a \<Rightarrow> ('e, 'a) prog" where
  "ret a = (\<lambda>w. (Inr a, w))"

definition raise :: "exn \<Rightarrow> ('e, 'a) prog" where
  "raise e = (\<lambda>w. (Inl e, w))"

definition bnd :: "('e, 'a) prog \<Rightarrow> ('a \<Rightarrow> ('e, 'b) prog) \<Rightarrow> ('e, 'b) prog" where
  "bnd m k = (\<lambda>w. case m w of (Inl e, v) \<Rightarrow> (Inl e, v) | (Inr a, v) \<Rightarrow> k a v)"

text \<open>\<open>m; k\<close> where the value of \<open>m\<close> is not used.\<close>

definition andthen :: "('e, 'a) prog \<Rightarrow> ('e, 'b) prog \<Rightarrow> ('e, 'b) prog" where
  "andthen m k = bnd m (\<lambda>_. k)"

text \<open>\<open>try: m except ...: h\<close>; the handler is \<open>None\<close> for an exception no clause names.\<close>

definition catch :: "('e, 'a) prog \<Rightarrow> (exn \<Rightarrow> ('e, 'a) prog option) \<Rightarrow> ('e, 'a) prog" where
  "catch m h = (\<lambda>w. case m w of
       (Inl e, v) \<Rightarrow> (case h e of None \<Rightarrow> (Inl e, v) | Some p \<Rightarrow> p v)
     | (Inr a, v) \<Rightarrow> (Inr a, v))"

text \<open>\<open>try: m finally: f\<close>; an exception of \<open>f\<close> replaces the outcome of \<open>m\<close>.\<close>

definition always :: "('e, 'a) prog \<Rightarrow> ('e, unit) prog \<Rightarrow> ('e, 'a) prog" where
  "always m f = (\<lambda>w. case m w of (r, v) \<Rightarrow>
     (case f v of (Inl e, u) \<Rightarrow> (Inl e, u) | (Inr _, u) \<Rightarrow> (r, u)))"

fun for_each :: "'b list \<Rightarrow> ('b \<Rightarrow> ('e, unit) prog) \<Rightarrow> ('e, unit) prog" where
  "for_each [] f = ret ()"
| "for_each (b # bs) f = andthen (f b) (for_each bs f)"

fun fold_prog :: "('b \<Rightarrow> 'a \<Rightarrow> ('e, 'a) prog) \<Rightarrow> 'b list \<Rightarrow> 'a \<Rightarrow> ('e, 'a) prog" where
  "fold_prog f [] a = ret a"
| "fold_prog f (b # bs) a = bnd (f b a) (fold_prog f bs)"

definition only_if :: "bool \<Rightarrow> ('e, unit) prog \<Rightarrow> ('e, unit) prog" where
  "only_if b m = (if b then m else ret ())"

definition of_sum :: "exn + 'a \<Rightarrow> ('e, 'a) prog" where
  "of_sum r = (\<lambda>w. (r, w))"

lemma run_defs [run_simps]:
  "ret a w = (Inr a, w)"
  "raise e w = (Inl e, w)"
  "bnd m k w = (case m w of (Inl e, v) \<Rightarrow> (Inl e, v) | (Inr a, v) \<Rightarrow> k a v)"
  "andthen m n w = (case m w of (Inl e, v) \<Rightarrow> (Inl e, v) | (Inr a, v) \<Rightarrow> n v)"
  "catch m h w = (case m w of
       (Inl e, v) \<Rightarrow> (case h e of None \<Rightarrow> (Inl e, v) | Some p \<Rightarrow> p v)
     | (Inr a, v) \<Rightarrow> (Inr a, v))"
  "always m f w = (case m w of (r, v) \<Rightarrow>
     (case f v of (Inl e, u) \<Rightarrow> (Inl e, u) | (Inr _, u) \<Rightarrow> (r, u)))"
  "only_if b u w = (if b then u w else (Inr (), w))"
  "of_sum r w = (r, w)"
  by (simp_all add: ret_def raise_def bnd_def andthen_def catch_def always_def only_if_def of_sum_def)

text \<open>A run that returned, and one that raised, taken apart.\<close>

lemma run_inv_rules [run_inv]:
  "ret a w = (Inr b, w') \<longleftrightarrow> b = a \<and> w' = w"
  "ret a w = (Inl e, w') \<longleftrightarrow> False"
  "raise e w = (Inr b, w') \<longleftrightarrow> False"
  "raise e w = (Inl e', w') \<longleftrightarrow> e' = e \<and> w' = w"
  "bnd m k w = (Inr c, w') \<longleftrightarrow> (\<exists>a v. m w = (Inr a, v) \<and> k a v = (Inr c, w'))"
  "bnd m k w = (Inl e, w') \<longleftrightarrow>
     m w = (Inl e, w') \<or> (\<exists>a v. m w = (Inr a, v) \<and> k a v = (Inl e, w'))"
  "andthen m n w = (Inr c, w') \<longleftrightarrow> (\<exists>a v. m w = (Inr a, v) \<and> n v = (Inr c, w'))"
  "andthen m n w = (Inl e, w') \<longleftrightarrow>
     m w = (Inl e, w') \<or> (\<exists>a v. m w = (Inr a, v) \<and> n v = (Inl e, w'))"
  by (auto simp: run_simps split: prod.splits sum.splits)

lemma catch_Inr:
  "catch m h w = (Inr u, w') \<longleftrightarrow> m w = (Inr u, w')
     \<or> (\<exists>e v p. m w = (Inl e, v) \<and> h e = Some p \<and> p v = (Inr u, w'))"
  by (auto simp: run_simps split: prod.splits sum.splits option.splits)

lemma bnd_assoc: "bnd (bnd m k) l = bnd m (\<lambda>a. bnd (k a) l)"
  by (rule ext) (simp add: run_simps split: prod.splits sum.splits)

lemma bnd_ret [simp]: "bnd (ret a) k = k a" and ret_bnd [simp]: "bnd m ret = m"
  by (rule ext, simp add: run_simps split: prod.splits sum.splits)+

lemma for_each_append: "for_each (xs @ ys) f = andthen (for_each xs f) (for_each ys f)"
  by (induction xs) (auto simp: andthen_def bnd_assoc)

subsection \<open>Calls that leave the process\<close>

definition ext_call :: "('r option \<Rightarrow> event) \<Rightarrow> ('e, 'r) service \<Rightarrow> ('e, 'r) prog" where
  "ext_call ev op = (\<lambda>w. case op (ext w) of (out, dt, s) \<Rightarrow>
     ((case out of None \<Rightarrow> Inl KeyboardInterrupt | Some r \<Rightarrow> Inr r),
      w\<lparr>ext := s, clock := clock w + int dt, trace := trace w @ [ev out]\<rparr>))"

text \<open>\<open>time.sleep\<close>: at least the requested time passes.\<close>

definition sleep :: "'e env \<Rightarrow> int \<Rightarrow> ('e, unit) prog" where
  "sleep x ms = bnd (ext_call (\<lambda>_. EvSleep ms) (x_sleep x ms))
     (\<lambda>_ w. (Inr (), w\<lparr>clock := clock w + ms\<rparr>))"

definition monotonic :: "('e, int) prog" where
  "monotonic = (\<lambda>w. (Inr (clock w), w))"

text \<open>\<open>print\<close>\<close>

definition print :: "string \<Rightarrow> ('e, unit) prog" where
  "print s = (\<lambda>w. (Inr (), w\<lparr>printed := printed w @ [s]\<rparr>))"

text \<open>\<open>os.environ.get(key, default)\<close>\<close>

definition getenv :: "string \<Rightarrow> string \<Rightarrow> ('e, string) prog" where
  "getenv key d = (\<lambda>w. (Inr (case dget (environ w) key of Some v \<Rightarrow> v | None \<Rightarrow> d), w))"

text \<open>\<open>os.urandom(n)\<close> and \<open>secrets.token_bytes(n)\<close>: the next \<open>n\<close> bytes of the pool.\<close>

definition urandom :: "nat \<Rightarrow> ('e, bytes) prog" where
  "urandom n = (\<lambda>w. (Inr (map (entropy w) [drawn w..<drawn w + n]), w\<lparr>drawn := drawn w + n\<rparr>))"

subsection \<open>Local files\<close>

definition no_such_file :: "path \<Rightarrow> exn" where
  "no_such_file p = OSError (''[Errno 2] No such file or directory: '' @ py_repr (path_str p))"

definition permission_denied :: "path \<Rightarrow> exn" where
  "permission_denied p = OSError (''[Errno 13] Permission denied: '' @ py_repr (path_str p))"

definition disk_full :: "path \<Rightarrow> exn" where
  "disk_full p = OSError ''[Errno 28] No space left on device''"

lemma os_errors [simp]:
  "is_OSError (no_such_file p)" "is_OSError (permission_denied p)" "is_OSError (disk_full p)"
  by (simp_all add: no_such_file_def permission_denied_def disk_full_def)

definition is_file :: "path \<Rightarrow> ('e, bool) prog" where
  "is_file p = (\<lambda>w. (Inr (files w p \<noteq> None), w))"

definition read_bytes :: "path \<Rightarrow> ('e, bytes) prog" where
  "read_bytes p = (\<lambda>w. case files w p of
       None \<Rightarrow> (Inl (no_such_file p), w)
     | Some b \<Rightarrow> if denied w Opening p then (Inl (permission_denied p), w) else (Inr b, w))"

text \<open>Opening a file for writing empties it; a write that fails leaves what went through.\<close>

definition fits :: "'e world \<Rightarrow> path \<Rightarrow> bytes \<Rightarrow> bool" where
  "fits w p b \<longleftrightarrow> (case room w p of None \<Rightarrow> True | Some n \<Rightarrow> length b \<le> n)"

definition write_bytes :: "path \<Rightarrow> bytes \<Rightarrow> ('e, unit) prog" where
  "write_bytes p b = (\<lambda>w. if denied w Opening p then (Inl (permission_denied p), w)
     else if fits w p b then (Inr (), w\<lparr>files := (files w)(p \<mapsto> b)\<rparr>)
     else (Inl (disk_full p), w\<lparr>files := (files w)(p \<mapsto> take (the (room w p)) b)\<rparr>))"

definition unlink :: "path \<Rightarrow> ('e, unit) prog" where
  "unlink p = (\<lambda>w. if denied w Removing p then (Inl (permission_denied p), w)
     else if files w p = None then (Inl (no_such_file p), w)
     else (Inr (), w\<lparr>files := (files w)(p := None)\<rparr>))"

text \<open>\<open>path.unlink(missing_ok=True)\<close>\<close>

definition unlink_missing_ok :: "path \<Rightarrow> ('e, unit) prog" where
  "unlink_missing_ok p = (\<lambda>w. if files w p = None then (Inr (), w) else unlink p w)"

text \<open>
  \<open>path.mkdir(parents=True, exist_ok=True)\<close>: directories hold no state of their own here, and
  \<open>denied\<close> says whether the call fails on this path.
\<close>

definition mkdir :: "path \<Rightarrow> ('e, unit) prog" where
  "mkdir p = (\<lambda>w. if denied w Making p then (Inl (permission_denied p), w) else (Inr (), w))"

definition chmod :: "path \<Rightarrow> int \<Rightarrow> ('e, unit) prog" where
  "chmod p m = (\<lambda>w. if denied w Changing p then (Inl (permission_denied p), w)
     else if files w p = None then (Inl (no_such_file p), w)
     else (Inr (), w\<lparr>modes := (modes w)(p \<mapsto> m)\<rparr>))"

text \<open>What the operating system answers, unchanged by being asked.\<close>

definition asking :: "('e \<Rightarrow> 'r) \<Rightarrow> ('e, 'r) prog" where
  "asking f = (\<lambda>w. (Inr (f (ext w)), w))"

text \<open>\<open>path.exists()\<close>: a file of this host, or a directory, which only the outside knows.\<close>

definition path_exists :: "'e env \<Rightarrow> path \<Rightarrow> ('e, bool) prog" where
  "path_exists x p = (\<lambda>w. (Inr (files w p \<noteq> None \<or> x_is_dir x (ext w) p), w))"

text \<open>A file that a program of the host was asked to write: what the outside made of it.\<close>

definition collect_output :: "'e env \<Rightarrow> path \<Rightarrow> ('e, unit) prog" where
  "collect_output x p = (\<lambda>w. case x_made x (ext w) p of
       None \<Rightarrow> (Inl (no_such_file p), w)
     | Some b \<Rightarrow> (Inr (), w\<lparr>files := (files w)(p \<mapsto> b)\<rparr>))"

text \<open>\<open>path.read_text(encoding="ascii")\<close> and \<open>encoding="utf-8"\<close>\<close>

definition read_ascii :: "path \<Rightarrow> ('e, string) prog" where
  "read_ascii p = bnd (read_bytes p) (\<lambda>b.
     case ascii_decode b of
       None \<Rightarrow> raise (UnicodeDecodeError ''ordinal not in range(128)'')
     | Some s \<Rightarrow> ret s)"

definition read_utf8 :: "path \<Rightarrow> ('e, string) prog" where
  "read_utf8 p = bnd (read_bytes p) (\<lambda>b.
     case utf8_decode b of
       None \<Rightarrow> raise (UnicodeDecodeError ''invalid utf-8'')
     | Some s \<Rightarrow> ret s)"

text \<open>
  \<open>path.read_text\<close> opens the file in text mode: every line end becomes a line feed.
\<close>

fun universal_newlines :: "string \<Rightarrow> string" where
  "universal_newlines [] = []"
| "universal_newlines [c] = [if c = c_cr then c_nl else c]"
| "universal_newlines (c # d # s) =
     (if c = c_cr then c_nl # (if d = c_nl then universal_newlines s else universal_newlines (d # s))
      else c # universal_newlines (d # s))"

definition read_text_ascii :: "path \<Rightarrow> ('e, string) prog" where
  "read_text_ascii p = bnd (read_ascii p) (\<lambda>t. ret (universal_newlines t))"

definition read_text_utf8 :: "path \<Rightarrow> ('e, string) prog" where
  "read_text_utf8 p = bnd (read_utf8 p) (\<lambda>t. ret (universal_newlines t))"

text \<open>
  \<open>text.encode("ascii")\<close>, and \<open>path.write_text(text, encoding="ascii")\<close>, which has already
  truncated the file when the text cannot be encoded.
\<close>

definition encode_ascii :: "string \<Rightarrow> ('e, bytes) prog" where
  "encode_ascii t =
     (if is_ascii t then ret (ascii_encode t)
      else raise (UnicodeEncodeError ''ordinal not in range(128)''))"

definition write_text_ascii :: "path \<Rightarrow> string \<Rightarrow> ('e, unit) prog" where
  "write_text_ascii p t =
     (if is_ascii t then write_bytes p (ascii_encode t)
      else andthen (write_bytes p []) (raise (UnicodeEncodeError ''ordinal not in range(128)'')))"

lemma run_ext_call [run_simps]:
  "ext_call ev op w = (case op (ext w) of (out, dt, s) \<Rightarrow>
     ((case out of None \<Rightarrow> Inl KeyboardInterrupt | Some r \<Rightarrow> Inr r),
      w\<lparr>ext := s, clock := clock w + int dt, trace := trace w @ [ev out]\<rparr>))"
  by (simp add: ext_call_def)

lemma run_host_ops [run_simps]:
  "monotonic w = (Inr (clock w), w)"
  "print s w = (Inr (), w\<lparr>printed := printed w @ [s]\<rparr>)"
  "getenv key d w = (Inr (case dget (environ w) key of Some v \<Rightarrow> v | None \<Rightarrow> d), w)"
  "urandom n w = (Inr (map (entropy w) [drawn w..<drawn w + n]), w\<lparr>drawn := drawn w + n\<rparr>)"
  "is_file p w = (Inr (files w p \<noteq> None), w)"
  "asking f w = (Inr (f (ext w)), w)"
  "path_exists x p w = (Inr (files w p \<noteq> None \<or> x_is_dir x (ext w) p), w)"
  by (simp_all add: monotonic_def print_def getenv_def urandom_def is_file_def asking_def path_exists_def)

lemmas file_op_defs = read_bytes_def write_bytes_def unlink_def unlink_missing_ok_def mkdir_def
  chmod_def

lemma fits_roomy [simp]: "room w p = None \<Longrightarrow> fits w p b"
  by (simp add: fits_def)

lemma fits_fields [simp]:
  "fits (w\<lparr>drawn := n\<rparr>) p b = fits w p b" "fits (w\<lparr>files := f\<rparr>) p b = fits w p b"
  "fits (w\<lparr>modes := m\<rparr>) p b = fits w p b"
  by (simp_all add: fits_def)

subsection \<open>A quiet world\<close>

text \<open>
  One environment in which every call succeeds at once and says nothing, and a world with an
  administrator's key on disk, on which theorems are applied to an instance. Sealing appends
  sixteen zero bytes.
\<close>

definition quiet_env :: "'e env" where
  "quiet_env = \<lparr>
     x_proc = (\<lambda>_ _ e. (Some (ProcDone 0 [] []), 0, e)),
     x_connect = (\<lambda>_ _ _ _ e. (Some Connected, 0, e)),
     x_exec = (\<lambda>_ _ _ _ _ e. (Some (ExecDone 0 [] []), 0, e)),
     x_sftp_open = (\<lambda>_ e. (Some None, 0, e)),
     x_sftp_write = (\<lambda>_ _ _ e. (Some None, 0, e)),
     x_sftp_read = (\<lambda>_ _ e. (Some (Inr []), 0, e)),
     x_http = (\<lambda>_ _ e. (Some (HttpDone 200 ''OK'' []), 0, e)),
     x_resolve = (\<lambda>_ e. (Some NotResolved, 0, e)),
     x_lan = (\<lambda>e. (Some None, 0, e)),
     x_sleep = (\<lambda>_ e. (Some (), 0, e)),
     x_utc = (\<lambda>_. (2026, 1, 2, 3, 4, 5)),
     x_home = (\<lambda>_. Some ''/root''),
     x_toml = (\<lambda>_. Inr []),
     x_seal = (\<lambda>_ _ plain. plain @ replicate 16 0),
     x_open = (\<lambda>_ _ sealed. Some (take (length sealed - 16) sealed)),
     x_float_str = (\<lambda>s. s),
     x_date_repr = (\<lambda>s. s),
     x_iso = (\<lambda>_ _. Inr []),
     x_keypair = (\<lambda>_. ([], [])),
     x_system = ''Linux'',
     x_memory_status = None,
     x_sysconf = (\<lambda>_. None),
     x_is_dir = (\<lambda>_ _. True),
     x_disk_free = (\<lambda>_ _. Inr 0),
     x_made = (\<lambda>_ _. Some []),
     x_tmpdir = Path ''/'' [''tmp'']\<rparr>"

definition quiet_key :: path where
  "quiet_key = Path ''/'' [''home'', ''ops'', ''.ssh'', ''id_ed25519'']"

definition quiet_world :: "unit world" where
  "quiet_world = \<lparr>ext = (), clock = 0, files = (\<lambda>p. if p = quiet_key then Some [] else None),
     modes = (\<lambda>_. None), denied = (\<lambda>_ _. False), room = (\<lambda>_. None), environ = [], entropy = (\<lambda>_. 0), drawn = 0,
     clients = (\<lambda>_. False), sftps = (\<lambda>_. False), next_host = 0, trace = [], printed = []\<rparr>"

end
