(* ===== verification/Evolution.thy ===== *)
theory Evolution
  imports World
begin

text \<open>
  Relations between the world before a run and the world after it. \<open>evolves R m\<close> says that
  every run of \<open>m\<close>, returning or raising, relates the two by \<open>R\<close>. The locale \<open>evolution\<close> asks
  that \<open>R\<close> be reflexive and transitive and gives the composition rules for every combinator;
  its interpretations are the clock, the events emitted, the files left alone and the
  connections left open.
\<close>

definition evolves :: "('e world \<Rightarrow> 'e world \<Rightarrow> bool) \<Rightarrow> ('e, 'a) prog \<Rightarrow> bool" where
  "evolves R m \<longleftrightarrow> (\<forall>w. R w (snd (m w)))"

lemma evolvesI: "(\<And>w. R w (snd (m w))) \<Longrightarrow> evolves R m"
  by (simp add: evolves_def)

lemma evolvesD: "evolves R m \<Longrightarrow> m w = (r, w') \<Longrightarrow> R w w'"
  by (metis evolves_def snd_conv)

locale evolution =
  fixes R :: "'e world \<Rightarrow> 'e world \<Rightarrow> bool"
  assumes refl: "R w w"
    and trans: "R u v \<Longrightarrow> R v w \<Longrightarrow> R u w"
begin

lemma ev_ret [evolve_intros]: "evolves R (ret a)"
  by (simp add: evolves_def run_simps refl)

lemma ev_raise [evolve_intros]: "evolves R (raise e)"
  by (simp add: evolves_def run_simps refl)

lemma ev_of_sum [evolve_intros]: "evolves R (of_sum s)"
  by (simp add: evolves_def run_simps refl)

lemma ev_bnd [evolve_intros]:
  "evolves R m \<Longrightarrow> (\<And>a. evolves R (k a)) \<Longrightarrow> evolves R (bnd m k)"
  unfolding evolves_def run_simps
  by (auto split: prod.splits sum.splits intro: trans) (metis snd_conv trans)+

lemma ev_andthen [evolve_intros]:
  "evolves R m \<Longrightarrow> evolves R n \<Longrightarrow> evolves R (andthen m n)"
  by (simp add: andthen_def ev_bnd)

lemma ev_catch [evolve_intros]:
  "evolves R m \<Longrightarrow> (\<And>e p. h e = Some p \<Longrightarrow> evolves R p) \<Longrightarrow> evolves R (catch m h)"
  unfolding evolves_def run_simps
  by (auto split: prod.splits sum.splits option.splits) (metis snd_conv trans)+

lemma ev_always [evolve_intros]:
  "evolves R m \<Longrightarrow> evolves R f \<Longrightarrow> evolves R (always m f)"
  unfolding evolves_def run_simps
  by (auto split: prod.splits sum.splits) (metis snd_conv trans)+

lemma ev_only_if [evolve_intros]: "evolves R m \<Longrightarrow> evolves R (only_if b m)"
  by (simp add: only_if_def ev_ret)

lemma ev_for_each [evolve_intros]:
  "(\<And>b. b \<in> set bs \<Longrightarrow> evolves R (f b)) \<Longrightarrow> evolves R (for_each bs f)"
  by (induction bs) (auto intro: ev_ret ev_andthen)

lemma ev_fold_prog [evolve_intros]:
  "(\<And>b a. b \<in> set bs \<Longrightarrow> evolves R (f b a)) \<Longrightarrow> evolves R (fold_prog f bs a)"
  by (induction bs arbitrary: a) (auto intro: ev_ret ev_bnd)

lemma ev_reader [evolve_intros]:
  "evolves R monotonic" "evolves R (getenv key d)" "evolves R (is_file p)" "evolves R (read_bytes p)"
  "evolves R (asking f)" "evolves R (path_exists x p)"
  by (auto simp: evolves_def run_simps read_bytes_def refl split: option.splits)

end

text \<open>Case distinctions inside a program keep any relation.\<close>

lemma evolves_if [evolve_intros]:
  "(b \<Longrightarrow> evolves R m) \<Longrightarrow> (\<not> b \<Longrightarrow> evolves R n) \<Longrightarrow> evolves R (if b then m else n)"
  by simp

lemma evolves_option [evolve_intros]:
  "(t = None \<Longrightarrow> evolves R m) \<Longrightarrow> (\<And>a. t = Some a \<Longrightarrow> evolves R (k a)) \<Longrightarrow>
   evolves R (case t of None \<Rightarrow> m | Some a \<Rightarrow> k a)"
  by (cases t) auto

lemma evolves_sum [evolve_intros]:
  "(\<And>a. t = Inl a \<Longrightarrow> evolves R (j a)) \<Longrightarrow> (\<And>b. t = Inr b \<Longrightarrow> evolves R (k b)) \<Longrightarrow>
   evolves R (case t of Inl a \<Rightarrow> j a | Inr b \<Rightarrow> k b)"
  by (cases t) auto

lemma evolves_prod [evolve_intros]:
  "(\<And>a b. t = (a, b) \<Longrightarrow> evolves R (k a b)) \<Longrightarrow> evolves R (case t of (a, b) \<Rightarrow> k a b)"
  by (cases t) auto

lemma evolves_proc_outcome [evolve_intros]:
  "(\<And>a b c. t = ProcDone a b c \<Longrightarrow> evolves R (j a b c)) \<Longrightarrow> (t = ProcTimeout \<Longrightarrow> evolves R m) \<Longrightarrow>
   (\<And>s. t = ProcOSError s \<Longrightarrow> evolves R (k s)) \<Longrightarrow>
   evolves R (case t of ProcDone a b c \<Rightarrow> j a b c | ProcTimeout \<Rightarrow> m | ProcOSError s \<Rightarrow> k s)"
  by (cases t) auto

lemma evolves_connect_outcome [evolve_intros]:
  "(t = Connected \<Longrightarrow> evolves R m) \<Longrightarrow> (\<And>s. t = AuthFailed s \<Longrightarrow> evolves R (j s)) \<Longrightarrow>
   (\<And>s. t = Unreachable s \<Longrightarrow> evolves R (k s)) \<Longrightarrow>
   evolves R (case t of Connected \<Rightarrow> m | AuthFailed s \<Rightarrow> j s | Unreachable s \<Rightarrow> k s)"
  by (cases t) auto

lemma evolves_exec_outcome [evolve_intros]:
  "(\<And>a b c. t = ExecDone a b c \<Longrightarrow> evolves R (j a b c)) \<Longrightarrow>
   (\<And>s. t = ExecFailed s \<Longrightarrow> evolves R (k s)) \<Longrightarrow>
   evolves R (case t of ExecDone a b c \<Rightarrow> j a b c | ExecFailed s \<Rightarrow> k s)"
  by (cases t) auto

lemma evolves_resolve_outcome [evolve_intros]:
  "(\<And>s. t = Resolved s \<Longrightarrow> evolves R (j s)) \<Longrightarrow> (t = NotResolved \<Longrightarrow> evolves R m) \<Longrightarrow>
   (\<And>s. t = ResolveOSError s \<Longrightarrow> evolves R (k s)) \<Longrightarrow> (\<And>s. t = ResolveValueError s \<Longrightarrow> evolves R (l s)) \<Longrightarrow>
   evolves R (case t of Resolved s \<Rightarrow> j s | NotResolved \<Rightarrow> m | ResolveOSError s \<Rightarrow> k s | ResolveValueError s \<Rightarrow> l s)"
  by (cases t) auto

lemma evolves_http_outcome [evolve_intros]:
  "(\<And>a c b. t = HttpDone a c b \<Longrightarrow> evolves R (j a c b)) \<Longrightarrow>
   (\<And>a c b s. t = HttpCut a c b s \<Longrightarrow> evolves R (i a c b s)) \<Longrightarrow>
   (\<And>s. t = HttpFailed s \<Longrightarrow> evolves R (k s)) \<Longrightarrow>
   evolves R (case t of HttpDone a c b \<Rightarrow> j a c b | HttpCut a c b s \<Rightarrow> i a c b s | HttpFailed s \<Rightarrow> k s)"
  by (cases t) auto

lemma evolves_let [evolve_intros]: "evolves R (k t) \<Longrightarrow> evolves R (let a = t in k a)"
  by simp

subsection \<open>The clock never runs backwards\<close>

definition clock_le :: "'e world \<Rightarrow> 'e world \<Rightarrow> bool" where
  "clock_le w w' \<longleftrightarrow> clock w \<le> clock w'"

interpretation clk: evolution clock_le
  by unfold_locales (auto simp: clock_le_def)

subsection \<open>Events emitted\<close>

text \<open>\<open>emits P\<close>: the trace grew, and only by events that satisfy \<open>P\<close>.\<close>

definition emits :: "(event \<Rightarrow> bool) \<Rightarrow> 'e world \<Rightarrow> 'e world \<Rightarrow> bool" where
  "emits P w w' \<longleftrightarrow> (\<exists>es. trace w' = trace w @ es \<and> list_all P es)"

interpretation emit: evolution "emits P" for P
proof unfold_locales
  fix w :: "'a world"
  show "emits P w w" unfolding emits_def by (rule exI[of _ "[]"]) simp
next
  fix u v w :: "'a world"
  assume "emits P u v" and "emits P v w"
  then obtain es fs where "trace v = trace u @ es" "list_all P es"
    "trace w = trace v @ fs" "list_all P fs" by (auto simp: emits_def)
  then show "emits P u w" unfolding emits_def by (intro exI[of _ "es @ fs"]) simp
qed

lemma emits_mono: "emits P w w' \<Longrightarrow> (\<And>e. P e \<Longrightarrow> Q e) \<Longrightarrow> emits Q w w'"
  unfolding emits_def by (auto simp: list_all_iff)

subsection \<open>Files left alone\<close>

definition keeps_files :: "(path \<Rightarrow> bool) \<Rightarrow> 'e world \<Rightarrow> 'e world \<Rightarrow> bool" where
  "keeps_files P w w' \<longleftrightarrow> (\<forall>p. P p \<longrightarrow> files w' p = files w p)
     \<and> denied w' = denied w \<and> room w' = room w \<and> environ w' = environ w"

interpretation keep: evolution "keeps_files P" for P
  by unfold_locales (auto simp: keeps_files_def)

subsection \<open>Sessions left open\<close>

text \<open>
  \<open>no_leak\<close>: every session opened during the run is closed at its end, and a session that was
  closed at the start is closed at the end.
\<close>

definition no_leak :: "'e world \<Rightarrow> 'e world \<Rightarrow> bool" where
  "no_leak w w' \<longleftrightarrow> next_host w \<le> next_host w'
     \<and> (\<forall>i. next_host w \<le> i \<longrightarrow> i < next_host w' \<longrightarrow> \<not> clients w' i \<and> \<not> sftps w' i)
     \<and> (\<forall>i < next_host w. \<not> clients w i \<longrightarrow> \<not> clients w' i \<and> (sftps w' i \<longrightarrow> sftps w i))"

lemma no_leak_trans: "no_leak u v \<Longrightarrow> no_leak v w \<Longrightarrow> no_leak u w"
  unfolding no_leak_def by (meson dual_order.trans leI less_le_trans)

interpretation leak: evolution no_leak
  by unfold_locales (simp add: no_leak_def, rule no_leak_trans)

subsection \<open>The primitive operations\<close>

lemma clk_ops [evolve_intros]:
  "evolves clock_le (ext_call ev op)" "evolves clock_le (print s)" "evolves clock_le (urandom n)"
  "evolves clock_le (write_bytes p b)" "evolves clock_le (unlink p)"
  "evolves clock_le (unlink_missing_ok p)" "evolves clock_le (mkdir p)" "evolves clock_le (chmod p m)"
  "evolves clock_le (collect_output x p)"
  by (auto simp: evolves_def clock_le_def run_simps file_op_defs collect_output_def
      split: prod.splits option.splits)

lemma emits_same: "trace w' = trace w \<Longrightarrow> emits P w w'"
  unfolding emits_def by (rule exI[of _ "[]"]) simp

lemma emit_ops [evolve_intros]:
  "evolves (emits P) (print s)" "evolves (emits P) (urandom n)" "evolves (emits P) (write_bytes p b)"
  "evolves (emits P) (unlink p)" "evolves (emits P) (unlink_missing_ok p)"
  "evolves (emits P) (mkdir p)" "evolves (emits P) (chmod p m)" "evolves (emits P) (collect_output x p)"
  by (auto simp: evolves_def run_simps file_op_defs collect_output_def intro!: emits_same
      split: option.splits)

lemma emit_ext_call: "(\<And>r. P (ev r)) \<Longrightarrow> evolves (emits P) (ext_call ev op)"
  by (auto simp: evolves_def emits_def run_simps split: prod.splits)

lemma keep_ops [evolve_intros]:
  "evolves (keeps_files P) (ext_call ev op)" "evolves (keeps_files P) (print s)"
  "evolves (keeps_files P) (urandom n)" "evolves (keeps_files P) (mkdir p)"
  "evolves (keeps_files P) (chmod p m)"
  by (auto simp: evolves_def keeps_files_def run_simps file_op_defs split: prod.splits)

lemma keep_write:
  "\<not> P p \<Longrightarrow> evolves (keeps_files P) (write_bytes p b)"
  "\<not> P p \<Longrightarrow> evolves (keeps_files P) (unlink p)"
  "\<not> P p \<Longrightarrow> evolves (keeps_files P) (unlink_missing_ok p)"
  "\<not> P p \<Longrightarrow> evolves (keeps_files P) (collect_output x p)"
  by (auto simp: evolves_def keeps_files_def run_simps file_op_defs collect_output_def
      split: option.splits)

lemma no_leak_same:
  "next_host w' = next_host w \<Longrightarrow> clients w' = clients w \<Longrightarrow> sftps w' = sftps w \<Longrightarrow> no_leak w w'"
  by (simp add: no_leak_def)

lemma leak_ops [evolve_intros]:
  "evolves no_leak (ext_call ev op)" "evolves no_leak (print s)" "evolves no_leak (urandom n)"
  "evolves no_leak (write_bytes p b)" "evolves no_leak (unlink p)"
  "evolves no_leak (unlink_missing_ok p)" "evolves no_leak (mkdir p)" "evolves no_leak (chmod p m)"
  "evolves no_leak (collect_output x p)"
  by (auto simp: evolves_def run_simps file_op_defs collect_output_def intro!: no_leak_same
      split: prod.splits option.splits)

lemma sleep_alt: "sleep x ms = bnd (ext_call (\<lambda>_. EvSleep ms) (x_sleep x ms))
    (\<lambda>_ w. (Inr (), w\<lparr>clock := clock w + ms\<rparr>))"
  by (simp add: sleep_def)

lemma sleep_ops [evolve_intros]:
  "0 \<le> ms \<Longrightarrow> evolves clock_le (sleep x ms)" "evolves (keeps_files Q) (sleep x ms)"
  "evolves no_leak (sleep x ms)"
  by (auto simp: evolves_def run_simps sleep_def clock_le_def keeps_files_def intro!: no_leak_same
      split: prod.splits option.splits)

lemma emit_sleep: "P (EvSleep ms) \<Longrightarrow> evolves (emits P) (sleep x ms)"
  by (auto simp: evolves_def run_simps sleep_def emits_def split: prod.splits option.splits)

lemma evolves_read_text [evolve_intros]:
  "evolution R \<Longrightarrow> evolves R (read_ascii p)" "evolution R \<Longrightarrow> evolves R (read_utf8 p)"
  "evolution R \<Longrightarrow> evolves R (read_text_ascii p)" "evolution R \<Longrightarrow> evolves R (read_text_utf8 p)"
  "evolution R \<Longrightarrow> evolves R (encode_ascii t)"
  unfolding read_text_ascii_def read_text_utf8_def read_ascii_def read_utf8_def encode_ascii_def
  by (auto intro!: evolution.ev_bnd evolution.ev_reader evolution.ev_raise evolution.ev_ret
      split: option.splits)

lemmas evolutions [evolve_intros] =
  clk.evolution_axioms emit.evolution_axioms keep.evolution_axioms leak.evolution_axioms

subsection \<open>Exceptions that escape\<close>

definition throws :: "(exn \<Rightarrow> bool) \<Rightarrow> ('e, 'a) prog \<Rightarrow> bool" where
  "throws P m \<longleftrightarrow> (\<forall>w. fails_as P (fst (m w)))"

lemma throwsD: "throws P m \<Longrightarrow> m w = (Inl e, w') \<Longrightarrow> P e"
  by (metis throws_def fails_as_def fst_conv)

lemma throwsI: "(\<And>w e w'. m w = (Inl e, w') \<Longrightarrow> P e) \<Longrightarrow> throws P m"
  by (metis throws_def fails_as_def prod.collapse)

lemma throws_mono: "throws P m \<Longrightarrow> (\<And>e. P e \<Longrightarrow> Q e) \<Longrightarrow> throws Q m"
  by (auto simp: throws_def fails_as_def)

lemma throws_ret [throws_intros]: "throws P (ret a)"
  by (simp add: throws_def run_simps)

lemma throws_raise [throws_intros]: "P e \<Longrightarrow> throws P (raise e)"
  by (simp add: throws_def run_simps)

lemma throws_of_sum [throws_intros]: "fails_as P r \<Longrightarrow> throws P (of_sum r)"
  by (simp add: throws_def run_simps)

lemma throws_bnd [throws_intros]:
  "throws P m \<Longrightarrow> (\<And>a. throws P (k a)) \<Longrightarrow> throws P (bnd m k)"
  by (rule throwsI) (auto simp: run_inv dest: throwsD)

lemma throws_andthen [throws_intros]: "throws P m \<Longrightarrow> throws P n \<Longrightarrow> throws P (andthen m n)"
  by (simp add: andthen_def throws_bnd)

lemma throws_only_if [throws_intros]: "throws P m \<Longrightarrow> throws P (only_if b m)"
  by (simp add: only_if_def throws_ret)

lemma throws_always [throws_intros]: "throws P m \<Longrightarrow> throws P f \<Longrightarrow> throws P (always m f)"
  by (rule throwsI) (auto simp: run_simps dest: throwsD split: prod.splits sum.splits)

lemma throws_for_each [throws_intros]:
  "(\<And>b. b \<in> set bs \<Longrightarrow> throws P (f b)) \<Longrightarrow> throws P (for_each bs f)"
  by (induction bs) (auto intro: throws_ret throws_andthen)

lemma throws_catch:
  "throws Q m \<Longrightarrow> (\<And>e. Q e \<Longrightarrow> h e = None \<Longrightarrow> P e) \<Longrightarrow> (\<And>e p. h e = Some p \<Longrightarrow> throws P p) \<Longrightarrow>
   throws P (catch m h)"
  by (rule throwsI) (auto simp: run_simps split: prod.splits sum.splits option.splits, (blast dest: throwsD)+)

lemma throws_if [throws_intros]:
  "(b \<Longrightarrow> throws P m) \<Longrightarrow> (\<not> b \<Longrightarrow> throws P n) \<Longrightarrow> throws P (if b then m else n)"
  by simp

lemma throws_cases [throws_intros]:
  "\<lbrakk>s = None \<Longrightarrow> throws P m; \<And>a. s = Some a \<Longrightarrow> throws P (k a)\<rbrakk> \<Longrightarrow>
     throws P (case s of None \<Rightarrow> m | Some a \<Rightarrow> k a)"
  "\<lbrakk>\<And>a. t = Inl a \<Longrightarrow> throws P (j a); \<And>b. t = Inr b \<Longrightarrow> throws P (l b)\<rbrakk> \<Longrightarrow>
     throws P (case t of Inl a \<Rightarrow> j a | Inr b \<Rightarrow> l b)"
  "\<lbrakk>\<And>a b. u = (a, b) \<Longrightarrow> throws P (q a b)\<rbrakk> \<Longrightarrow> throws P (case u of (a, b) \<Rightarrow> q a b)"
  by (cases s; cases t; cases u; simp)+

lemma throws_outcomes [throws_intros]:
  "\<lbrakk>\<And>a b c. s = ProcDone a b c \<Longrightarrow> throws P (j a b c); s = ProcTimeout \<Longrightarrow> throws P m;
     \<And>d. s = ProcOSError d \<Longrightarrow> throws P (k d)\<rbrakk> \<Longrightarrow>
     throws P (case s of ProcDone a b c \<Rightarrow> j a b c | ProcTimeout \<Rightarrow> m | ProcOSError d \<Rightarrow> k d)"
  "\<lbrakk>t = Connected \<Longrightarrow> throws P m; \<And>d. t = AuthFailed d \<Longrightarrow> throws P (k d);
     \<And>d. t = Unreachable d \<Longrightarrow> throws P (l d)\<rbrakk> \<Longrightarrow>
     throws P (case t of Connected \<Rightarrow> m | AuthFailed d \<Rightarrow> k d | Unreachable d \<Rightarrow> l d)"
  "\<lbrakk>\<And>a b c. u = ExecDone a b c \<Longrightarrow> throws P (j a b c); \<And>d. u = ExecFailed d \<Longrightarrow> throws P (k d)\<rbrakk> \<Longrightarrow>
     throws P (case u of ExecDone a b c \<Rightarrow> j a b c | ExecFailed d \<Rightarrow> k d)"
  "\<lbrakk>\<And>a e b. v = HttpDone a e b \<Longrightarrow> throws P (q a e b); \<And>a e b c. v = HttpCut a e b c \<Longrightarrow> throws P (r a e b c);
     \<And>d. v = HttpFailed d \<Longrightarrow> throws P (k d)\<rbrakk> \<Longrightarrow>
     throws P (case v of HttpDone a e b \<Rightarrow> q a e b | HttpCut a e b c \<Rightarrow> r a e b c | HttpFailed d \<Rightarrow> k d)"
  by (cases s; cases t; cases u; cases v; simp)+

lemma throws_resolve_outcome [throws_intros]:
  "(\<And>s. t = Resolved s \<Longrightarrow> throws P (j s)) \<Longrightarrow> (t = NotResolved \<Longrightarrow> throws P m) \<Longrightarrow>
   (\<And>s. t = ResolveOSError s \<Longrightarrow> throws P (k s)) \<Longrightarrow> (\<And>s. t = ResolveValueError s \<Longrightarrow> throws P (l s)) \<Longrightarrow>
   throws P (case t of Resolved s \<Rightarrow> j s | NotResolved \<Rightarrow> m | ResolveOSError s \<Rightarrow> k s | ResolveValueError s \<Rightarrow> l s)"
  by (cases t) auto

lemma throws_let [throws_intros]: "throws P (k t) \<Longrightarrow> throws P (let a = t in k a)"
  by simp

lemma throws_ops [throws_intros]:
  "throws P monotonic" "throws P (print s)" "throws P (getenv k d)" "throws P (urandom n)"
  "throws P (is_file p)" "throws P (asking f)" "throws P (path_exists x p)"
  by (simp_all add: throws_def run_simps)

lemma throws_ext_call [throws_intros]: "P KeyboardInterrupt \<Longrightarrow> throws P (ext_call ev op)"
  by (simp add: throws_def run_simps split: prod.splits option.splits)

lemma throws_sleep [throws_intros]: "P KeyboardInterrupt \<Longrightarrow> throws P (sleep x ms)"
  by (simp add: throws_def run_simps sleep_def split: prod.splits option.splits)

lemma throws_file_ops [throws_intros]:
  "(\<And>s. P (OSError s)) \<Longrightarrow> throws P (read_bytes p)"
  "(\<And>s. P (OSError s)) \<Longrightarrow> throws P (write_bytes p b)"
  "(\<And>s. P (OSError s)) \<Longrightarrow> throws P (unlink p)"
  "(\<And>s. P (OSError s)) \<Longrightarrow> throws P (unlink_missing_ok p)"
  "(\<And>s. P (OSError s)) \<Longrightarrow> throws P (mkdir p)"
  "(\<And>s. P (OSError s)) \<Longrightarrow> throws P (chmod p m)"
  "(\<And>s. P (OSError s)) \<Longrightarrow> throws P (collect_output x p)"
  by (simp_all add: throws_def file_op_defs collect_output_def no_such_file_def permission_denied_def
      disk_full_def split: option.splits)

end
