(* ===== verification/Config.thy ===== *)
theory Config
  imports Evolution
begin

text \<open>
  \<^verbatim>\<open>src/vmdeploy/config.py\<close>: the configuration records, the readers of single fields, the
  merge of the local overlay over the base document, and \<open>load_cluster_config\<close>. A parsed TOML
  document is a \<open>toml dict\<close>; parsing the text is \<open>x_toml\<close> of the environment (\<open>tomllib\<close>).

  \<open>valid_config\<close> is the specification of a configuration; the loader returns only valid ones,
  and every valid one is loaded back from its document.
\<close>

datatype host_role = JUMP | BACKEND

fun role_value :: "host_role \<Rightarrow> string" where
  "role_value JUMP = ''jump''"
| "role_value BACKEND = ''backend''"

record ssh_config =
  ssh_user :: string
  ssh_key_path :: path
  connect_timeout_seconds :: int
  command_timeout_seconds :: int

record virtualbox_config =
  vboxmanage :: path
  template_vm :: string
  template_ova :: path
  template_image_ref :: string
  memory_mb :: int
  cpus :: int
  boot_timeout_seconds :: int

record host_config =
  vm_name :: string
  hostname :: string
  role :: host_role
  http_port :: int

record inventory_config =
  service_port :: int
  remote_dir :: string
  key_file :: path
  datastore_name :: string
  manifest_file :: path

record website_config =
  source_url :: string
  archive_url :: string
  document_root :: string

record build_config =
  go_version :: string
  go_sha256 :: string

record cluster_config =
  cfg_ssh :: ssh_config
  cfg_virtualbox :: virtualbox_config
  cfg_jump :: host_config
  cfg_backends :: "host_config list"
  cfg_inventory :: inventory_config
  cfg_website :: website_config
  cfg_build :: build_config

definition all_hosts :: "cluster_config \<Rightarrow> host_config list" where
  "all_hosts config = cfg_jump config # cfg_backends config"

subsection \<open>Reading single fields\<close>

definition MIN_PORT :: int where "MIN_PORT = 1"
definition MAX_PORT :: int where "MAX_PORT = 65535"
definition MIN_MEMORY_MB :: int where "MIN_MEMORY_MB = 512"

definition table_section :: "toml dict \<Rightarrow> string \<Rightarrow> exn + toml dict" where
  "table_section data name = (case dget data name of
       Some (TTab t) \<Rightarrow> Inr t
     | _ \<Rightarrow> Inl (ConfigurationError
         (''Missing or malformed ['' @ name @ ''] table in cluster configuration'')))"

definition require_str :: "toml dict \<Rightarrow> string \<Rightarrow> string \<Rightarrow> exn + string" where
  "require_str section key context =
     (let err = Inl (ConfigurationError
        (''['' @ context @ ''] requires a non-empty string field '' @ quoted key))
      in case dget section key of
           Some (TStr value) \<Rightarrow> if strip value = [] then err else Inr (strip value)
         | _ \<Rightarrow> err)"

definition optional_str :: "toml dict \<Rightarrow> string \<Rightarrow> string \<Rightarrow> string" where
  "optional_str section key def = (case dget section key of
       Some (TStr value) \<Rightarrow> if strip value = [] then def else strip value
     | _ \<Rightarrow> def)"

definition require_int :: "toml dict \<Rightarrow> string \<Rightarrow> string \<Rightarrow> int \<Rightarrow> exn + int" where
  "require_int section key context minimum = (case dget section key of
       Some (TInt value) \<Rightarrow>
         if value < minimum
         then Inl (ConfigurationError (''['' @ context @ ''] field '' @ quoted key
                @ '' must be >= '' @ show_int minimum @ '', got '' @ show_int value))
         else Inr value
     | _ \<Rightarrow> Inl (ConfigurationError
         (''['' @ context @ ''] requires an integer field '' @ quoted key)))"

definition require_port :: "toml dict \<Rightarrow> string \<Rightarrow> string \<Rightarrow> exn + int" where
  "require_port section key context =
     sbind (require_int section key context MIN_PORT) (\<lambda>port.
       if MAX_PORT < port
       then Inl (ConfigurationError (''['' @ context @ ''] field '' @ quoted key
              @ '' must be <= '' @ show_int MAX_PORT @ '', got '' @ show_int port))
       else Inr port)"

text \<open>The host's variables and home directories, which \<open>os.path\<close> consults.\<close>

type_synonym host_env = "string dict \<times> (string option \<Rightarrow> string option)"

definition require_path :: "host_env \<Rightarrow> toml dict \<Rightarrow> string \<Rightarrow> string \<Rightarrow> exn + path" where
  "require_path he section key context =
     sbind (require_str section key context) (\<lambda>raw_value.
       let expanded = expanduser (fst he) (snd he) (expandvars (fst he) raw_value)
       in if CHR ''%'' \<in> set expanded \<or> CHR ''$'' \<in> set expanded
          then Inl (ConfigurationError (''['' @ context @ ''] field '' @ quoted key
                 @ '' still contains an unexpanded environment variable after expansion: ''
                 @ py_repr expanded @ ''. Check the variable is set.''))
          else Inr (path_of expanded))"

subsection \<open>Backends\<close>

definition parse_backend :: "nat \<Rightarrow> toml \<Rightarrow> exn + host_config" where
  "parse_backend index entry = (case entry of
       TTab t \<Rightarrow>
         (let context = ''backend['' @ show_nat index @ '']'' in
          sbind (require_str t ''vm_name'' context) (\<lambda>vm.
          sbind (require_str t ''hostname'' context) (\<lambda>host.
          sbind (require_port t ''http_port'' context) (\<lambda>port.
          Inr \<lparr>vm_name = vm, hostname = host, role = BACKEND, http_port = port\<rparr>))))
     | _ \<Rightarrow> Inl (ConfigurationError
         (''[[backend]] entry '' @ show_nat index @ '' is not a table'')))"

definition parse_backends :: "toml option \<Rightarrow> exn + host_config list" where
  "parse_backends raw = (case raw of
       Some (TArr entries) \<Rightarrow>
         if length entries < 2
         then Inl (ConfigurationError
           (''At least two [[backend]] tables are required to validate load ''
            @ ''balancing distribution, found '' @ show_nat (length entries)))
         else sbind (map_err parse_backend 0 entries) (\<lambda>backends.
           let names = map vm_name backends
           in if length (remdups names) \<noteq> length names
              then Inl (ConfigurationError
                (''Duplicate backend vm_name values: '' @ py_repr_list names))
              else Inr backends)
     | _ \<Rightarrow> Inl (ConfigurationError
         ''Cluster configuration requires an array of [[backend]] tables''))"

subsection \<open>The overlay\<close>

fun deep_merge :: "toml dict \<Rightarrow> toml dict \<Rightarrow> toml dict" where
  "deep_merge base [] = base"
| "deep_merge base ((key, value) # overlay) =
     deep_merge
       (dset base key (case value of
            TTab v \<Rightarrow> (case dget base key of
                Some (TTab existing) \<Rightarrow> TTab (deep_merge existing v)
              | _ \<Rightarrow> value)
          | _ \<Rightarrow> value))
       overlay"

definition load_toml :: "'e env \<Rightarrow> path \<Rightarrow> ('e, toml dict) prog" where
  "load_toml x p =
     bnd (catch (read_bytes p) (\<lambda>e. if is_OSError e
            then Some (raise (ConfigurationError
              (''Cannot read cluster configuration at '' @ path_str p @ '': '' @ exn_str e)))
            else None)) (\<lambda>raw_bytes.
     case utf8_decode raw_bytes of
       None \<Rightarrow> raise (ConfigurationError (''Invalid TOML in '' @ path_str p @ '': '' @ ''invalid utf-8''))
     | Some t \<Rightarrow> (case x_toml x t of
           Inl msg \<Rightarrow> raise (ConfigurationError (''Invalid TOML in '' @ path_str p @ '': '' @ msg))
         | Inr doc \<Rightarrow> ret doc))"

definition local_overlay_path :: "path \<Rightarrow> path" where
  "local_overlay_path p = with_name p (path_stem p @ ''.local'' @ path_suffix p)"

subsection \<open>Loading\<close>

definition validate_cross_references :: "cluster_config \<Rightarrow> exn + unit" where
  "validate_cross_references config =
     (let vm_names = map vm_name (all_hosts config);
          template = template_vm (cfg_virtualbox config);
          sport = service_port (cfg_inventory config);
          jport = http_port (cfg_jump config)
      in if length (remdups vm_names) \<noteq> length vm_names
         then Inl (ConfigurationError
           (''Cluster vm_name values must be unique, got '' @ py_repr_list vm_names))
         else if template \<in> set vm_names
         then Inl (ConfigurationError
           (''template_vm '' @ quoted template @ '' collides with a cluster VM name; ''
            @ ''the golden template must remain a separate machine''))
         else if sport = jport
         then Inl (ConfigurationError
           (''inventory.service_port ('' @ show_int sport @ '') collides with ''
            @ ''jump.http_port ('' @ show_int jport @ '')''))
         else Inr ())"

text \<open>The part of \<open>load_cluster_config\<close> that follows the assembly of the document.\<close>

definition config_of_document :: "host_env \<Rightarrow> toml dict \<Rightarrow> exn + cluster_config" where
  "config_of_document he document =
     sbind (table_section document ''ssh'') (\<lambda>ssh_table.
     sbind (table_section document ''virtualbox'') (\<lambda>vbox_table.
     sbind (table_section document ''jump'') (\<lambda>jump_table.
     sbind (table_section document ''inventory'') (\<lambda>inventory_table.
     sbind (table_section document ''website'') (\<lambda>website_table.
     sbind (table_section document ''build'') (\<lambda>build_table.
     sbind (require_str ssh_table ''user'' ''ssh'') (\<lambda>user.
     sbind (require_path he ssh_table ''key_path'' ''ssh'') (\<lambda>key_path.
     sbind (require_int ssh_table ''connect_timeout_seconds'' ''ssh'' 1) (\<lambda>connect.
     sbind (require_int ssh_table ''command_timeout_seconds'' ''ssh'' 1) (\<lambda>command.
     sbind (require_path he vbox_table ''vboxmanage'' ''virtualbox'') (\<lambda>exe.
     sbind (require_str vbox_table ''template_vm'' ''virtualbox'') (\<lambda>template.
     sbind (require_path he vbox_table ''template_ova'' ''virtualbox'') (\<lambda>ova.
     sbind (require_int vbox_table ''memory_mb'' ''virtualbox'' MIN_MEMORY_MB) (\<lambda>memory.
     sbind (require_int vbox_table ''cpus'' ''virtualbox'' 1) (\<lambda>ncpus.
     sbind (require_int vbox_table ''boot_timeout_seconds'' ''virtualbox'' 30) (\<lambda>boot.
     sbind (require_str jump_table ''vm_name'' ''jump'') (\<lambda>jvm.
     sbind (require_str jump_table ''hostname'' ''jump'') (\<lambda>jhost.
     sbind (require_port jump_table ''http_port'' ''jump'') (\<lambda>jport.
     sbind (parse_backends (dget document ''backend'')) (\<lambda>backends.
     sbind (require_port inventory_table ''service_port'' ''inventory'') (\<lambda>sport.
     sbind (require_str inventory_table ''remote_dir'' ''inventory'') (\<lambda>rdir.
     sbind (require_path he inventory_table ''key_file'' ''inventory'') (\<lambda>kfile.
     sbind (require_str inventory_table ''datastore_name'' ''inventory'') (\<lambda>store.
     sbind (require_path he inventory_table ''manifest_file'' ''inventory'') (\<lambda>manifest.
     sbind (require_str website_table ''source_url'' ''website'') (\<lambda>source.
     sbind (require_str website_table ''archive_url'' ''website'') (\<lambda>archive.
     sbind (require_str website_table ''document_root'' ''website'') (\<lambda>docroot.
     sbind (require_str build_table ''go_version'' ''build'') (\<lambda>gover.
     sbind (require_str build_table ''go_sha256'' ''build'') (\<lambda>gosha.
     let config = \<lparr>
        cfg_ssh = \<lparr>ssh_user = user, ssh_key_path = key_path,
          connect_timeout_seconds = connect, command_timeout_seconds = command\<rparr>,
        cfg_virtualbox = \<lparr>vboxmanage = exe, template_vm = template, template_ova = ova,
          template_image_ref = optional_str vbox_table ''template_image_ref'' [],
          memory_mb = memory, cpus = ncpus, boot_timeout_seconds = boot\<rparr>,
        cfg_jump = \<lparr>vm_name = jvm, hostname = jhost, role = JUMP, http_port = jport\<rparr>,
        cfg_backends = backends,
        cfg_inventory = \<lparr>service_port = sport, remote_dir = rdir, key_file = kfile,
          datastore_name = store, manifest_file = manifest\<rparr>,
        cfg_website = \<lparr>source_url = source, archive_url = archive, document_root = docroot\<rparr>,
        cfg_build = \<lparr>go_version = gover, go_sha256 = gosha\<rparr>\<rparr>
     in sbind (validate_cross_references config) (\<lambda>_. Inr config)))))))))))))))))))))))))))))))"

definition apply_env_user :: "string \<Rightarrow> toml dict \<Rightarrow> toml dict" where
  "apply_env_user env_user document =
     (if env_user = [] then document
      else case dget document ''ssh'' of
          Some (TTab ssh_section) \<Rightarrow>
            dset document ''ssh'' (TTab (dset ssh_section ''user'' (TStr env_user)))
        | _ \<Rightarrow> document)"

definition load_cluster_config :: "'e env \<Rightarrow> path \<Rightarrow> ('e, cluster_config) prog" where
  "load_cluster_config x p =
     bnd (load_toml x p) (\<lambda>base.
     bnd (is_file (local_overlay_path p)) (\<lambda>has_overlay.
     bnd (if has_overlay
          then bnd (load_toml x (local_overlay_path p)) (\<lambda>overlay. ret (deep_merge base overlay))
          else ret base) (\<lambda>document.
     bnd (getenv ''VMDEPLOY_SSH_USER'' []) (\<lambda>raw_user.
     (\<lambda>w. of_sum (config_of_document (environ w, x_home x)
                    (apply_env_user (strip raw_user) document)) w)))))"

section \<open>What a loaded configuration satisfies\<close>

definition valid_text :: "string \<Rightarrow> bool" where
  "valid_text s \<longleftrightarrow> s \<noteq> [] \<and> stripped s"

definition valid_port :: "int \<Rightarrow> bool" where
  "valid_port p \<longleftrightarrow> 1 \<le> p \<and> p \<le> 65535"

text \<open>\<open>p\<close> comes from an expansion that left no variable behind.\<close>

definition expanded_path :: "path \<Rightarrow> bool" where
  "expanded_path p \<longleftrightarrow> (\<exists>s. p = path_of s \<and> CHR ''%'' \<notin> set s \<and> CHR ''$'' \<notin> set s)"

definition valid_host :: "host_config \<Rightarrow> bool" where
  "valid_host h \<longleftrightarrow> valid_text (vm_name h) \<and> valid_text (hostname h) \<and> valid_port (http_port h)"

definition valid_ssh :: "ssh_config \<Rightarrow> bool" where
  "valid_ssh s \<longleftrightarrow> valid_text (ssh_user s) \<and> expanded_path (ssh_key_path s)
     \<and> 1 \<le> connect_timeout_seconds s \<and> 1 \<le> command_timeout_seconds s"

definition valid_virtualbox :: "virtualbox_config \<Rightarrow> bool" where
  "valid_virtualbox v \<longleftrightarrow> expanded_path (vboxmanage v) \<and> valid_text (template_vm v)
     \<and> expanded_path (template_ova v) \<and> stripped (template_image_ref v)
     \<and> 512 \<le> memory_mb v \<and> 1 \<le> cpus v \<and> 30 \<le> boot_timeout_seconds v"

definition valid_inventory :: "inventory_config \<Rightarrow> bool" where
  "valid_inventory i \<longleftrightarrow> valid_port (service_port i) \<and> valid_text (remote_dir i)
     \<and> expanded_path (key_file i) \<and> valid_text (datastore_name i) \<and> expanded_path (manifest_file i)"

definition valid_website :: "website_config \<Rightarrow> bool" where
  "valid_website s \<longleftrightarrow> valid_text (source_url s) \<and> valid_text (archive_url s)
     \<and> valid_text (document_root s)"

definition valid_build :: "build_config \<Rightarrow> bool" where
  "valid_build b \<longleftrightarrow> valid_text (go_version b) \<and> valid_text (go_sha256 b)"

definition distinct_machines :: "cluster_config \<Rightarrow> bool" where
  "distinct_machines c \<longleftrightarrow> distinct (map vm_name (all_hosts c))
     \<and> template_vm (cfg_virtualbox c) \<notin> set (map vm_name (all_hosts c))
     \<and> service_port (cfg_inventory c) \<noteq> http_port (cfg_jump c)"

definition valid_config :: "cluster_config \<Rightarrow> bool" where
  "valid_config c \<longleftrightarrow> valid_ssh (cfg_ssh c) \<and> valid_virtualbox (cfg_virtualbox c)
     \<and> valid_host (cfg_jump c) \<and> role (cfg_jump c) = JUMP
     \<and> 2 \<le> length (cfg_backends c)
     \<and> (\<forall>b \<in> set (cfg_backends c). valid_host b \<and> role b = BACKEND)
     \<and> valid_inventory (cfg_inventory c) \<and> valid_website (cfg_website c)
     \<and> valid_build (cfg_build c) \<and> distinct_machines c"

fun is_ConfigurationError :: "exn \<Rightarrow> bool" where
  "is_ConfigurationError (ConfigurationError _) = True"
| "is_ConfigurationError _ = False"

lemmas valid_defs = valid_text_def valid_port_def valid_host_def valid_ssh_def valid_virtualbox_def
  valid_inventory_def valid_website_def valid_build_def

subsection \<open>The readers\<close>

lemma gives_require_str: "gives valid_text (require_str s k c)"
  by (auto simp: require_str_def valid_text_def Let_def split: option.splits toml.splits)

lemma gives_require_int: "gives (\<lambda>v. m \<le> v) (require_int s k c m)"
  by (auto simp: require_int_def split: option.splits toml.splits)

lemma gives_require_port: "gives valid_port (require_port s k c)"
  unfolding require_port_def
  by (rule gives_sbind, rule gives_require_int)
    (auto simp: valid_port_def MIN_PORT_def MAX_PORT_def)

lemma gives_require_path: "gives expanded_path (require_path he s k c)"
  unfolding require_path_def
  by (rule gives_sbind, rule gives_require_str) (auto simp: expanded_path_def Let_def)

lemma stripped_Nil [simp]: "stripped []"
  by (simp add: stripped_by_def)

lemma optional_str_stripped: "stripped d \<Longrightarrow> stripped (optional_str s k d)"
  by (auto simp: optional_str_def split: option.splits toml.splits)

lemma gives_table_section: "gives (\<lambda>_. True) (table_section d n)"
  by (simp add: gives_def)

lemmas gives_reader = gives_table_section gives_require_str gives_require_int gives_require_port
  gives_require_path

lemma parse_backend_gives: "gives (\<lambda>h. valid_host h \<and> role h = BACKEND) (parse_backend i t)"
  unfolding parse_backend_def Let_def
  by (cases t) (auto simp: valid_host_def intro!: gives_sbind gives_reader)

lemma parse_backends_gives:
  "gives (\<lambda>bs. 2 \<le> length bs \<and> (\<forall>b \<in> set bs. valid_host b \<and> role b = BACKEND)) (parse_backends t)"
  using parse_backend_gives
  by (auto simp: parse_backends_def gives_def run_inv Let_def dest: map_err_length map_err_set
      split: option.splits toml.splits if_splits)

lemma fails_table_section: "fails_as is_ConfigurationError (table_section d n)"
  by (auto simp: table_section_def split: option.splits toml.splits)

lemma fails_require_str: "fails_as is_ConfigurationError (require_str s k c)"
  by (auto simp: require_str_def Let_def split: option.splits toml.splits)

lemma fails_require_int: "fails_as is_ConfigurationError (require_int s k c m)"
  by (auto simp: require_int_def split: option.splits toml.splits)

lemma fails_require_port: "fails_as is_ConfigurationError (require_port s k c)"
  by (auto simp: require_port_def intro!: fails_as_sbind fails_require_int)

lemma fails_require_path: "fails_as is_ConfigurationError (require_path he s k c)"
  by (auto simp: require_path_def Let_def intro!: fails_as_sbind fails_require_str)

lemma fails_parse_backend: "fails_as is_ConfigurationError (parse_backend i t)"
  unfolding parse_backend_def Let_def
  by (cases t) (auto intro!: fails_as_sbind fails_require_str fails_require_port)

lemma fails_map_err: "(\<And>j x. fails_as P (f j x)) \<Longrightarrow> fails_as P (map_err f i xs)"
  by (induction xs arbitrary: i) (auto intro!: fails_as_sbind)

lemma fails_parse_backends: "fails_as is_ConfigurationError (parse_backends t)"
  by (auto simp: parse_backends_def Let_def intro!: fails_as_sbind fails_map_err fails_parse_backend
      split: option.splits toml.splits)

lemma fails_validate: "fails_as is_ConfigurationError (validate_cross_references c)"
  by (auto simp: validate_cross_references_def Let_def)

lemmas fails_reader = fails_table_section fails_require_str fails_require_int fails_require_port
  fails_require_path fails_parse_backends fails_validate

lemma distinct_remdups_length: "length (remdups xs) = length xs \<longleftrightarrow> distinct xs"
  by (metis distinct_remdups length_remdups_eq remdups_id_iff_distinct)

lemma validate_gives: "gives (\<lambda>_. distinct_machines c) (validate_cross_references c)"
  unfolding validate_cross_references_def Let_def distinct_remdups_length distinct_machines_def
  by auto

lemma validate_complete: "distinct_machines c \<Longrightarrow> validate_cross_references c = Inr ()"
  unfolding validate_cross_references_def Let_def distinct_remdups_length distinct_machines_def
  by auto

lemma fails_config_of_document: "fails_as is_ConfigurationError (config_of_document he d)"
  unfolding config_of_document_def Let_def
  by (intro fails_as_sbind fails_reader fails_as_Inr)

lemma config_of_document_gives: "gives valid_config (config_of_document he d)"
  unfolding config_of_document_def Let_def
  apply (rule gives_sbind[OF gives_table_section])+
  apply (rule gives_sbind, rule gives_reader parse_backends_gives)+
  apply (rule gives_sbind, rule validate_gives)
  apply (simp add: valid_config_def valid_ssh_def valid_virtualbox_def valid_inventory_def
      valid_website_def valid_build_def valid_host_def MIN_MEMORY_MB_def optional_str_stripped)
  done

section \<open>The loader\<close>

definition user_override :: "'e world \<Rightarrow> string" where
  "user_override w = strip (case dget (environ w) ''VMDEPLOY_SSH_USER'' of Some u \<Rightarrow> u | None \<Rightarrow> [])"

lemma table_section_Inr: "table_section d n = Inr t \<longleftrightarrow> dget d n = Some (TTab t)"
  by (auto simp: table_section_def split: option.splits toml.splits)

lemma require_str_stripped:
  "u \<noteq> [] \<Longrightarrow> stripped u \<Longrightarrow> dget t k = Some (TStr u) \<Longrightarrow> require_str t k c = Inr u"
  by (simp add: require_str_def strip_def strip_by_id)

lemma config_of_document_user:
  assumes "config_of_document he (apply_env_user u d) = Inr c" and "u \<noteq> []" and "stripped u"
  shows "ssh_user (cfg_ssh c) = u"
proof -
  from assms(1) obtain t where t: "dget (apply_env_user u d) ''ssh'' = Some (TTab t)"
    unfolding config_of_document_def by (auto simp: sbind_InrD table_section_Inr)
  have "dget t ''user'' = Some (TStr u)"
    using t assms(2)
    by (auto simp: apply_env_user_def dget_dset split: option.splits toml.splits if_splits)
  then have "require_str t ''user'' ''ssh'' = Inr u" using assms by (simp add: require_str_stripped)
  moreover from assms(1) t obtain t' where
    "require_str t' ''user'' ''ssh'' = Inr (ssh_user (cfg_ssh c))" and "t' = t"
    unfolding config_of_document_def Let_def by (auto simp: sbind_InrD table_section_Inr)
  ultimately show ?thesis by simp
qed

lemma run_load_toml:
  "load_toml x p w = (r, w') \<Longrightarrow> w' = w \<and> fails_as is_ConfigurationError r"
  by (auto simp: load_toml_def run_simps read_bytes_def no_such_file_def permission_denied_def
      split: option.splits sum.splits if_splits)

lemma load_config_result:
  "case load_cluster_config x p w of (r, w') \<Rightarrow>
     w' = w
     \<and> fails_as is_ConfigurationError r
     \<and> gives (\<lambda>c. valid_config c
          \<and> (user_override w = [] \<or> ssh_user (cfg_ssh c) = user_override w)) r"
proof -
  obtain r w' where run: "load_cluster_config x p w = (r, w')" by (cases "load_cluster_config x p w")
  show ?thesis
  proof (cases "\<exists>d. r = config_of_document (environ w, x_home x) (apply_env_user (user_override w) d)")
    case True
    then obtain d where r:
      "r = config_of_document (environ w, x_home x) (apply_env_user (user_override w) d)" ..
    have "w' = w" using run
      by (auto simp: load_cluster_config_def run_simps split: sum.splits prod.splits if_splits
          dest!: run_load_toml)
    moreover have "stripped (user_override w)" by (simp add: user_override_def)
    then have "user_override w = [] \<or> ssh_user (cfg_ssh c) = user_override w" if "r = Inr c" for c
      using config_of_document_user r that by metis
    ultimately show ?thesis
      using fails_config_of_document config_of_document_gives[unfolded gives_def]
      unfolding run gives_def r by auto
  next
    case False
    then have "w' = w \<and> (\<exists>e. r = Inl e \<and> is_ConfigurationError e)" using run
      by (auto simp: load_cluster_config_def run_simps user_override_def
          split: sum.splits prod.splits if_splits dest!: run_load_toml)
    then show ?thesis unfolding run by auto
  qed
qed

text \<open>
  C12: loading a configuration changes nothing on the host and nothing outside it. When it
  returns, the configuration is valid (texts non-blank and stripped, ports in range, timeouts
  and sizes at their minimum, at least two backends, machine names pairwise distinct and distinct
  from the template, service port apart from the proxy's) and the login is the
  \<open>VMDEPLOY_SSH_USER\<close> override when that is set; when it fails, it fails with
  \<open>ConfigurationError\<close> and no other exception.
\<close>

theorem load_cluster_config_sound:
  "case load_cluster_config x p w of (r, w') \<Rightarrow>
     w' = w
     \<and> fails_as is_ConfigurationError r
     \<and> gives (\<lambda>c. valid_config c
          \<and> (user_override w = [] \<or> ssh_user (cfg_ssh c) = user_override w)) r"
  by (rule load_config_result)

subsection \<open>Every valid configuration can be written\<close>

definition path_text :: "path \<Rightarrow> bool" where
  "path_text p \<longleftrightarrow> path_of (path_str p) = p \<and> valid_text (path_str p) \<and> CHR ''%'' \<notin> set (path_str p)
     \<and> CHR ''$'' \<notin> set (path_str p) \<and> hd (path_str p) \<noteq> CHR ''~''"

definition config_paths :: "cluster_config \<Rightarrow> path list" where
  "config_paths c = [ssh_key_path (cfg_ssh c), vboxmanage (cfg_virtualbox c),
     template_ova (cfg_virtualbox c), key_file (cfg_inventory c), manifest_file (cfg_inventory c)]"

definition host_table :: "host_config \<Rightarrow> toml" where
  "host_table h = TTab [(''vm_name'', TStr (vm_name h)), (''hostname'', TStr (hostname h)),
     (''http_port'', TInt (http_port h))]"

definition document_of_config :: "cluster_config \<Rightarrow> toml dict" where
  "document_of_config c =
    [(''ssh'', TTab [(''user'', TStr (ssh_user (cfg_ssh c))),
        (''key_path'', TStr (path_str (ssh_key_path (cfg_ssh c)))),
        (''connect_timeout_seconds'', TInt (connect_timeout_seconds (cfg_ssh c))),
        (''command_timeout_seconds'', TInt (command_timeout_seconds (cfg_ssh c)))]),
     (''virtualbox'', TTab [(''vboxmanage'', TStr (path_str (vboxmanage (cfg_virtualbox c)))),
        (''template_vm'', TStr (template_vm (cfg_virtualbox c))),
        (''template_ova'', TStr (path_str (template_ova (cfg_virtualbox c)))),
        (''template_image_ref'', TStr (template_image_ref (cfg_virtualbox c))),
        (''memory_mb'', TInt (memory_mb (cfg_virtualbox c))),
        (''cpus'', TInt (cpus (cfg_virtualbox c))),
        (''boot_timeout_seconds'', TInt (boot_timeout_seconds (cfg_virtualbox c)))]),
     (''jump'', host_table (cfg_jump c)),
     (''backend'', TArr (map host_table (cfg_backends c))),
     (''inventory'', TTab [(''service_port'', TInt (service_port (cfg_inventory c))),
        (''remote_dir'', TStr (remote_dir (cfg_inventory c))),
        (''key_file'', TStr (path_str (key_file (cfg_inventory c)))),
        (''datastore_name'', TStr (datastore_name (cfg_inventory c))),
        (''manifest_file'', TStr (path_str (manifest_file (cfg_inventory c))))]),
     (''website'', TTab [(''source_url'', TStr (source_url (cfg_website c))),
        (''archive_url'', TStr (archive_url (cfg_website c))),
        (''document_root'', TStr (document_root (cfg_website c)))]),
     (''build'', TTab [(''go_version'', TStr (go_version (cfg_build c))),
        (''go_sha256'', TStr (go_sha256 (cfg_build c)))])]"

lemma read_str:
  "dget t k = Some (TStr u) \<Longrightarrow> valid_text u \<Longrightarrow> require_str t k c = Inr u"
  by (simp add: valid_text_def require_str_stripped)

lemma read_int: "dget t k = Some (TInt v) \<Longrightarrow> m \<le> v \<Longrightarrow> require_int t k c m = Inr v"
  by (simp add: require_int_def)

lemma read_port: "dget t k = Some (TInt v) \<Longrightarrow> valid_port v \<Longrightarrow> require_port t k c = Inr v"
  by (simp add: require_port_def valid_port_def read_int MIN_PORT_def MAX_PORT_def)

lemma expandvars_plain: "CHR ''$'' \<notin> set s \<Longrightarrow> expandvars env s = s"
  by (induction s) auto

lemma read_path:
  assumes "dget t k = Some (TStr (path_str p))" and "path_text p"
  shows "require_path he t k c = Inr p"
proof -
  have "require_str t k c = Inr (path_str p)" using assms by (simp add: read_str path_text_def)
  moreover have "\<not> startswith (path_str p) ''~''"
    using assms(2) by (cases "path_str p") (auto simp: path_text_def valid_text_def startswith_def)
  ultimately show ?thesis
    using assms(2) by (simp add: require_path_def path_text_def expandvars_plain expanduser_def)
qed

lemma read_optional: "dget t k = Some (TStr u) \<Longrightarrow> stripped u \<Longrightarrow> optional_str t k [] = u"
  by (simp add: optional_str_def strip_def strip_by_id)

lemma read_backend:
  assumes "valid_host h" and "role h = BACKEND"
  shows "parse_backend i (host_table h) = Inr h"
  using assms
  by (simp add: parse_backend_def host_table_def valid_host_def Let_def read_str read_port)

lemma read_backends:
  assumes "2 \<le> length bs" and "\<forall>b \<in> set bs. valid_host b \<and> role b = BACKEND"
    and "distinct (map vm_name bs)"
  shows "parse_backends (Some (TArr (map host_table bs))) = Inr bs"
proof -
  have "map_err parse_backend 0 (map host_table bs) = Inr bs"
    by (rule map_err_map) (use assms(2) in \<open>simp add: read_backend\<close>)
  then show ?thesis
    using assms by (simp add: parse_backends_def Let_def distinct_remdups_length)
qed

lemma config_rebuild:
  assumes "role (cfg_jump c) = JUMP"
  shows "\<lparr>cfg_ssh = \<lparr>ssh_user = ssh_user (cfg_ssh c), ssh_key_path = ssh_key_path (cfg_ssh c),
        connect_timeout_seconds = connect_timeout_seconds (cfg_ssh c),
        command_timeout_seconds = command_timeout_seconds (cfg_ssh c)\<rparr>,
      cfg_virtualbox = \<lparr>vboxmanage = vboxmanage (cfg_virtualbox c),
        template_vm = template_vm (cfg_virtualbox c), template_ova = template_ova (cfg_virtualbox c),
        template_image_ref = template_image_ref (cfg_virtualbox c),
        memory_mb = memory_mb (cfg_virtualbox c), cpus = cpus (cfg_virtualbox c),
        boot_timeout_seconds = boot_timeout_seconds (cfg_virtualbox c)\<rparr>,
      cfg_jump = \<lparr>vm_name = vm_name (cfg_jump c), hostname = hostname (cfg_jump c), role = JUMP,
        http_port = http_port (cfg_jump c)\<rparr>,
      cfg_backends = cfg_backends c,
      cfg_inventory = \<lparr>service_port = service_port (cfg_inventory c),
        remote_dir = remote_dir (cfg_inventory c), key_file = key_file (cfg_inventory c),
        datastore_name = datastore_name (cfg_inventory c),
        manifest_file = manifest_file (cfg_inventory c)\<rparr>,
      cfg_website = \<lparr>source_url = source_url (cfg_website c),
        archive_url = archive_url (cfg_website c), document_root = document_root (cfg_website c)\<rparr>,
      cfg_build = \<lparr>go_version = go_version (cfg_build c), go_sha256 = go_sha256 (cfg_build c)\<rparr>\<rparr> = c"
  unfolding assms[symmetric] by simp

text \<open>
  C32: every valid configuration whose paths are plain text (no variable, no leading \<open>~\<close>) is
  accepted: its document is read back to exactly that configuration, whatever the host's
  variables and home directories. So the loader's checks reject nothing valid and no field is
  read from the wrong key.
\<close>

theorem config_roundtrip:
  assumes "valid_config c" and "\<forall>p \<in> set (config_paths c). path_text p"
  shows "config_of_document he (document_of_config c) = Inr c"
proof -
  have paths: "path_text (ssh_key_path (cfg_ssh c))" "path_text (vboxmanage (cfg_virtualbox c))"
    "path_text (template_ova (cfg_virtualbox c))" "path_text (key_file (cfg_inventory c))"
    "path_text (manifest_file (cfg_inventory c))"
    using assms(2) by (simp_all add: config_paths_def)
  have dm: "distinct_machines c" and bs: "parse_backends (Some (TArr (map host_table (cfg_backends c))))
      = Inr (cfg_backends c)"
    using assms(1) by (auto simp: valid_config_def distinct_machines_def all_hosts_def intro: read_backends)
  have role: "role (cfg_jump c) = JUMP" using assms(1) by (simp add: valid_config_def)
  have v: "valid_ssh (cfg_ssh c)" "valid_virtualbox (cfg_virtualbox c)" "valid_host (cfg_jump c)"
    "valid_inventory (cfg_inventory c)" "valid_website (cfg_website c)" "valid_build (cfg_build c)"
    using assms(1) by (simp_all add: valid_config_def)
  show ?thesis
    using v paths role
    unfolding config_of_document_def Let_def document_of_config_def table_section_def host_table_def
      valid_defs(3-)
    by (simp add: read_str read_int read_port read_path read_optional MIN_MEMORY_MB_def
        bs[unfolded host_table_def] validate_complete dm config_rebuild)
qed

subsection \<open>The overlay wins, and only where it says something\<close>

text \<open>A document read along a path of keys.\<close>

fun toml_at :: "toml dict \<Rightarrow> string list \<Rightarrow> toml option" where
  "toml_at d [] = Some (TTab d)"
| "toml_at d (k # ks) = (case dget d k of
       None \<Rightarrow> None
     | Some (TTab t) \<Rightarrow> toml_at t ks
     | Some v \<Rightarrow> (if ks = [] then Some v else None))"

text \<open>\<open>silent d ks\<close>: along \<open>ks\<close> the document meets a missing key before any value.\<close>

fun silent :: "toml dict \<Rightarrow> string list \<Rightarrow> bool" where
  "silent d [] = False"
| "silent d (k # ks) = (case dget d k of
       None \<Rightarrow> True
     | Some (TTab t) \<Rightarrow> silent t ks
     | Some v \<Rightarrow> False)"

text \<open>No table of the document holds a key twice, as in every parsed document.\<close>

inductive keyed :: "toml \<Rightarrow> bool" where
  "distinct (dkeys d) \<Longrightarrow> (\<And>k v. (k, v) \<in> set d \<Longrightarrow> keyed v) \<Longrightarrow> keyed (TTab d)"
| "\<nexists>d. v = TTab d \<Longrightarrow> keyed v"

inductive_simps keyed_TTab: "keyed (TTab d)"

definition merge_value :: "toml option \<Rightarrow> toml \<Rightarrow> toml" where
  "merge_value old v = (case v of
       TTab t \<Rightarrow> (case old of Some (TTab e) \<Rightarrow> TTab (deep_merge e t) | _ \<Rightarrow> v)
     | _ \<Rightarrow> v)"

lemma deep_merge_Cons:
  "deep_merge b ((k, v) # d) = deep_merge (dset b k (merge_value (dget b k) v)) d"
  by (simp add: merge_value_def)

lemma dget_deep_merge:
  "distinct (dkeys d) \<Longrightarrow> dget (deep_merge b d) k =
     (case dget d k of None \<Rightarrow> dget b k | Some v \<Rightarrow> Some (merge_value (dget b k) v))"
proof (induction d arbitrary: b)
  case Nil
  then show ?case by simp
next
  case (Cons kv d)
  obtain k' v where kv: "kv = (k', v)" by (cases kv)
  have "dget d k' = None" using Cons.prems kv by (simp add: map_of_eq_None_iff)
  then show ?case
    using Cons kv by (auto simp: deep_merge_Cons dget_dset split: option.splits simp del: deep_merge.simps)
qed

lemma merge_value_simps:
  "merge_value (Some (TTab e)) (TTab t) = TTab (deep_merge e t)"
  "\<nexists>e. old = Some (TTab e) \<Longrightarrow> merge_value old v = v"
  "\<nexists>t. v = TTab t \<Longrightarrow> merge_value old v = v"
  by (auto simp: merge_value_def split: option.splits toml.splits)

lemma deep_merge_leaf:
  "keyed (TTab o') \<Longrightarrow> toml_at o' ks = Some v \<Longrightarrow> \<nexists>t. v = TTab t \<Longrightarrow> toml_at (deep_merge b o') ks = Some v"
proof (induction ks arbitrary: b o')
  case Nil
  then show ?case by auto
next
  case (Cons k ks)
  have dist: "distinct (dkeys o')" using Cons.prems(1) by (simp add: keyed_TTab)
  from Cons.prems(2) obtain u where u: "dget o' k = Some u" by (auto split: option.splits)
  show ?case
  proof (cases "\<exists>t e. u = TTab t \<and> dget b k = Some (TTab e)")
    case True
    then obtain t e where t: "u = TTab t" and e: "dget b k = Some (TTab e)" by auto
    have "keyed (TTab t)" using Cons.prems(1) u t by (metis keyed_TTab map_of_SomeD)
    then have "toml_at (deep_merge e t) ks = Some v" using Cons.IH Cons.prems(2,3) u t by simp
    then show ?thesis using u t e by (simp add: dget_deep_merge[OF dist] merge_value_simps)
  next
    case False
    then have "merge_value (dget b k) u = u" by (cases u) (auto simp: merge_value_def split: option.splits toml.splits)
    then show ?thesis using Cons.prems(2) u by (simp add: dget_deep_merge[OF dist])
  qed
qed

lemma silent_merge:
  "keyed (TTab o') \<Longrightarrow> silent o' ks \<Longrightarrow> toml_at (deep_merge b o') ks = toml_at b ks"
proof (induction ks arbitrary: b o')
  case Nil
  then show ?case by simp
next
  case (Cons k ks)
  have dist: "distinct (dkeys o')" using Cons.prems(1) by (simp add: keyed_TTab)
  show ?case
  proof (cases "dget o' k")
    case None
    then show ?thesis by (simp add: dget_deep_merge[OF dist])
  next
    case (Some u)
    then obtain t where t: "u = TTab t" and s: "silent t ks" using Cons.prems(2) by (cases u) auto
    have k: "keyed (TTab t)" using Cons.prems(1) Some t by (metis keyed_TTab map_of_SomeD)
    have none: "toml_at t ks = None" if "silent t ks" for t
      using that by (induction ks arbitrary: t) (auto split: option.splits toml.splits)
    have ne: "ks \<noteq> []" using s by auto
    show ?thesis
      using Some t Cons.IH[OF k s] none[OF s] ne
      by (cases "dget b k") (auto simp: dget_deep_merge[OF dist] merge_value_def split: toml.splits)
  qed
qed

text \<open>
  The overlay merge, at every path of keys. Where the overlay has a value that is not a
  table, the merged document has that value; where the overlay stops before giving a value, the
  merged document has what the base has.
\<close>

theorem deep_merge_paths:
  assumes "keyed (TTab over)"
  shows "(\<forall>v. toml_at over ks = Some v \<and> (\<nexists>t. v = TTab t)
            \<longrightarrow> toml_at (deep_merge base over) ks = Some v)
    \<and> (silent over ks \<longrightarrow> toml_at (deep_merge base over) ks = toml_at base ks)"
  using assms by (simp add: deep_merge_leaf silent_merge)

theorem deep_merge_paths_witness:
  "toml_at (deep_merge [(''ssh'', TTab [(''user'', TStr ''ops''), (''port'', TInt 22)])]
       [(''ssh'', TTab [(''user'', TStr ''me'')])]) [''ssh'', ''user''] = Some (TStr ''me'')
   \<and> toml_at (deep_merge [(''ssh'', TTab [(''user'', TStr ''ops''), (''port'', TInt 22)])]
       [(''ssh'', TTab [(''user'', TStr ''me'')])]) [''ssh'', ''port''] = Some (TInt 22)"
proof -
  have "keyed (TTab [(''ssh'', TTab [(''user'', TStr ''me'')])])"
    by (auto simp: keyed_TTab intro: keyed.intros(2))
  from deep_merge_paths[OF this, of "[''ssh'', ''user'']"] deep_merge_paths[OF this, of "[''ssh'', ''port'']"]
  show ?thesis by simp
qed

section \<open>A concrete configuration\<close>

text \<open>The shape of \<^verbatim>\<open>config/cluster.toml\<close>, used where a theorem is applied to an instance.\<close>

definition sample_config :: cluster_config where
  "sample_config = \<lparr>
     cfg_ssh = \<lparr>ssh_user = ''ops'', ssh_key_path = path_of ''/home/ops/.ssh/id_ed25519'',
       connect_timeout_seconds = 15, command_timeout_seconds = 300\<rparr>,
     cfg_virtualbox = \<lparr>vboxmanage = path_of ''/usr/bin/VBoxManage'', template_vm = ''vmdeploy-template'',
       template_ova = path_of ''templates/base.ova'', template_image_ref = [], memory_mb = 2048,
       cpus = 2, boot_timeout_seconds = 300\<rparr>,
     cfg_jump = \<lparr>vm_name = ''vm-jump'', hostname = ''jump'', role = JUMP, http_port = 80\<rparr>,
     cfg_backends = [\<lparr>vm_name = ''vm-web1'', hostname = ''web1'', role = BACKEND, http_port = 8081\<rparr>,
       \<lparr>vm_name = ''vm-web2'', hostname = ''web2'', role = BACKEND, http_port = 8082\<rparr>],
     cfg_inventory = \<lparr>service_port = 8080, remote_dir = ''/opt/inventory'',
       key_file = path_of ''secrets/inventory.key'', datastore_name = ''inventory.enc'',
       manifest_file = path_of ''secrets/manifest.json''\<rparr>,
     cfg_website = \<lparr>source_url = ''https://example.org'', archive_url = ''https://example.org/site.tar.gz'',
       document_root = ''/var/www/html''\<rparr>,
     cfg_build = \<lparr>go_version = ''1.26.5'', go_sha256 = ''5c2c3b16''\<rparr>\<rparr>"

lemma expanded_pathI: "path_text p \<Longrightarrow> expanded_path p"
  unfolding path_text_def expanded_path_def by metis

lemma sample_paths: "\<forall>p \<in> set (config_paths sample_config). path_text p"
  by code_simp

lemma sample_valid: "valid_config sample_config"
proof -
  have "expanded_path (ssh_key_path (cfg_ssh sample_config))"
    "expanded_path (vboxmanage (cfg_virtualbox sample_config))"
    "expanded_path (template_ova (cfg_virtualbox sample_config))"
    "expanded_path (key_file (cfg_inventory sample_config))"
    "expanded_path (manifest_file (cfg_inventory sample_config))"
    using sample_paths by (auto simp: config_paths_def intro: expanded_pathI)
  moreover have "valid_text (ssh_user (cfg_ssh sample_config))"
    "valid_website (cfg_website sample_config)" "valid_build (cfg_build sample_config)"
    "valid_text (template_vm (cfg_virtualbox sample_config))"
    "valid_text (remote_dir (cfg_inventory sample_config))"
    "valid_text (datastore_name (cfg_inventory sample_config))"
    "\<forall>h \<in> set (all_hosts sample_config). valid_host h"
    "distinct_machines sample_config"
    by code_simp+
  ultimately show ?thesis
    by (simp add: valid_config_def valid_ssh_def valid_virtualbox_def valid_inventory_def
        valid_port_def all_hosts_def) (simp add: sample_config_def)
qed

theorem config_roundtrip_witness:
  "config_of_document ([], \<lambda>_. None) (document_of_config sample_config) = Inr sample_config"
  by (rule config_roundtrip[OF sample_valid sample_paths])

end
