(* ===== verification/Json.thy ===== *)
theory Json
  imports Config "HOL-Library.Char_ord" "HOL-Library.List_Lexorder"
begin

text \<open>
  The part of Python's \<open>json\<close> module the registry uses: \<open>json.dumps(v, indent=2,
  sort_keys=True)\<close> and \<open>json.loads\<close>, and \<open>str()\<close> of a decoded value. The reader takes fuel;
  \<open>json_loads\<close> gives it twice the length of the text plus two, and \<open>jval_enough\<close> shows that more
  changes nothing. A float keeps its literal, whose \<open>str()\<close> is a parameter. Escapes above
  \<^verbatim>\<open>\u00ff\<close> are outside the code points of the model and are refused.
\<close>

datatype json =
    JNull | JBool bool | JInt int | JFloat string | JStr string
  | JArr "json list" | JObj "(string \<times> json) list"

subsection \<open>Writing\<close>

definition json_escape :: "char \<Rightarrow> string" where
  "json_escape c =
     (if c = c_dq \<or> c = c_bs then [c_bs, c]
      else if c = c_nl then [c_bs, CHR ''n'']
      else if c = c_cr then [c_bs, CHR ''r'']
      else if c = CHR 0x09 then [c_bs, CHR ''t'']
      else if c = CHR 0x0C then [c_bs, CHR ''f'']
      else if c = CHR 0x08 then [c_bs, CHR ''b'']
      else if code c < 32 \<or> 126 < code c
      then [c_bs, CHR ''u'', CHR ''0'', CHR ''0'', hex_digit (code c div 16), hex_digit (code c mod 16)]
      else [c])"

definition json_string :: "string \<Rightarrow> string" where
  "json_string s = c_dq # concat (map json_escape s) @ [c_dq]"

definition newline_indent :: "nat \<Rightarrow> string" where
  "newline_indent n = c_nl # replicate n CHR '' ''"

lemma size_snd_mem: "x \<in> set kvs \<Longrightarrow> size (snd x) < Suc (size_list (size_prod size size) kvs)"
  by (induction kvs) (auto simp: less_Suc_eq_le trans_le_add1 trans_le_add2)

function json_dump :: "nat \<Rightarrow> json \<Rightarrow> string" where
  "json_dump i JNull = ''null''"
| "json_dump i (JBool b) = (if b then ''true'' else ''false'')"
| "json_dump i (JInt n) = show_int n"
| "json_dump i (JFloat s) = s"
| "json_dump i (JStr s) = json_string s"
| "json_dump i (JArr vs) =
     (if vs = [] then ''[]''
      else CHR ''['' # newline_indent (i + 2)
        @ join (CHR '','' # newline_indent (i + 2)) (map (json_dump (i + 2)) vs)
        @ newline_indent i @ '']'')"
| "json_dump i (JObj kvs) =
     (if kvs = [] then ''{}''
      else CHR ''{'' # newline_indent (i + 2)
        @ join (CHR '','' # newline_indent (i + 2))
            (map (\<lambda>kv. json_string (fst kv) @ '': '' @ json_dump (i + 2) (snd kv)) (sort_key fst kvs))
        @ newline_indent i @ ''}'')"
  by pat_completeness auto
termination
  by (relation "measure (\<lambda>(i, v). size v)")
    (auto simp: size_snd_mem less_Suc_eq_le size_list_estimation')

definition json_dumps :: "json \<Rightarrow> string" where
  "json_dumps v = json_dump 0 v"

subsection \<open>Reading\<close>

definition is_json_space :: "char \<Rightarrow> bool" where
  "is_json_space c \<longleftrightarrow> c = CHR '' '' \<or> c = CHR 0x09 \<or> c = c_nl \<or> c = c_cr"

definition skip_ws :: "string \<Rightarrow> string" where
  "skip_ws s = dropWhile is_json_space s"

definition hex_val :: "char \<Rightarrow> nat option" where
  "hex_val c = (if is_digit c then Some (code c - 48)
     else if 97 \<le> code c \<and> code c \<le> 102 then Some (code c - 87)
     else if 65 \<le> code c \<and> code c \<le> 70 then Some (code c - 55) else None)"

definition hex4 :: "string \<Rightarrow> nat option" where
  "hex4 s = foldl (\<lambda>a c. Option.bind a (\<lambda>n. map_option (\<lambda>d. 16 * n + d) (hex_val c))) (Some 0) s"

definition simple_escape :: "char \<Rightarrow> char option" where
  "simple_escape c =
     (if c = c_dq \<or> c = c_bs \<or> c = CHR ''/'' then Some c
      else if c = CHR ''n'' then Some c_nl
      else if c = CHR ''r'' then Some c_cr
      else if c = CHR ''t'' then Some (CHR 0x09)
      else if c = CHR ''f'' then Some (CHR 0x0C)
      else if c = CHR ''b'' then Some (CHR 0x08)
      else None)"

text \<open>The text of a string after its opening quote, and what follows the closing one.\<close>

fun jstr :: "string \<Rightarrow> (string \<times> string) option" where
  "jstr [] = None"
| "jstr (c # cs) =
     (if c = c_dq then Some ([], cs)
      else if c = c_bs then
        (case cs of
           [] \<Rightarrow> None
         | e # es \<Rightarrow>
             if e = CHR ''u'' then
               (if length es < 4 then None
                else case hex4 (take 4 es) of
                    None \<Rightarrow> None
                  | Some n \<Rightarrow> if n < 256
                      then map_option (\<lambda>(t, r). (char_of n # t, r)) (jstr (drop 4 es)) else None)
             else (case simple_escape e of
                 None \<Rightarrow> None
               | Some d \<Rightarrow> map_option (\<lambda>(t, r). (d # t, r)) (jstr es)))
      else if code c < 32 then None
      else map_option (\<lambda>(t, r). (c # t, r)) (jstr cs))"

definition jsign :: "string \<Rightarrow> string" where
  "jsign s = (if startswith s ''-'' then ''-'' else [])"

definition jdigits :: "string \<Rightarrow> string" where
  "jdigits s = (if startswith s ''0'' then ''0'' else takeWhile is_digit s)"

definition jfraction :: "string \<Rightarrow> string" where
  "jfraction s = (if startswith s ''.'' \<and> takeWhile is_digit (tl s) \<noteq> []
                  then CHR ''.'' # takeWhile is_digit (tl s) else [])"

definition jexponent :: "string \<Rightarrow> string" where
  "jexponent s =
     (if startswith s ''e'' \<or> startswith s ''E'' then
        (let esign = (if startswith (tl s) ''+'' \<or> startswith (tl s) ''-'' then take 1 (tl s) else []);
             digits = takeWhile is_digit (drop (length esign) (tl s))
         in if digits = [] then [] else hd s # esign @ digits)
      else [])"

definition jnumber :: "string \<Rightarrow> (json \<times> string) option" where
  "jnumber s =
     (let sign = jsign s;
          digits = jdigits (drop (length sign) s);
          fraction = jfraction (drop (length sign + length digits) s);
          expo = jexponent (drop (length sign + length digits + length fraction) s);
          rest = drop (length sign + length digits + length fraction + length expo) s
      in if digits = [] then None
         else if fraction = [] \<and> expo = []
         then Some (JInt (if sign = [] then int (parse_nat digits) else - int (parse_nat digits)), rest)
         else Some (JFloat (sign @ digits @ fraction @ expo), rest))"

definition jatom :: "string \<Rightarrow> (json \<times> string) option" where
  "jatom s =
     (if startswith s ''null'' then Some (JNull, drop 4 s)
      else if startswith s ''true'' then Some (JBool True, drop 4 s)
      else if startswith s ''false'' then Some (JBool False, drop 5 s)
      else case jnumber s of
          Some r \<Rightarrow> Some r
        | None \<Rightarrow>
            if startswith s ''NaN'' then Some (JFloat ''NaN'', drop 3 s)
            else if startswith s ''Infinity'' then Some (JFloat ''Infinity'', drop 8 s)
            else if startswith s ''-Infinity'' then Some (JFloat ''-Infinity'', drop 9 s)
            else None)"

text \<open>\<open>dict(pairs)\<close>: a repeated key keeps its first place and its last value.\<close>

definition dict_of_pairs :: "(string \<times> json) list \<Rightarrow> (string \<times> json) list" where
  "dict_of_pairs kvs = foldl (\<lambda>d (k, v). dset d k v) [] kvs"

fun jval :: "nat \<Rightarrow> string \<Rightarrow> (json \<times> string) option"
and jelems :: "nat \<Rightarrow> string \<Rightarrow> (json list \<times> string) option"
and jmembers :: "nat \<Rightarrow> string \<Rightarrow> ((string \<times> json) list \<times> string) option" where
  "jval 0 s = None"
| "jval (Suc n) s =
     (if startswith s [c_dq] then map_option (\<lambda>(t, r). (JStr t, r)) (jstr (tl s))
      else if startswith s ''['' then
        (if startswith (skip_ws (tl s)) '']'' then Some (JArr [], tl (skip_ws (tl s)))
         else map_option (\<lambda>(vs, r). (JArr vs, r)) (jelems n (skip_ws (tl s))))
      else if startswith s ''{'' then
        (if startswith (skip_ws (tl s)) ''}'' then Some (JObj [], tl (skip_ws (tl s)))
         else map_option (\<lambda>(kvs, r). (JObj (dict_of_pairs kvs), r)) (jmembers n (skip_ws (tl s))))
      else jatom s)"
| "jelems 0 s = None"
| "jelems (Suc n) s =
     Option.bind (jval n s) (\<lambda>(v, r).
       if startswith (skip_ws r) '','' then
         map_option (\<lambda>(vs, t). (v # vs, t)) (jelems n (skip_ws (tl (skip_ws r))))
       else if startswith (skip_ws r) '']'' then Some ([v], tl (skip_ws r))
       else None)"
| "jmembers 0 s = None"
| "jmembers (Suc n) s =
     (if \<not> startswith s [c_dq] then None
      else Option.bind (jstr (tl s)) (\<lambda>(k, r).
        if \<not> startswith (skip_ws r) '':'' then None
        else Option.bind (jval n (skip_ws (tl (skip_ws r)))) (\<lambda>(v, r).
          if startswith (skip_ws r) '','' then
            map_option (\<lambda>(kvs, t). ((k, v) # kvs, t)) (jmembers n (skip_ws (tl (skip_ws r))))
          else if startswith (skip_ws r) ''}'' then Some ([(k, v)], tl (skip_ws r))
          else None)))"

definition json_loads :: "string \<Rightarrow> json option" where
  "json_loads s = (case jval (2 * length s + 2) (skip_ws s) of
       Some (v, r) \<Rightarrow> if skip_ws r = [] then Some v else None
     | None \<Rightarrow> None)"

text \<open>\<open>str(v)\<close> and \<open>repr(v)\<close> of a decoded value.\<close>

fun json_repr :: "(string \<Rightarrow> string) \<Rightarrow> json \<Rightarrow> string" where
  "json_repr f JNull = ''None''"
| "json_repr f (JBool b) = (if b then ''True'' else ''False'')"
| "json_repr f (JInt n) = show_int n"
| "json_repr f (JFloat s) = f s"
| "json_repr f (JStr s) = py_repr s"
| "json_repr f (JArr vs) = ''['' @ join '', '' (map (json_repr f) vs) @ '']''"
| "json_repr f (JObj kvs) =
     ''{'' @ join '', '' (map (\<lambda>(k, v). py_repr k @ '': '' @ json_repr f v) kvs) @ ''}''"

fun json_str :: "(string \<Rightarrow> string) \<Rightarrow> json \<Rightarrow> string" where
  "json_str f (JStr s) = s"
| "json_str f v = json_repr f v"

fun json_type_name :: "json \<Rightarrow> string" where
  "json_type_name JNull = ''NoneType''"
| "json_type_name (JBool _) = ''bool''"
| "json_type_name (JInt _) = ''int''"
| "json_type_name (JFloat _) = ''float''"
| "json_type_name (JStr _) = ''str''"
| "json_type_name (JArr _) = ''list''"
| "json_type_name (JObj _) = ''dict''"


section \<open>Enough fuel\<close>

lemma skip_ws_length: "length (skip_ws s) \<le> length s"
  by (simp add: skip_ws_def length_dropWhile_le)

lemma startswith_length: "startswith s p \<Longrightarrow> length p \<le> length s"
  by (simp add: startswith_def prefix_length_le)

lemma jstr_length: "jstr s = Some (t, r) \<Longrightarrow> length r < length s"
proof (induction s arbitrary: t r rule: jstr.induct)
  case 1
  then show ?case by simp
next
  case (2 c cs)
  then show ?case by (fastforce split: if_splits list.splits option.splits)
qed

lemma jnumber_length: "jnumber s = Some (v, r) \<Longrightarrow> length r < length s"
proof (cases "s = []")
  case True
  then show "jnumber s = Some (v, r) \<Longrightarrow> length r < length s"
    by (simp add: jnumber_def jdigits_def startswith_def jsign_def)
next
  case False
  then show "jnumber s = Some (v, r) \<Longrightarrow> length r < length s"
    unfolding jnumber_def Let_def
    by (cases "jdigits (drop (length (jsign s)) s) = []") (auto split: if_splits)
qed

lemma jatom_length: "jatom s = Some (v, r) \<Longrightarrow> length r < length s"
  unfolding jatom_def
  by (auto dest: jnumber_length dest!: startswith_length split: if_splits option.splits)

lemma skip_tl_shorter: "startswith s [c] \<Longrightarrow> length (skip_ws (tl s)) < length s"
  using skip_ws_length[of "tl s"] startswith_length[of s "[c]"] by simp

lemma skip_tl_skip_shorter: "length (skip_ws (tl (skip_ws s))) \<le> length s"
  using skip_ws_length[of "tl (skip_ws s)"] skip_ws_length[of s] by simp

lemma tl_skip_shorter: "length (tl (skip_ws s)) \<le> length s"
  using skip_ws_length[of s] by simp

lemmas shorter = skip_ws_length skip_tl_shorter skip_tl_skip_shorter tl_skip_shorter jstr_length
  jatom_length

lemma read_shorter:
  "jval n s = Some (v, r) \<Longrightarrow> length r < length s"
  "jelems n s = Some (vs, r) \<Longrightarrow> length r < length s"
  "jmembers n s = Some (kvs, r) \<Longrightarrow> length r < length s"
proof (induction n s and n s and n s arbitrary: v r and vs r and kvs r rule: jval_jelems_jmembers.induct)
  case (2 n s)
  have tl: "length (tl s) < length s" if "startswith s [c]" for c
    using startswith_length[OF that] by simp
  show ?case
  proof (cases "startswith s [c_dq]")
    case True
    then show ?thesis using 2 tl[OF True] by (auto dest: jstr_length)
  next
    case nq: False
    show ?thesis
    proof (cases "startswith s ''[''")
      case True
      show ?thesis
        using 2(1)[OF nq True] 2(3) nq True tl[OF True] tl_skip_shorter[of "tl s"]
          skip_tl_shorter[OF True]
        by (fastforce split: if_splits)
    next
      case nb: False
      show ?thesis
      proof (cases "startswith s ''{''")
        case True
        show ?thesis
          using 2(2)[OF nq nb True] 2(3) nq nb True tl[OF True] tl_skip_shorter[of "tl s"]
            skip_tl_shorter[OF True]
          by (fastforce split: if_splits)
      next
        case False
        then show ?thesis using 2(3) nq nb by (auto dest: jatom_length)
      qed
    qed
  qed
next
  case (4 n s)
  from 4(3) obtain v r1 where v: "jval n s = Some (v, r1)" by (auto simp: bind_eq_Some_conv)
  note l = 4(1)[OF v] tl_skip_shorter[of r1] skip_tl_skip_shorter[of r1]
  show ?case
  proof (cases "startswith (skip_ws r1) '',''")
    case True
    then obtain ws where "jelems n (skip_ws (tl (skip_ws r1))) = Some (ws, r)"
      using 4(3) v by auto
    then show ?thesis using 4(2)[OF v _ True] l by fastforce
  next
    case False
    then show ?thesis using 4(3) v l by (auto split: if_splits)
  qed
next
  case (6 n s)
  have q: "startswith s [c_dq]" using 6(3) by (auto split: if_splits)
  have tl: "length (tl s) < length s" using startswith_length[OF q] by simp
  from 6(3) q obtain k r1 where k: "jstr (tl s) = Some (k, r1)" by (auto simp: bind_eq_Some_conv)
  have c: "startswith (skip_ws r1) '':''" using 6(3) q k by (auto split: if_splits)
  from 6(3) q k c obtain v r2 where v: "jval n (skip_ws (tl (skip_ws r1))) = Some (v, r2)"
    by (auto simp: bind_eq_Some_conv)
  note l = 6(1)[OF _ k _ _ v] tl jstr_length[OF k] tl_skip_shorter[of r2] skip_tl_skip_shorter[of r1]
    skip_tl_skip_shorter[of r2]
  show ?case
  proof (cases "startswith (skip_ws r2) '',''")
    case True
    then obtain ws where "jmembers n (skip_ws (tl (skip_ws r2))) = Some (ws, r)"
      using 6(3) q k c v by auto
    then show ?thesis using 6(2)[OF _ k _ _ v _ True] l q c by fastforce
  next
    case False
    then show ?thesis using 6(3) q k c v l by (auto split: if_splits)
  qed
qed simp_all

text \<open>Fuel above twice the length of the text gives the same result as any larger amount.\<close>

lemma jval_enough:
  "2 * length s < n \<Longrightarrow> n \<le> m \<Longrightarrow> jval n s = jval m s"
  "2 * length s + 1 < n \<Longrightarrow> n \<le> m \<Longrightarrow> jelems n s = jelems m s"
  "2 * length s + 1 < n \<Longrightarrow> n \<le> m \<Longrightarrow> jmembers n s = jmembers m s"
proof (induction n arbitrary: s m)
  case 0
  {
    case 1
    then show ?case by simp
  next
    case 2
    then show ?case by simp
  next
    case 3
    then show ?case by simp
  }
next
  case (Suc n)
  {
    case 1
    then obtain m' where m: "m = Suc m'" "n \<le> m'" by (cases m) auto
    have "jelems n (skip_ws (tl s)) = jelems m' (skip_ws (tl s))" if "startswith s ''[''"
      by (rule Suc.IH(2)) (use skip_tl_shorter[OF that] 1 m in auto)
    moreover have "jmembers n (skip_ws (tl s)) = jmembers m' (skip_ws (tl s))" if "startswith s ''{''"
      by (rule Suc.IH(3)) (use skip_tl_shorter[OF that] 1 m in auto)
    ultimately show ?case using m by simp
  next
    case 2
    then obtain m' where m: "m = Suc m'" "n \<le> m'" by (cases m) auto
    have v: "jval n s = jval m' s" by (rule Suc.IH(1)) (use 2 m in auto)
    have "jelems n (skip_ws (tl (skip_ws r))) = jelems m' (skip_ws (tl (skip_ws r)))"
      if "jval m' s = Some (v, r)" for v r
      by (rule Suc.IH(2)) (use read_shorter(1)[OF that] skip_tl_skip_shorter[of r] 2 m in auto)
    then show ?case using m v by (cases "jval m' s") auto
  next
    case 3
    then obtain m' where m: "m = Suc m'" "n \<le> m'" by (cases m) auto
    have small: "2 * length t + 1 < n" if "length t < length s - 1" for t :: string
      using that 3 by simp
    show ?case
    proof (cases "startswith s [c_dq]")
      case False
      then show ?thesis using m by simp
    next
      case q: True
      show ?thesis
      proof (cases "jstr (tl s)")
        case None
        then show ?thesis using m by simp
      next
        case (Some kr)
        then obtain k r where k: "jstr (tl s) = Some (k, r)" by (cases kr) auto
        have l: "length r < length s - 1" using jstr_length[OF k] by simp
        have v: "jval n (skip_ws (tl (skip_ws r))) = jval m' (skip_ws (tl (skip_ws r)))"
          by (rule Suc.IH(1)) (use small[of r] l skip_tl_skip_shorter[of r] m in auto)
        have "jmembers n (skip_ws (tl (skip_ws r2))) = jmembers m' (skip_ws (tl (skip_ws r2)))"
          if "jval m' (skip_ws (tl (skip_ws r))) = Some (v2, r2)" for v2 r2
          by (rule Suc.IH(3))
            (use small[of r] l read_shorter(1)[OF that] skip_tl_skip_shorter[of r]
              skip_tl_skip_shorter[of r2] m in auto)
        then show ?thesis
          using m v k by (cases "jval m' (skip_ws (tl (skip_ws r)))") auto
      qed
    qed
  }
qed

section \<open>Reading back what was written\<close>

text \<open>
  \<open>writes v\<close>: a value that reading gives back: no float, and the keys of every object strictly
  increasing.
\<close>

function writes :: "json \<Rightarrow> bool" where
  "writes JNull = True"
| "writes (JBool _) = True"
| "writes (JInt _) = True"
| "writes (JFloat _) = False"
| "writes (JStr _) = True"
| "writes (JArr vs) = (\<forall>v \<in> set vs. writes v)"
| "writes (JObj kvs) = (sorted_wrt (<) (map fst kvs) \<and> (\<forall>kv \<in> set kvs. writes (snd kv)))"
  by pat_completeness auto
termination
  by (relation "measure size") (auto simp: size_snd_mem less_Suc_eq_le size_list_estimation')

lemma hex_val_digit: "d < 16 \<Longrightarrow> hex_val (hex_digit d) = Some d"
  by (cases "d < 10") (simp_all add: hex_val_def hex_digit_def is_digit_def)

lemma hex4_escape:
  "n < 256 \<Longrightarrow> hex4 [CHR ''0'', CHR ''0'', hex_digit (n div 16), hex_digit (n mod 16)] = Some n"
proof -
  assume "n < 256"
  moreover have "hex_val CHR ''0'' = Some 0" by (simp add: hex_val_def is_digit_def)
  ultimately show ?thesis by (simp add: hex4_def hex_val_digit less_mult_imp_div_less)
qed

lemma jstr_escape: "jstr (json_escape c @ s) = map_option (\<lambda>(t, r). (c # t, r)) (jstr s)"
proof -
  have hex: "hex4 [CHR ''0'', CHR ''0'', hex_digit (code c div 16), hex_digit (code c mod 16)]
      = Some (code c)"
    by (rule hex4_escape) simp
  define short where "short = [c_dq, c_bs, c_nl, c_cr, CHR 0x09, CHR 0x0C, CHR 0x08]"
  have "\<forall>d \<in> set short. \<exists>e. json_escape d = [c_bs, e] \<and> e \<noteq> CHR ''u'' \<and> simple_escape e = Some d"
    unfolding short_def by (simp add: json_escape_def simple_escape_def)
  moreover have "json_escape c = (if code c < 32 \<or> 126 < code c
      then [c_bs, CHR ''u'', CHR ''0'', CHR ''0'', hex_digit (code c div 16), hex_digit (code c mod 16)]
      else [c])" and "c \<noteq> c_dq" and "c \<noteq> c_bs" if "c \<notin> set short"
    using that unfolding short_def json_escape_def by simp_all
  ultimately show ?thesis
  proof (cases "c \<in> set short")
    case True
    with \<open>\<forall>d \<in> set short. _ d\<close> obtain e where "json_escape c = [c_bs, e]" "e \<noteq> CHR ''u''"
      "simple_escape e = Some c" by blast
    then show ?thesis by simp
  next
    case False
    note f = \<open>c \<notin> set short \<Longrightarrow> json_escape c = _\<close>[OF False] \<open>c \<notin> set short \<Longrightarrow> c \<noteq> c_dq\<close>[OF False]
      \<open>c \<notin> set short \<Longrightarrow> c \<noteq> c_bs\<close>[OF False]
    show ?thesis
    proof (cases "code c < 32 \<or> 126 < code c")
      case True
      then show ?thesis using f(1) hex by simp
    next
      case no: False
      then show ?thesis using f by simp
    qed
  qed
qed

lemma jstr_string: "jstr (concat (map json_escape s) @ c_dq # r) = Some (s, r)"
  by (induction s) (simp_all add: jstr_escape)

text \<open>What may follow a value in the text: nothing, or one of \<^verbatim>\<open>, ] }\<close> or a line break.\<close>

definition value_end :: "string \<Rightarrow> bool" where
  "value_end r \<longleftrightarrow> r = [] \<or> hd r \<in> {CHR '','', CHR '']'', CHR ''}'', c_nl}"

lemma value_end_simps [simp]:
  "value_end (CHR '','' # r)" "value_end (c_nl # r)" "value_end []"
  by (simp_all add: value_end_def)

lemma show_nat_hd: "0 < n \<Longrightarrow> hd (show_nat n) \<noteq> CHR ''0''"
proof (induction n rule: show_nat.induct)
  case (1 n)
  show ?case
  proof (cases "n < 10")
    case True
    have "code (digit_char n) \<noteq> code (CHR ''0'')" using 1(2) True by (simp add: digit_char_code)
    then show ?thesis using True by (subst show_nat.simps) auto
  next
    case False
    then show ?thesis using 1(1) by (subst show_nat.simps) (simp add: hd_append)
  qed
qed

lemma value_end_nondigit: "value_end r \<Longrightarrow> takeWhile is_digit r = []"
  by (cases r) (auto simp: value_end_def is_digit_def)

lemma digit_char_0: "digit_char 0 = CHR ''0''"
  by code_simp

lemma jdigits_show_nat: "value_end r \<Longrightarrow> jdigits (show_nat n @ r) = show_nat n"
proof (cases "n = 0")
  case True
  then show "value_end r \<Longrightarrow> jdigits (show_nat n @ r) = show_nat n"
    by (subst (1 2) show_nat.simps) (simp add: jdigits_def startswith_def digit_char_0)
next
  case False
  assume r: "value_end r"
  obtain c cs where c: "show_nat n = c # cs" by (cases "show_nat n") auto
  then have "c \<noteq> CHR ''0''" using show_nat_hd[of n] False by simp
  then have "\<not> startswith (show_nat n @ r) ''0''" using c by (simp add: startswith_def)
  moreover have "takeWhile is_digit (show_nat n @ r) = show_nat n"
    using value_end_nondigit[OF r] by (subst takeWhile_append2) (auto dest: show_nat_digits)
  ultimately show ?thesis by (simp add: jdigits_def)
qed

lemma value_end_plain:
  assumes "value_end r" shows "jfraction r = []" "jexponent r = []"
  using assms by (cases r; auto simp: value_end_def jfraction_def jexponent_def startswith_def)+

lemma jnumber_show_int: "value_end r \<Longrightarrow> jnumber (show_int n @ r) = Some (JInt n, r)"
proof -
  assume r: "value_end r"
  have pos: "\<not> startswith (show_nat k @ r) ''-''" for k
    using show_nat_digits[of "hd (show_nat k)" k]
    by (cases "show_nat k") (auto simp: startswith_def is_digit_def)
  show ?thesis
  proof (cases "n < 0")
    case True
    then show ?thesis
      using r by (simp add: jnumber_def show_int_def jsign_def startswith_def jdigits_show_nat value_end_plain)
  next
    case False
    then show ?thesis
      using r pos by (simp add: jnumber_def show_int_def jsign_def jdigits_show_nat value_end_plain)
  qed
qed

lemma show_int_hd: "show_int n = c # cs \<Longrightarrow> is_digit c \<or> c = CHR ''-''"
  using show_nat_digits[of c "nat n"] by (auto simp: show_int_def split: if_splits)

lemma show_int_nonempty: "show_int n \<noteq> []"
  by (simp add: show_int_def)

lemma jatom_show_int: "value_end r \<Longrightarrow> jatom (show_int n @ r) = Some (JInt n, r)"
proof -
  assume r: "value_end r"
  obtain c cs where c: "show_int n = c # cs" using show_int_nonempty[of n] by (cases "show_int n") auto
  have "c \<notin> set ''ntf''" using show_int_hd[OF c] by (auto simp: is_digit_def)
  then show ?thesis
    using jnumber_show_int[OF r, of n] c by (auto simp: jatom_def startswith_def)
qed

text \<open>\<open>reads v s\<close>: with enough fuel, \<open>s\<close> at the head of a text is read as \<open>v\<close>.\<close>

definition reads :: "json \<Rightarrow> string \<Rightarrow> bool" where
  "reads v s \<longleftrightarrow> (\<exists>n. \<forall>m \<ge> n. \<forall>r. value_end r \<longrightarrow> jval m (s @ r) = Some (v, r))"

lemma readsI: "(\<And>m r. value_end r \<Longrightarrow> jval (Suc m) (s @ r) = Some (v, r)) \<Longrightarrow> reads v s"
  unfolding reads_def by (metis Suc_le_D)

definition solid :: "string \<Rightarrow> bool" where
  "solid s \<longleftrightarrow> s \<noteq> [] \<and> \<not> is_json_space (hd s) \<and> hd s \<notin> {CHR '']'', CHR ''}''}"

lemma skip_ws_solid: "solid s \<Longrightarrow> skip_ws (s @ r) = s @ r"
  by (cases s) (auto simp: solid_def skip_ws_def)

lemma skip_ws_indent [simp]: "skip_ws (newline_indent n @ s) = skip_ws s"
proof -
  have "dropWhile is_json_space (replicate n CHR '' '' @ s) = dropWhile is_json_space s"
    by (induction n) (simp_all add: is_json_space_def)
  then show ?thesis by (simp add: skip_ws_def newline_indent_def is_json_space_def)
qed

lemma json_dump_solid: "writes v \<Longrightarrow> solid (json_dump i v)"
proof (cases v)
  case (JInt n)
  obtain c cs where "show_int n = c # cs" using show_int_nonempty[of n] by (cases "show_int n") auto
  then show "writes v \<Longrightarrow> solid (json_dump i v)"
    using JInt show_int_hd[of n c cs] by (auto simp: solid_def is_json_space_def is_digit_def)
qed (auto simp: solid_def is_json_space_def json_string_def)

lemma skip_ws_mark [simp]:
  "skip_ws (CHR '','' # s) = CHR '','' # s" "skip_ws (CHR '']'' # s) = CHR '']'' # s"
  "skip_ws (CHR ''}'' # s) = CHR ''}'' # s" "skip_ws (CHR '':'' # s) = CHR '':'' # s"
  "skip_ws [] = []" "skip_ws (CHR '' '' # s) = skip_ws s"
  by (simp_all add: skip_ws_def is_json_space_def)

lemma value_end_indent [simp]: "value_end (newline_indent n @ r)"
  by (simp add: newline_indent_def)

lemma above_Suc: "(\<And>m. n \<le> m \<Longrightarrow> P (Suc m)) \<Longrightarrow> \<exists>n. \<forall>m \<ge> n. P m"
  by (metis Suc_le_D Suc_le_mono)

lemma reads_elems:
  assumes "\<forall>v \<in> set vs. reads v (f v) \<and> solid (f v)" and "vs \<noteq> []"
  shows "\<exists>n. \<forall>m \<ge> n. \<forall>r. jelems m (join (CHR '','' # newline_indent j) (map f vs)
      @ newline_indent i @ CHR '']'' # r) = Some (vs, r)"
  using assms
proof (induction vs)
  case Nil
  then show ?case by simp
next
  case (Cons v vs)
  from Cons.prems obtain n where n: "\<And>m r. n \<le> m \<Longrightarrow> value_end r \<Longrightarrow> jval m (f v @ r) = Some (v, r)"
    unfolding reads_def by auto
  show ?case
  proof (cases "vs = []")
    case True
    have "jelems (Suc m) (f v @ newline_indent i @ CHR '']'' # r) = Some ([v], r)" if "n \<le> m" for m r
      using n[OF that] by (simp add: startswith_def)
    then show ?thesis using True
      by (intro above_Suc[of n]) (simp del: jelems.simps jmembers.simps)
  next
    case False
    then obtain n' where n': "\<And>m r. n' \<le> m \<Longrightarrow> jelems m (join (CHR '','' # newline_indent j) (map f vs)
        @ newline_indent i @ CHR '']'' # r) = Some (vs, r)"
      using Cons by auto
    obtain w ws where ws: "vs = w # ws" using False by (cases vs) auto
    have "solid (f w)" using Cons.prems ws by simp
    then have skip: "skip_ws (join (CHR '','' # newline_indent j) (map f vs) @ r)
        = join (CHR '','' # newline_indent j) (map f vs) @ r" for r
      unfolding ws by (cases ws) (simp_all add: skip_ws_solid)
    have "jelems (Suc m) (f v @ CHR '','' # newline_indent j @ join (CHR '','' # newline_indent j) (map f vs)
        @ newline_indent i @ CHR '']'' # r) = Some (v # vs, r)" if "n \<le> m" "n' \<le> m" for m r
      using n[OF that(1)] n'[OF that(2)] by (simp add: startswith_def skip)
    then show ?thesis using ws
      by (intro above_Suc[of "max n n'"]) (simp del: jelems.simps jmembers.simps)
  qed
qed

lemma reads_members:
  assumes "\<forall>kv \<in> set kvs. reads (snd kv) (f (snd kv)) \<and> solid (f (snd kv))" and "kvs \<noteq> []"
  shows "\<exists>n. \<forall>m \<ge> n. \<forall>r. jmembers m (join (CHR '','' # newline_indent j)
      (map (\<lambda>kv. json_string (fst kv) @ '': '' @ f (snd kv)) kvs)
      @ newline_indent i @ CHR ''}'' # r) = Some (kvs, r)"
  using assms
proof (induction kvs)
  case Nil
  then show ?case by simp
next
  case (Cons kv kvs)
  let ?g = "\<lambda>kv. json_string (fst kv) @ '': '' @ f (snd kv)"
  obtain k v where kv: "kv = (k, v)" by (cases kv)
  from Cons.prems obtain n where n: "\<And>m r. n \<le> m \<Longrightarrow> value_end r \<Longrightarrow> jval m (f v @ r) = Some (v, r)"
    unfolding reads_def kv by auto
  have sv: "skip_ws (f v @ r) = f v @ r" for r using Cons.prems by (simp add: kv skip_ws_solid)
  have head: "jmembers (Suc m) (?g kv @ r) =
      (if startswith (skip_ws r) '','' then
         map_option (\<lambda>(kvs, t). ((k, v) # kvs, t)) (jmembers m (skip_ws (tl (skip_ws r))))
       else if startswith (skip_ws r) ''}'' then Some ([(k, v)], tl (skip_ws r)) else None)"
    if "n \<le> m" "value_end r" for m r
    using n[OF that] by (simp add: kv json_string_def jstr_string startswith_def sv)
  show ?case
  proof (cases "kvs = []")
    case True
    have "jmembers (Suc m) (?g kv @ newline_indent i @ CHR ''}'' # r) = Some ([kv], r)" if "n \<le> m" for m r
      using head[OF that, of "newline_indent i @ CHR ''}'' # r"] by (simp add: startswith_def kv)
    then show ?thesis using True
      by (intro above_Suc[of n]) (simp del: jelems.simps jmembers.simps)
  next
    case False
    then obtain n' where n': "\<And>m r. n' \<le> m \<Longrightarrow> jmembers m (join (CHR '','' # newline_indent j) (map ?g kvs)
        @ newline_indent i @ CHR ''}'' # r) = Some (kvs, r)"
      using Cons by auto
    obtain w ws where ws: "kvs = w # ws" using False by (cases kvs) auto
    have skip: "skip_ws (join (CHR '','' # newline_indent j) (map ?g kvs) @ r)
        = join (CHR '','' # newline_indent j) (map ?g kvs) @ r" for r
      unfolding ws by (cases ws) (simp_all add: json_string_def skip_ws_def is_json_space_def)
    have "jmembers (Suc m) (?g kv @ CHR '','' # newline_indent j
        @ join (CHR '','' # newline_indent j) (map ?g kvs)
        @ newline_indent i @ CHR ''}'' # r) = Some (kv # kvs, r)" if "n \<le> m" "n' \<le> m" for m r
      using head[OF that(1), of "CHR '','' # newline_indent j
        @ join (CHR '','' # newline_indent j) (map ?g kvs) @ newline_indent i @ CHR ''}'' # r"]
        n'[OF that(2)] by (simp add: startswith_def skip[simplified] kv)
    then show ?thesis using ws
      by (intro above_Suc[of "max n n'"]) (simp del: jelems.simps jmembers.simps)
  qed
qed

lemma dict_of_pairs_distinct: "distinct (dkeys kvs) \<Longrightarrow> dict_of_pairs kvs = kvs"
proof -
  have upd: "dset d k v = d @ [(k, v)]" if "k \<notin> set (dkeys d)" for d :: "(string \<times> json) list" and k v
    using that by (induction d) auto
  have "distinct (dkeys (d @ kvs)) \<Longrightarrow> foldl (\<lambda>d (k, v). dset d k v) d kvs = d @ kvs" for d
    by (induction kvs arbitrary: d) (auto simp: upd)
  from this[of "[]"] show "distinct (dkeys kvs) \<Longrightarrow> ?thesis" by (simp add: dict_of_pairs_def)
qed

lemma sort_key_sorted: "sorted_wrt (<) (map fst kvs) \<Longrightarrow> sort_key fst kvs = kvs"
  for kvs :: "(string \<times> json) list"
  by (metis (mono_tags, lifting) sort_key_id_if_sorted sorted_wrt_mono_rel less_imp_le)

lemma sorted_keys_distinct: "sorted_wrt (<) (map fst kvs) \<Longrightarrow> distinct (dkeys kvs)"
  for kvs :: "(string \<times> json) list"
  using strict_sorted_iff by blast

lemma jval_array:
  assumes "jelems m (t @ r) = Some (vs, r')" and "solid t"
  shows "jval (Suc m) (CHR ''['' # newline_indent j @ t @ r) = Some (JArr vs, r')"
  using assms skip_ws_solid[OF assms(2), of r] by (cases t) (auto simp: startswith_def solid_def)

lemma jval_object:
  assumes "jmembers m (t @ r) = Some (kvs, r')" and "solid t"
  shows "jval (Suc m) (CHR ''{'' # newline_indent j @ t @ r) = Some (JObj (dict_of_pairs kvs), r')"
  using assms skip_ws_solid[OF assms(2), of r] by (cases t) (auto simp: startswith_def solid_def)

lemma solid_append: "solid s \<Longrightarrow> solid (s @ t)"
  by (cases s) (auto simp: solid_def)

lemma solid_join: "vs \<noteq> [] \<Longrightarrow> \<forall>v \<in> set vs. solid (f v) \<Longrightarrow> solid (join sep (map f vs))"
  by (cases vs; cases "tl vs") (auto simp: solid_append)

lemma writes_reads: "writes v \<Longrightarrow> reads v (json_dump i v)"
proof (induction i v rule: json_dump.induct)
  case (3 i n)
  obtain c cs where c: "show_int n = c # cs" using show_int_nonempty[of n] by (cases "show_int n") auto
  then have "c \<notin> {c_dq, CHR ''['', CHR ''{''}" using show_int_hd[OF c] by (auto simp: is_digit_def)
  then show ?case using c jatom_show_int[of _ n] by (intro readsI) (auto simp: startswith_def)
next
  case (5 i s)
  then show ?case by (intro readsI) (simp add: json_string_def jstr_string startswith_def)
next
  case (6 i vs)
  show ?case
  proof (cases "vs = []")
    case True
    then show ?thesis by (intro readsI) (simp add: startswith_def)
  next
    case False
    have el: "\<forall>v \<in> set vs. reads v (json_dump (i + 2) v) \<and> solid (json_dump (i + 2) v)"
      using 6 False by (simp add: json_dump_solid)
    from reads_elems[OF this False, of "i + 2" i] obtain n where
      "\<forall>m \<ge> n. \<forall>r. jelems m (join (CHR '','' # newline_indent (i + 2)) (map (json_dump (i + 2)) vs)
        @ newline_indent i @ CHR '']'' # r) = Some (vs, r)" by blast
    with jval_array[OF _ solid_join[OF False]] el have
      "\<forall>m \<ge> n. \<forall>r. jval (Suc m) (CHR ''['' # newline_indent (i + 2)
        @ join (CHR '','' # newline_indent (i + 2)) (map (json_dump (i + 2)) vs)
        @ newline_indent i @ CHR '']'' # r) = Some (JArr vs, r)" by blast
    then show ?thesis using False unfolding reads_def
      by (intro above_Suc[of n]) (simp del: jval.simps)
  qed
next
  case (7 i kvs)
  show ?case
  proof (cases "kvs = []")
    case True
    then show ?thesis by (intro readsI) (simp add: startswith_def dict_of_pairs_def)
  next
    case False
    have sorted: "sort_key fst kvs = kvs" and dist: "dict_of_pairs kvs = kvs"
      using 7 by (simp_all add: sort_key_sorted dict_of_pairs_distinct sorted_keys_distinct)
    let ?g = "\<lambda>kv. json_string (fst kv) @ '': '' @ json_dump (i + 2) (snd kv)"
    have el: "\<forall>kv \<in> set kvs. reads (snd kv) (json_dump (i + 2) (snd kv))
        \<and> solid (json_dump (i + 2) (snd kv))"
      using 7 False by (simp add: json_dump_solid)
    have sol: "\<forall>kv \<in> set kvs. solid (?g kv)"
      by (simp add: solid_def json_string_def is_json_space_def)
    from reads_members[OF el False, of "i + 2" i] obtain n where
      "\<forall>m \<ge> n. \<forall>r. jmembers m (join (CHR '','' # newline_indent (i + 2)) (map ?g kvs)
        @ newline_indent i @ CHR ''}'' # r) = Some (kvs, r)" by blast
    with jval_object[OF _ solid_join[OF False sol]] have
      "\<forall>m \<ge> n. \<forall>r. jval (Suc m) (CHR ''{'' # newline_indent (i + 2)
        @ join (CHR '','' # newline_indent (i + 2)) (map ?g kvs)
        @ newline_indent i @ CHR ''}'' # r) = Some (JObj (dict_of_pairs kvs), r)" by blast
    then show ?thesis using False sorted dist unfolding reads_def
      by (intro above_Suc[of n]) (simp del: jval.simps)
  qed
qed (auto intro!: readsI simp: startswith_def jatom_def)

theorem json_roundtrip: "writes v \<Longrightarrow> json_loads (json_dumps v) = Some v"
proof -
  assume w: "writes v"
  let ?s = "json_dumps v"
  from writes_reads[OF w, of 0] obtain n where
    n: "\<And>m. n \<le> m \<Longrightarrow> jval m ?s = Some (v, [])"
    unfolding reads_def json_dumps_def by (metis append_Nil2 value_end_simps(3))
  have "jval (2 * length ?s + 2) ?s = jval (max n (2 * length ?s + 2)) ?s"
    by (rule jval_enough(1)) auto
  also have "\<dots> = Some (v, [])" by (rule n) simp
  moreover have "skip_ws ?s = ?s"
    using skip_ws_solid[OF json_dump_solid[OF w, of 0], of "[]"] by (simp add: json_dumps_def)
  ultimately show ?thesis by (simp add: json_loads_def)
qed

end
