(* ===== verification/Ssh.thy ===== *)
theory Ssh
  imports Json
begin

text \<open>
  \<^verbatim>\<open>src/vmdeploy/ssh_client.py\<close>. A \<open>RemoteHost\<close> object is a handle: its address and
  configuration, and the number under which the world keeps its \<open>_client\<close> and \<open>_sftp\<close> fields
  (set or \<open>None\<close>). Channel output arrives as the text the source decodes it to.
\<close>

record command_result =
  command :: string
  exit_status :: int
  stdout :: string
  stderr :: string

definition ok :: "command_result \<Rightarrow> bool" where
  "ok r \<longleftrightarrow> exit_status r = 0"

definition result_lines :: "command_result \<Rightarrow> string list" where
  "result_lines r = map strip (filter (\<lambda>line. strip line \<noteq> []) (splitlines (stdout r)))"

definition SUDO_PASSWORD_ENV :: string where
  "SUDO_PASSWORD_ENV = ''VMDEPLOY_SUDO_PASSWORD''"

definition RETRY_INTERVAL_MS :: int where
  "RETRY_INTERVAL_MS = 5000"

definition sudo_password :: "('e, string) prog" where
  "sudo_password = bnd (getenv SUDO_PASSWORD_ENV []) (\<lambda>password.
     if password = []
     then raise (SSHConnectionError
       (''Privileged remote commands require the '' @ SUDO_PASSWORD_ENV @ '' environment ''
        @ ''variable to be set, or passwordless sudo to be configured on the guest''))
     else ret password)"

record remote_host =
  address :: string
  host_ssh :: ssh_config
  host_id :: nat

subsection \<open>Opening and closing\<close>

definition new_host :: "string \<Rightarrow> ssh_config \<Rightarrow> ('e, remote_host) prog" where
  "new_host addr cfg = (\<lambda>w.
     (Inr \<lparr>address = addr, host_ssh = cfg, host_id = next_host w\<rparr>,
      w\<lparr>next_host := Suc (next_host w), clients := (clients w)(next_host w := False),
        sftps := (sftps w)(next_host w := False)\<rparr>))"

definition is_connected :: "remote_host \<Rightarrow> ('e, bool) prog" where
  "is_connected h = (\<lambda>w. (Inr (clients w (host_id h)), w))"

definition set_client :: "remote_host \<Rightarrow> bool \<Rightarrow> ('e, unit) prog" where
  "set_client h b = (\<lambda>w. (Inr (), w\<lparr>clients := (clients w)(host_id h := b)\<rparr>))"

definition set_sftp :: "remote_host \<Rightarrow> bool \<Rightarrow> ('e, unit) prog" where
  "set_sftp h b = (\<lambda>w. (Inr (), w\<lparr>sftps := (sftps w)(host_id h := b)\<rparr>))"

definition has_sftp :: "remote_host \<Rightarrow> ('e, bool) prog" where
  "has_sftp h = (\<lambda>w. (Inr (sftps w (host_id h)), w))"

text \<open>The property \<open>client\<close>: an error unless connected.\<close>

definition client :: "remote_host \<Rightarrow> ('e, unit) prog" where
  "client h = bnd (is_connected h) (\<lambda>c.
     if c then ret ()
     else raise (SSHConnectionError
       (''Not connected to '' @ address h @ ''; call connect() first'')))"

definition connect :: "'e env \<Rightarrow> remote_host \<Rightarrow> ('e, unit) prog" where
  "connect x h =
     (let cfg = host_ssh h; key_path = ssh_key_path cfg; who = ssh_user cfg in
      bnd (is_connected h) (\<lambda>already.
      if already then ret ()
      else bnd (is_file key_path) (\<lambda>present.
      if \<not> present
      then raise (SSHConnectionError (''SSH private key not found at '' @ path_str key_path))
      else bnd (ext_call (EvConnect (address h) who)
             (x_connect x (address h) who (path_str key_path) (connect_timeout_seconds cfg))) (\<lambda>out.
      case out of
        Connected \<Rightarrow> set_client h True
      | AuthFailed msg \<Rightarrow> raise (SSHConnectionError
          (''Authentication failed for '' @ who @ ''@'' @ address h
           @ '' using key '' @ path_str key_path @ '': '' @ msg))
      | Unreachable msg \<Rightarrow> raise (SSHConnectionError
          (''Cannot reach '' @ address h @ '' over SSH: '' @ msg))))))"

definition emit_close :: "remote_host \<Rightarrow> ('e, unit) prog" where
  "emit_close h = (\<lambda>w. (Inr (), w\<lparr>trace := trace w @ [EvClose (address h)]\<rparr>))"

definition close :: "remote_host \<Rightarrow> ('e, unit) prog" where
  "close h =
     andthen (set_sftp h False)
      (bnd (is_connected h) (\<lambda>c.
       only_if c (andthen (emit_close h) (set_client h False))))"

text \<open>\<open>with RemoteHost(addr, cfg) as host: body\<close>\<close>

definition with_host ::
  "'e env \<Rightarrow> string \<Rightarrow> ssh_config \<Rightarrow> (remote_host \<Rightarrow> ('e, 'a) prog) \<Rightarrow> ('e, 'a) prog" where
  "with_host x addr cfg body =
     bnd (new_host addr cfg) (\<lambda>h. andthen (connect x h) (always (body h) (close h)))"

subsection \<open>Commands\<close>

text \<open>\<open>client.exec_command(command, timeout=timeout)\<close> and the reads of the channel.\<close>

definition exec_command ::
  "'e env \<Rightarrow> remote_host \<Rightarrow> string \<Rightarrow> string option \<Rightarrow> int \<Rightarrow> ('e, exec_outcome) prog" where
  "exec_command x h cmd stdin timeout =
     andthen (client h)
       (ext_call (EvExec (address h) (ssh_user (host_ssh h)) cmd stdin)
          (x_exec x (address h) (ssh_user (host_ssh h)) cmd stdin timeout))"

definition timeout_or_default :: "remote_host \<Rightarrow> int option \<Rightarrow> int" where
  "timeout_or_default h timeout = (case timeout of
       None \<Rightarrow> command_timeout_seconds (host_ssh h)
     | Some t \<Rightarrow> if t = 0 then command_timeout_seconds (host_ssh h) else t)"

definition run_for ::
  "'e env \<Rightarrow> remote_host \<Rightarrow> string \<Rightarrow> bool \<Rightarrow> int option \<Rightarrow> ('e, command_result) prog" where
  "run_for x h cmd check timeout =
     bnd (exec_command x h cmd None (timeout_or_default h timeout)) (\<lambda>outcome.
     case outcome of
       ExecFailed msg \<Rightarrow> raise (SSHConnectionError
         (''Command failed on '' @ address h @ '': '' @ cmd @ '': '' @ msg))
     | ExecDone status out err \<Rightarrow>
         (let result = \<lparr>command = cmd, exit_status = status, stdout = out, stderr = err\<rparr>
          in if check \<and> \<not> ok result
             then raise (RemoteCommandError cmd status out err)
             else ret result))"

abbreviation run :: "'e env \<Rightarrow> remote_host \<Rightarrow> string \<Rightarrow> bool \<Rightarrow> ('e, command_result) prog" where
  "run x h cmd check \<equiv> run_for x h cmd check None"

definition escalated :: "string \<Rightarrow> string" where
  "escalated cmd = ''sudo -S -p '' @ [c_sq, c_sq] @ '' '' @ cmd"

definition sudo_for ::
  "'e env \<Rightarrow> remote_host \<Rightarrow> string \<Rightarrow> bool \<Rightarrow> int option \<Rightarrow> ('e, command_result) prog" where
  "sudo_for x h cmd check timeout =
     bnd (run_for x h (''sudo -n '' @ cmd) False timeout) (\<lambda>passwordless.
     if ok passwordless then ret passwordless
     else bnd sudo_password (\<lambda>password.
     bnd (exec_command x h (escalated cmd) (Some (password @ [c_nl])) (timeout_or_default h timeout))
       (\<lambda>outcome.
     case outcome of
       ExecFailed msg \<Rightarrow> raise (SSHConnectionError
         (''Privileged command failed on '' @ address h @ '': '' @ cmd @ '': '' @ msg))
     | ExecDone status out err \<Rightarrow>
         (let result = \<lparr>command = escalated cmd, exit_status = status, stdout = out, stderr = err\<rparr>
          in if check \<and> \<not> ok result
             then raise (RemoteCommandError (escalated cmd) status out err)
             else ret result))))"

abbreviation sudo :: "'e env \<Rightarrow> remote_host \<Rightarrow> string \<Rightarrow> bool \<Rightarrow> ('e, command_result) prog" where
  "sudo x h cmd check \<equiv> sudo_for x h cmd check None"

subsection \<open>Files\<close>

definition sftp :: "'e env \<Rightarrow> remote_host \<Rightarrow> ('e, unit) prog" where
  "sftp x h = bnd (has_sftp h) (\<lambda>present.
     if present then ret ()
     else andthen (client h)
       (bnd (ext_call (\<lambda>_. EvSftpOpen (address h)) (x_sftp_open x (address h))) (\<lambda>err.
        case err of
          Some msg \<Rightarrow> raise (SSHConnectionError
            (''Cannot open SFTP to '' @ address h @ '': '' @ msg))
        | None \<Rightarrow> set_sftp h True)))"

fun show_octal :: "nat \<Rightarrow> string" where
  "show_octal n = (if n < 8 then [digit_char n] else show_octal (n div 8) @ [digit_char (n mod 8)])"

declare show_octal.simps [simp del]

definition put_bytes :: "'e env \<Rightarrow> remote_host \<Rightarrow> bytes \<Rightarrow> string \<Rightarrow> nat \<Rightarrow> ('e, unit) prog" where
  "put_bytes x h payload remote_path mode =
     bnd (urandom 8) (\<lambda>rnd.
     let staging = ''/tmp/vmdeploy-'' @ hex_of rnd in
     andthen (sftp x h)
     (bnd (ext_call (EvSftpWrite (address h) staging payload)
             (x_sftp_write x (address h) staging payload)) (\<lambda>err.
     case err of
       Some fault \<Rightarrow> raise (SSHConnectionError
         (''Failed staging '' @ show_nat (length payload) @ '' bytes to '' @ address h @ '':''
          @ staging @ '': '' @ fault_text fault))
     | None \<Rightarrow>
         andthen (sudo x h (''install -D -m '' @ show_octal mode @ '' '' @ staging @ '' ''
                    @ remote_path) True)
         (andthen (run x h (''rm -f '' @ staging) False)
         (ret ())))))"

definition put_file :: "'e env \<Rightarrow> remote_host \<Rightarrow> path \<Rightarrow> string \<Rightarrow> nat \<Rightarrow> ('e, unit) prog" where
  "put_file x h local_path remote_path mode =
     bnd (catch (read_bytes local_path) (\<lambda>e. if is_OSError e
            then Some (raise (SSHConnectionError
              (''Cannot read local file '' @ path_str local_path @ '': '' @ exn_str e)))
            else None)) (\<lambda>payload.
     put_bytes x h payload remote_path mode)"

definition get_bytes :: "'e env \<Rightarrow> remote_host \<Rightarrow> string \<Rightarrow> ('e, bytes) prog" where
  "get_bytes x h remote_path =
     andthen (sftp x h)
     (bnd (ext_call (\<lambda>_. EvSftpRead (address h) remote_path)
             (x_sftp_read x (address h) remote_path)) (\<lambda>out.
     case out of
       Inl msg \<Rightarrow> raise (SSHConnectionError
         (''Cannot read '' @ address h @ '':'' @ remote_path @ '': '' @ msg))
     | Inr b \<Rightarrow> ret b))"

definition remote_hostname :: "'e env \<Rightarrow> remote_host \<Rightarrow> ('e, string) prog" where
  "remote_hostname x h = bnd (run x h ''hostname'' True) (\<lambda>r. ret (strip (stdout r)))"

definition primary_ipv4_command :: string where
  "primary_ipv4_command = ''hostname -I | tr '' @ [c_sq] @ '' '' @ [c_sq] @ '' '' @ [c_sq, c_bs]
     @ ''n'' @ [c_sq] @ '' | grep -E '' @ [c_sq] @ ''^[0-9]+('' @ [c_bs] @ ''.[0-9]+){3}$'' @ [c_sq]
     @ '' | head -n 1''"

definition primary_ipv4 :: "'e env \<Rightarrow> remote_host \<Rightarrow> ('e, string) prog" where
  "primary_ipv4 x h = bnd (run x h primary_ipv4_command False) (\<lambda>r. ret (strip (stdout r)))"

subsection \<open>Waiting for a guest\<close>

definition ssh_attempt :: "'e env \<Rightarrow> string \<Rightarrow> ssh_config \<Rightarrow> ('e, unit) prog" where
  "ssh_attempt x addr cfg = with_host x addr cfg (\<lambda>h. andthen (run x h ''true'' True) (ret ()))"

text \<open>A loop ends because every failed attempt sleeps, and the clock moves with it.\<close>

lemma clk_session_ops [evolve_intros]:
  "evolves clock_le (new_host addr cfg)" "evolves clock_le (is_connected h)"
  "evolves clock_le (set_client h b)" "evolves clock_le (set_sftp h b)"
  "evolves clock_le (has_sftp h)" "evolves clock_le (emit_close h)"
  by (simp_all add: evolves_def clock_le_def new_host_def is_connected_def set_client_def
      set_sftp_def has_sftp_def emit_close_def)

lemma clk_ssh_attempt: "evolves clock_le (ssh_attempt x addr cfg)"
  unfolding ssh_attempt_def with_host_def connect_def close_def run_for_def exec_command_def
    client_def Let_def
  by (intro evolve_intros)

lemma sleep_advances: "sleep x ms w = (Inr u, w') \<Longrightarrow> clock w + ms \<le> clock w'"
  by (auto simp: sleep_def run_simps split: prod.splits option.splits)

function wait_for_ssh_loop ::
  "'e env \<Rightarrow> string \<Rightarrow> ssh_config \<Rightarrow> int \<Rightarrow> int \<Rightarrow> nat \<Rightarrow> string \<Rightarrow> ('e, unit) prog" where
  "wait_for_ssh_loop x addr cfg timeout_seconds deadline attempt last_error w =
     (if clock w < deadline then
        (case ssh_attempt x addr cfg w of
           (Inr _, v) \<Rightarrow> (Inr (), v)
         | (Inl e, v) \<Rightarrow>
             if is_SSHConnectionError e then
               (case sleep x RETRY_INTERVAL_MS v of
                  (Inl e', u) \<Rightarrow> (Inl e', u)
                | (Inr _, u) \<Rightarrow> wait_for_ssh_loop x addr cfg timeout_seconds deadline (attempt + 1)
                    (exn_str e) u)
             else (Inl e, v))
      else raise (ProvisioningTimeoutError
        (addr @ '' did not accept SSH within '' @ show_int timeout_seconds @ ''s ''
         @ ''after '' @ show_nat attempt @ '' attempt(s); last error: '' @ last_error)) w)"
  by pat_completeness auto
termination
proof (relation "measure (\<lambda>(x, addr, cfg, t, deadline, n, l, w). nat (deadline - clock w))", goal_cases)
  case 1
  then show ?case by simp
next
  case (2 x addr cfg t deadline n l w a v e b u c)
  then have "clock w \<le> clock v"
    using evolvesD[OF clk_ssh_attempt, of x addr cfg w] by (metis clock_le_def)
  moreover have "clock v + RETRY_INTERVAL_MS \<le> clock u" using 2 by (metis sleep_advances)
  ultimately show ?case using 2(1) by (simp add: RETRY_INTERVAL_MS_def)
qed

declare wait_for_ssh_loop.simps [simp del]

definition wait_for_ssh :: "'e env \<Rightarrow> string \<Rightarrow> ssh_config \<Rightarrow> int \<Rightarrow> ('e, unit) prog" where
  "wait_for_ssh x addr cfg timeout_seconds = bnd monotonic (\<lambda>now.
     wait_for_ssh_loop x addr cfg timeout_seconds (now + 1000 * timeout_seconds) 0
       ''no attempt completed'')"


section \<open>How operations on a host change the world\<close>

lemma session_ops_keep [evolve_intros]:
  "evolves (keeps_files P) (new_host addr cfg)" "evolves (keeps_files P) (is_connected h)"
  "evolves (keeps_files P) (set_client h b)" "evolves (keeps_files P) (set_sftp h b)"
  "evolves (keeps_files P) (has_sftp h)" "evolves (keeps_files P) (emit_close h)"
  by (simp_all add: evolves_def keeps_files_def new_host_def is_connected_def set_client_def
      set_sftp_def has_sftp_def emit_close_def)

lemma session_ops_emit [evolve_intros]:
  "evolves (emits P) (new_host addr cfg)" "evolves (emits P) (is_connected h)"
  "evolves (emits P) (set_client h b)" "evolves (emits P) (set_sftp h b)" "evolves (emits P) (has_sftp h)"
  by (auto simp: evolves_def new_host_def is_connected_def set_client_def
      set_sftp_def has_sftp_def intro!: emits_same)

lemma emit_emit_close: "P (EvClose (address h)) \<Longrightarrow> evolves (emits P) (emit_close h)"
  by (simp add: evolves_def emits_def emit_close_def)

lemmas host_op_defs = connect_def close_def client_def exec_command_def run_for_def sudo_for_def
  sudo_password_def sftp_def put_bytes_def put_file_def get_bytes_def Let_def

lemma clk_host_ops [evolve_intros]:
  "evolves clock_le (connect x h)" "evolves clock_le (close h)"
  "evolves clock_le (run_for x h cmd c t)" "evolves clock_le (sudo_for x h cmd c t)"
  "evolves clock_le (sftp x h)" "evolves clock_le (put_bytes x h b p m)"
  "evolves clock_le (put_file x h q p m)" "evolves clock_le (get_bytes x h p)"
  unfolding host_op_defs by (intro evolve_intros | auto split: if_splits intro!: evolve_intros)+

lemma keep_host_ops [evolve_intros]:
  "evolves (keeps_files P) (connect x h)" "evolves (keeps_files P) (close h)"
  "evolves (keeps_files P) (run_for x h cmd c t)" "evolves (keeps_files P) (sudo_for x h cmd c t)"
  "evolves (keeps_files P) (sftp x h)" "evolves (keeps_files P) (put_bytes x h b p m)"
  "evolves (keeps_files P) (put_file x h q p m)" "evolves (keeps_files P) (get_bytes x h p)"
  unfolding host_op_defs by (intro evolve_intros | auto split: if_splits intro!: evolve_intros)+

lemma leak_readers [evolve_intros]:
  "evolves no_leak (is_connected h)" "evolves no_leak (has_sftp h)" "evolves no_leak (emit_close h)"
  by (auto simp: evolves_def is_connected_def has_sftp_def emit_close_def intro!: no_leak_same)

lemma leak_run [evolve_intros]:
  "evolves no_leak (run_for x h cmd c t)" "evolves no_leak (sudo_for x h cmd c t)"
  unfolding host_op_defs by (intro evolve_intros | auto split: if_splits intro!: evolve_intros)+

lemma leak_sftp [evolve_intros]: "evolves no_leak (sftp x h)"
  by (auto simp: evolves_def sftp_def client_def is_connected_def has_sftp_def set_sftp_def
      run_simps no_leak_def split: prod.splits option.splits)

lemma leak_close [evolve_intros]: "evolves no_leak (close h)"
  by (auto simp: evolves_def close_def set_sftp_def is_connected_def set_client_def emit_close_def
      run_simps no_leak_def)

lemma leak_files [evolve_intros]:
  "evolves no_leak (put_bytes x h b p m)" "evolves no_leak (put_file x h q p m)"
  "evolves no_leak (get_bytes x h p)"
  unfolding put_bytes_def put_file_def get_bytes_def Let_def
  by (intro evolve_intros | auto split: if_splits intro!: evolve_intros)+

lemma connect_outcome_world:
  assumes "connect x h w = (r, v)"
  shows "next_host v = next_host w" "sftps v = sftps w"
    "\<forall>i. i \<noteq> host_id h \<longrightarrow> clients v i = clients w i" "\<exists>e. r = Inl e \<Longrightarrow> clients v = clients w"
  using assms
  by (auto simp: connect_def Let_def is_connected_def set_client_def run_simps
      split: prod.splits option.splits connect_outcome.splits if_splits)

lemma close_world:
  "snd (close h w) = w\<lparr>clients := (clients w)(host_id h := False), sftps := (sftps w)(host_id h := False),
     trace := trace w @ (if clients w (host_id h) then [EvClose (address h)] else [])\<rparr>"
  "fst (close h w) = Inr ()"
  by (auto simp: close_def set_sftp_def is_connected_def set_client_def emit_close_def run_simps
      fun_upd_idem)

lemma leak_with_host [evolve_intros]:
  assumes body: "\<And>h. evolves no_leak (body h)"
  shows "evolves no_leak (with_host x addr cfg body)"
proof (rule evolvesI)
  fix w :: "'a world"
  define h where "h = \<lparr>address = addr, host_ssh = cfg, host_id = next_host w\<rparr>"
  define u where "u = w\<lparr>next_host := Suc (next_host w), clients := (clients w)(next_host w := False),
    sftps := (sftps w)(next_host w := False)\<rparr>"
  obtain r v where c: "connect x h u = (r, v)" by (cases "connect x h u")
  note cw = connect_outcome_world[OF c]
  obtain s z where b: "body h v = (s, z)" by (cases "body h v")
  have bz: "no_leak v z" using body b by (metis evolvesD)
  have eq: "with_host x addr cfg body w = (case r of Inl e \<Rightarrow> (Inl e, v) | Inr _ \<Rightarrow> (s, snd (close h z)))"
    using b c close_world(2)[of h z]
    by (cases "close h z") (auto simp: with_host_def new_host_def run_simps h_def u_def split: sum.splits)
  show "no_leak w (snd (with_host x addr cfg body w))"
  proof (cases r)
    case (Inl e)
    then show ?thesis using cw unfolding eq by (auto simp: no_leak_def u_def)
  next
    case (Inr a)
    then show ?thesis using cw bz unfolding eq
      by (auto simp: no_leak_def u_def h_def close_world not_less_eq_eq)
  qed
qed

lemma keep_with_host [evolve_intros]:
  "(\<And>h. evolves (keeps_files P) (body h)) \<Longrightarrow> evolves (keeps_files P) (with_host x addr cfg body)"
  unfolding with_host_def by (intro evolve_intros)

lemma clk_with_host [evolve_intros]:
  "(\<And>h. evolves clock_le (body h)) \<Longrightarrow> evolves clock_le (with_host x addr cfg body)"
  unfolding with_host_def by (intro evolve_intros)

lemma emit_run:
  "(\<And>out. P (EvExec (address h) (ssh_user (host_ssh h)) cmd None out)) \<Longrightarrow>
   evolves (emits P) (run_for x h cmd c t)"
  unfolding host_op_defs
  by (intro evolve_intros emit_ext_call | auto split: if_splits intro!: evolve_intros emit_ext_call)+

lemma emit_sudo:
  "(\<And>out. P (EvExec (address h) (ssh_user (host_ssh h)) (''sudo -n '' @ cmd) None out)) \<Longrightarrow>
   (\<And>pw out. P (EvExec (address h) (ssh_user (host_ssh h)) (escalated cmd) (Some pw) out)) \<Longrightarrow>
   evolves (emits P) (sudo_for x h cmd c t)"
  unfolding sudo_for_def sudo_password_def exec_command_def client_def Let_def
  by (intro evolve_intros emit_ext_call emit_run
      | auto split: if_splits intro!: evolve_intros emit_ext_call emit_run)+

lemma emit_close_host: "P (EvClose (address h)) \<Longrightarrow> evolves (emits P) (close h)"
  unfolding close_def by (intro evolve_intros emit_emit_close)

lemma emit_connect:
  "(\<And>out. P (EvConnect (address h) (ssh_user (host_ssh h)) out)) \<Longrightarrow> evolves (emits P) (connect x h)"
  unfolding connect_def Let_def by (intro evolve_intros emit_ext_call) auto

lemma throws_session_ops [throws_intros]:
  "throws P (new_host addr cfg)" "throws P (is_connected h)" "throws P (set_client h b)"
  "throws P (set_sftp h b)" "throws P (has_sftp h)" "throws P (emit_close h)" "throws P (close h)"
  by (simp_all add: throws_def new_host_def is_connected_def set_client_def set_sftp_def has_sftp_def
      emit_close_def close_world)

text \<open>What a session may raise: a connection error, a failed command, an interrupt.\<close>

definition ssh_exn :: "exn \<Rightarrow> bool" where
  "ssh_exn e \<longleftrightarrow> is_SSHConnectionError e \<or> is_RemoteCommandError e \<or> e = KeyboardInterrupt"

lemma ssh_exn_simps [simp]:
  "ssh_exn (SSHConnectionError s)" "ssh_exn (RemoteCommandError c n a b)" "ssh_exn KeyboardInterrupt"
  by (simp_all add: ssh_exn_def)

lemma throws_host_ops [throws_intros]:
  "throws ssh_exn (connect x h)" "throws ssh_exn (run_for x h cmd c t)"
  "throws ssh_exn (sudo_for x h cmd c t)" "throws ssh_exn (sftp x h)"
  "throws ssh_exn (put_bytes x h b p m)" "throws ssh_exn (get_bytes x h p)"
  unfolding host_op_defs
  by (intro throws_intros | auto split: if_splits intro!: throws_intros)+

lemma throws_put_file [throws_intros]: "throws ssh_exn (put_file x h q p m)"
  unfolding put_file_def
  by (intro throws_intros throws_catch[where Q = is_OSError])
    (auto split: if_splits intro!: throws_intros)

lemma throws_with_host [throws_intros]:
  "(\<And>e. ssh_exn e \<Longrightarrow> P e) \<Longrightarrow> (\<And>h. throws P (body h)) \<Longrightarrow> throws P (with_host x addr cfg body)"
  unfolding with_host_def
  by (intro throws_intros throws_mono[OF throws_host_ops(1)]) auto

section \<open>Properties\<close>

lemma run_exec_command:
  "exec_command x h cmd stdin t w =
     (if clients w (host_id h)
      then ext_call (EvExec (address h) (ssh_user (host_ssh h)) cmd stdin)
             (x_exec x (address h) (ssh_user (host_ssh h)) cmd stdin t) w
      else (Inl (SSHConnectionError (''Not connected to '' @ address h @ ''; call connect() first'')), w))"
  by (simp add: exec_command_def client_def is_connected_def run_simps)

text \<open>
  C14: what \<open>sudo\<close> sends. It runs nothing, or the command under \<open>sudo -n\<close>, or that and then the
  command under \<open>sudo -S\<close> with the password on standard input. The second happens exactly when the
  first ended with a non-zero status, whatever the reason, and a password is configured: a command
  that merely fails on a host with passwordless sudo makes the password be sent as well. Neither
  command line contains anything but the fixed prefix and the caller's command, so the password
  never reaches a process table. A checked call that returns had status zero.
\<close>

theorem sudo_password_only_on_stdin:
  "case sudo_for x h cmd check t w of (r, w') \<Rightarrow>
     let ev = EvExec (address h) (ssh_user (host_ssh h));
         pw = (case dget (environ w) SUDO_PASSWORD_ENV of Some s \<Rightarrow> s | None \<Rightarrow> []);
         first = ''sudo -n '' @ cmd; second = ''sudo -S -p '' @ [c_sq, c_sq] @ '' '' @ cmd
     in (trace w' = trace w
         \<or> (\<exists>out. trace w' = trace w @ [ev first None out])
         \<or> (\<exists>status out err out'. status \<noteq> 0 \<and> pw \<noteq> [] \<and>
              trace w' = trace w @ [ev first None (Some (ExecDone status out err)), ev second (Some (pw @ [c_nl])) out']))
        \<and> ((\<exists>before out'. trace w' = before @ [ev second (Some (pw @ [c_nl])) out'] \<and> length (trace w) < length before)
           \<longleftrightarrow> clients w (host_id h) \<and> pw \<noteq> []
             \<and> (case x_exec x (address h) (ssh_user (host_ssh h)) first None (timeout_or_default h t) (ext w) of
                  (Some (ExecDone status out err), _, _) \<Rightarrow> status \<noteq> 0
                | _ \<Rightarrow> False))
        \<and> gives (if check then ok else (\<lambda>_. True)) r"
  by (auto simp: sudo_for_def run_for_def run_exec_command run_simps sudo_password_def escalated_def Let_def
      gives_def ok_def split: prod.splits option.splits exec_outcome.splits if_splits)

lemma run_run_for:
  "run_for x h cmd check t w =
     (if \<not> clients w (host_id h)
      then (Inl (SSHConnectionError (''Not connected to '' @ address h @ ''; call connect() first'')), w)
      else case x_exec x (address h) (ssh_user (host_ssh h)) cmd None (timeout_or_default h t) (ext w) of
        (out, dt, s) \<Rightarrow>
          let v = w\<lparr>ext := s, clock := clock w + int dt,
                trace := trace w @ [EvExec (address h) (ssh_user (host_ssh h)) cmd None out]\<rparr>
          in (case out of
                None \<Rightarrow> (Inl KeyboardInterrupt, v)
              | Some (ExecFailed msg) \<Rightarrow> (Inl (SSHConnectionError
                  (''Command failed on '' @ address h @ '': '' @ cmd @ '': '' @ msg)), v)
              | Some (ExecDone status out err) \<Rightarrow>
                  if check \<and> status \<noteq> 0 then (Inl (RemoteCommandError cmd status out err), v)
                  else (Inr \<lparr>command = cmd, exit_status = status, stdout = out, stderr = err\<rparr>, v)))"
  by (auto simp: run_for_def run_exec_command run_simps Let_def ok_def
      split: prod.splits option.splits exec_outcome.splits)

lemma sudo_True_trace:
  assumes "sudo_for x h cmd True t w = (Inr res, w')"
  shows "\<exists>es c stdin out err. trace w' = trace w
      @ es @ [EvExec (address h) (ssh_user (host_ssh h)) c stdin (Some (ExecDone 0 out err))]
    \<and> (c = ''sudo -n '' @ cmd \<or> c = escalated cmd)"
  using assms
  by (auto simp: sudo_for_def run_run_for run_exec_command run_simps sudo_password_def Let_def ok_def
      split: prod.splits option.splits exec_outcome.splits if_splits)

lemma run_False_trace:
  assumes "run_for x h cmd c t w = (Inr res, w')"
  shows "\<exists>out. trace w' = trace w @ [EvExec (address h) (ssh_user (host_ssh h)) cmd None out]"
  using assms by (auto simp: run_run_for Let_def split: prod.splits option.splits exec_outcome.splits if_splits)

lemma sftp_trace:
  "sftp x h w = (Inr u, w') \<Longrightarrow> trace w' = trace w \<or> trace w' = trace w @ [EvSftpOpen (address h)]"
  by (auto simp: sftp_def client_def is_connected_def has_sftp_def set_sftp_def run_simps
      split: prod.splits option.splits if_splits)

lemma urandom_trace: "urandom n w = (r, w') \<Longrightarrow> trace w' = trace w"
  by (auto simp: run_simps)

lemma sftp_write_trace:
  "ext_call (EvSftpWrite a p b) (x_sftp_write x a p b) w = (Inr None, w') \<Longrightarrow>
   trace w' = trace w @ [EvSftpWrite a p b (Some None)]"
  by (auto simp: run_simps split: prod.splits option.splits)

lemma put_bytes_trace:
  assumes "put_bytes x h payload dest mode w = (Inr u, w')"
  shows "\<exists>es es' c stdin out err out'.
    let staging = ''/tmp/vmdeploy-'' @ hex_of (map (entropy w) [drawn w..<drawn w + 8]);
        installing = ''install -D -m '' @ show_octal mode @ '' '' @ staging @ '' '' @ dest;
        ev = EvExec (address h) (ssh_user (host_ssh h))
    in trace w' = trace w @ es @ [EvSftpWrite (address h) staging payload (Some None)] @ es'
         @ [ev c stdin (Some (ExecDone 0 out err)), ev (''rm -f '' @ staging) None out']
       \<and> (c = ''sudo -n '' @ installing \<or> c = escalated installing)"
proof -
  define staging where "staging = ''/tmp/vmdeploy-'' @ hex_of (map (entropy w) [drawn w..<drawn w + 8])"
  define installing where "installing = ''install -D -m '' @ show_octal mode @ '' '' @ staging @ '' '' @ dest"
  from assms obtain w1 w2 w3 w4 w5 r4 r5 u2 where
    w1: "urandom 8 w = (Inr (map (entropy w) [drawn w..<drawn w + 8]), w1)"
    and w2: "sftp x h w1 = (Inr u2, w2)"
    and w3: "ext_call (EvSftpWrite (address h) staging payload)
        (x_sftp_write x (address h) staging payload) w2 = (Inr None, w3)"
    and w4: "sudo x h installing True w3 = (Inr r4, w4)"
    and w5: "run x h (''rm -f '' @ staging) False w4 = (Inr r5, w5)" and "w' = w5"
    unfolding put_bytes_def Let_def run_inv staging_def installing_def
    by (elim exE conjE) (auto simp: run_inv run_simps(7) urandom_def split: option.splits)
  moreover obtain es where "trace w2 = trace w1 @ es"
    using sftp_trace[OF w2] by auto
  moreover obtain es' c stdin out err where "trace w4 = trace w3 @ es'
      @ [EvExec (address h) (ssh_user (host_ssh h)) c stdin (Some (ExecDone 0 out err))]"
    "c = ''sudo -n '' @ installing \<or> c = escalated installing"
    using sudo_True_trace[OF w4] by auto
  ultimately show ?thesis
    using urandom_trace[OF w1] sftp_write_trace[OF w3] run_False_trace[OF w5]
    unfolding Let_def staging_def[symmetric] installing_def[symmetric] by fastforce
qed

text \<open>
  C34: an upload that returns has delivered: the payload was written, whole and acknowledged, to a
  staging file whose name is sixteen fresh random hex digits; after that an \<open>install\<close> of that
  very file to the destination with the requested mode ended with status zero under \<open>sudo\<close>. The
  staging file is one of \<open>/tmp\<close>; the last command asks for its removal, and how that command ends is
  not looked at.
\<close>

theorem put_bytes_delivers:
  assumes "put_bytes x h payload dest mode w = (Inr u, w')"
  shows "\<exists>es es' c stdin out err out'.
    let staging = ''/tmp/vmdeploy-'' @ hex_of (map (entropy w) [drawn w..<drawn w + 8]);
        installing = ''install -D -m '' @ show_octal mode @ '' '' @ staging @ '' '' @ dest;
        ev = EvExec (address h) (ssh_user (host_ssh h))
    in trace w' = trace w @ es @ [EvSftpWrite (address h) staging payload (Some None)] @ es'
         @ [ev c stdin (Some (ExecDone 0 out err)), ev (''rm -f '' @ staging) None out']
       \<and> (c = ''sudo -n '' @ installing \<or> c = escalated installing)"
  using assms by (rule put_bytes_trace)

definition quiet_host :: remote_host where
  "quiet_host = \<lparr>address = ''10.0.0.5'', host_ssh = cfg_ssh sample_config, host_id = 0\<rparr>"

theorem put_bytes_delivers_witness:
  "\<exists>(w' :: unit world) es es' c stdin out err out'.
     trace w' = es @ [EvSftpWrite ''10.0.0.5'' ''/tmp/vmdeploy-0000000000000000'' [1, 2] (Some None)] @ es'
       @ [EvExec ''10.0.0.5'' ''ops'' c stdin (Some (ExecDone 0 out err)),
          EvExec ''10.0.0.5'' ''ops'' ''rm -f /tmp/vmdeploy-0000000000000000'' None out']"
proof -
  let ?w = "quiet_world\<lparr>clients := (\<lambda>_. True)\<rparr>"
  obtain r w' where run: "put_bytes quiet_env quiet_host [1, 2] ''/etc/motd'' 420 ?w = (r, w')"
    by (cases "put_bytes quiet_env quiet_host [1, 2] ''/etc/motd'' 420 ?w")
  have "r = Inr ()"
    using run by (auto simp: put_bytes_def sftp_def sudo_for_def run_run_for run_exec_command run_simps
        client_def is_connected_def has_sftp_def set_sftp_def Let_def ok_def quiet_env_def quiet_world_def)
  note d = put_bytes_delivers[OF run[unfolded this], unfolded Let_def]
  have "hex_of (map (entropy ?w) [drawn ?w..<drawn ?w + 8]) = ''0000000000000000''"
    by (simp add: quiet_world_def hex_of_def hex_digit_def upt_rec) code_simp
  then have e: "''/tmp/vmdeploy-'' @ hex_of (map (entropy ?w) [drawn ?w..<drawn ?w + 8])
      = ''/tmp/vmdeploy-0000000000000000''"
    "address quiet_host = ''10.0.0.5''" "ssh_user (host_ssh quiet_host) = ''ops''"
    by (simp_all add: quiet_host_def sample_config_def)
  from d[unfolded e] obtain es es' c stdin out err out' where "trace w' = trace ?w @ es
      @ [EvSftpWrite ''10.0.0.5'' ''/tmp/vmdeploy-0000000000000000'' [1, 2] (Some None)] @ es'
      @ [EvExec ''10.0.0.5'' ''ops'' c stdin (Some (ExecDone 0 out err)),
         EvExec ''10.0.0.5'' ''ops'' (''rm -f '' @ ''/tmp/vmdeploy-0000000000000000'') None out']" by blast
  then show ?thesis by (simp add: quiet_world_def) blast
qed

lemma ssh_attempt_ok:
  assumes "ssh_attempt x addr cfg w = (Inr u, w')"
  shows "\<exists>out err. trace w' = trace w @ [EvConnect addr (ssh_user cfg) (Some Connected),
    EvExec addr (ssh_user cfg) ''true'' None (Some (ExecDone 0 out err)), EvClose addr]"
proof -
  from assms obtain h v1 v2 r4 where
    n: "new_host addr cfg w = (Inr h, v1)" and c: "connect x h v1 = (Inr (), v2)"
    and b: "always (andthen (run x h ''true'' True) (ret ())) (close h) v2 = (Inr u, w')"
    unfolding ssh_attempt_def with_host_def run_inv by auto
  have h: "address h = addr" "host_ssh h = cfg" "\<not> clients v1 (host_id h)" "trace v1 = trace w"
    using n by (auto simp: new_host_def)
  have t2: "trace v2 = trace w @ [EvConnect addr (ssh_user cfg) (Some Connected)]" "clients v2 (host_id h)"
    using c h by (auto simp: connect_def is_connected_def set_client_def run_simps Let_def
        split: prod.splits option.splits connect_outcome.splits if_splits)
  obtain r v3 where r: "run x h ''true'' True v2 = (r, v3)" by (cases "run x h ''true'' True v2")
  have w': "w' = snd (close h v3)" and "\<exists>res. r = Inr res"
    using b r close_world(2)[of h v3] by (cases "close h v3"; auto simp: run_simps split: sum.splits)+
  then show ?thesis
    using r t2 h
    by (auto simp: run_run_for close_world Let_def split: prod.splits option.splits exec_outcome.splits if_splits)
qed

lemma leak_ssh_attempt [evolve_intros]: "evolves no_leak (ssh_attempt x addr cfg)"
  and keep_ssh_attempt [evolve_intros]: "evolves (keeps_files P) (ssh_attempt x addr cfg)"
  and throws_ssh_attempt: "throws ssh_exn (ssh_attempt x addr cfg)"
  unfolding ssh_attempt_def by (intro evolve_intros throws_intros; simp)+

text \<open>A relation that the attempts and the pauses keep is kept by the loop.\<close>

lemma wait_loop_evolves:
  assumes R: "evolution R" and "evolves R (ssh_attempt x addr cfg)" and "evolves R (sleep x RETRY_INTERVAL_MS)"
  shows "R w (snd (wait_for_ssh_loop x addr cfg t d n l w))"
  using assms(2,3)
proof (induction x addr cfg t d n l w rule: wait_for_ssh_loop.induct)
  case (1 x addr cfg t d n l w)
  obtain r v where a: "ssh_attempt x addr cfg w = (r, v)" by (cases "ssh_attempt x addr cfg w")
  obtain s u where s: "sleep x RETRY_INTERVAL_MS v = (s, u)" by (cases "sleep x RETRY_INTERVAL_MS v")
  have "R w v" and "R v u" using evolvesD[OF 1(2) a] evolvesD[OF 1(3) s] .
  then show ?case
    using 1 a s evolution.refl[OF R] evolution.trans[OF R]
    by (subst wait_for_ssh_loop.simps) (auto simp: run_simps split: sum.splits)
qed

lemma evolves_wait_for_ssh:
  assumes "evolution R" "evolves R (ssh_attempt x addr cfg)" "evolves R (sleep x RETRY_INTERVAL_MS)"
  shows "evolves R (wait_for_ssh x addr cfg t)"
  unfolding wait_for_ssh_def
  by (intro evolution.ev_bnd[OF assms(1)] evolution.ev_reader[OF assms(1)] evolvesI wait_loop_evolves[OF assms])

text \<open>The events of a wait for a guest.\<close>

definition awaits :: "string \<Rightarrow> string \<Rightarrow> event \<Rightarrow> bool" where
  "awaits addr user ev = (case ev of
       EvConnect a u _ \<Rightarrow> a = addr \<and> u = user
     | EvExec a u c stdin _ \<Rightarrow> a = addr \<and> u = user \<and> c = ''true'' \<and> stdin = None
     | EvClose a \<Rightarrow> a = addr
     | EvSleep _ \<Rightarrow> True
     | _ \<Rightarrow> False)"

lemma emit_ssh_attempt: "evolves (emits (awaits addr (ssh_user cfg))) (ssh_attempt x addr cfg)"
proof (rule evolvesI)
  fix w :: "'a world"
  let ?h = "\<lparr>address = addr, host_ssh = cfg, host_id = next_host w\<rparr>"
  have "evolves (emits (awaits addr (ssh_user cfg)))
      (andthen (connect x ?h) (always (andthen (run x ?h ''true'' True) (ret ())) (close ?h)))"
    by (intro evolve_intros emit_connect emit_run emit_close_host) (simp_all add: awaits_def)
  then have "emits (awaits addr (ssh_user cfg)) (snd (new_host addr cfg w))
      (snd (andthen (connect x ?h) (always (andthen (run x ?h ''true'' True) (ret ())) (close ?h))
        (snd (new_host addr cfg w))))" by (simp add: evolves_def)
  then show "emits (awaits addr (ssh_user cfg)) w (snd (ssh_attempt x addr cfg w))"
    by (simp add: ssh_attempt_def with_host_def run_simps(3) new_host_def emits_def)
qed

lemma emit_wait_for_ssh: "evolves (emits (awaits addr (ssh_user cfg))) (wait_for_ssh x addr cfg t)"
  by (rule evolves_wait_for_ssh[OF emit.evolution_axioms emit_ssh_attempt emit_sleep]) (simp add: awaits_def)

lemma wait_for_ssh_kept [evolve_intros]:
  "evolves (keeps_files P) (wait_for_ssh x addr cfg t)" "evolves no_leak (wait_for_ssh x addr cfg t)"
  "evolves clock_le (wait_for_ssh x addr cfg t)"
  by (rule evolves_wait_for_ssh; (intro evolve_intros clk_ssh_attempt)?; simp add: RETRY_INTERVAL_MS_def)+

lemma wait_loop_outcome:
  "case wait_for_ssh_loop x addr cfg t d n l w of (r, w') \<Rightarrow>
     (r = Inr () \<longrightarrow> (\<exists>es out err. trace w' = es @ [EvConnect addr (ssh_user cfg) (Some Connected),
        EvExec addr (ssh_user cfg) ''true'' None (Some (ExecDone 0 out err)), EvClose addr]))
     \<and> fails_as (\<lambda>e. is_ProvisioningTimeoutError e \<and> d \<le> clock w' \<or> is_RemoteCommandError e
          \<or> e = KeyboardInterrupt) r"
proof (induction x addr cfg t d n l w rule: wait_for_ssh_loop.induct)
  case (1 x addr cfg t d n l w)
  obtain r v where a: "ssh_attempt x addr cfg w = (r, v)" by (cases "ssh_attempt x addr cfg w")
  obtain s u where s: "sleep x RETRY_INTERVAL_MS v = (s, u)" by (cases "sleep x RETRY_INTERVAL_MS v")
  show ?case
  proof (cases "clock w < d")
    case False
    then show ?thesis by (subst wait_for_ssh_loop.simps) (simp add: run_simps)
  next
    case live: True
    show ?thesis
    proof (cases r)
      case (Inr u')
      then show ?thesis using live ssh_attempt_ok[of x addr cfg w u' v] a
        by (subst wait_for_ssh_loop.simps) auto
    next
      case (Inl e)
      have "ssh_exn e" using a Inl throws_ssh_attempt by (metis throwsD)
      moreover have "e' = KeyboardInterrupt" if "s = Inl e'" for e'
        using s that throws_sleep[of "\<lambda>e. e = KeyboardInterrupt" x] by (auto dest: throwsD)
      ultimately show ?thesis using live a s Inl 1[OF live a[symmetric] Inl]
        by (subst wait_for_ssh_loop.simps) (auto simp: ssh_exn_def split: sum.splits)
    qed
  qed
qed

text \<open>
  C24: waiting for a guest always ends. When it returns, the last things it did were a connection
  that was accepted and a command that ended with status zero over it, then the close. A timeout
  is reported only once the whole time has passed; connection errors never escape. Whatever the
  outcome no session stays open and no local file changes.
\<close>

theorem wait_for_ssh_outcome:
  "case wait_for_ssh x addr cfg t w of (r, w') \<Rightarrow>
     (r = Inr () \<longrightarrow> (\<exists>es out err. trace w' = es @ [EvConnect addr (ssh_user cfg) (Some Connected),
        EvExec addr (ssh_user cfg) ''true'' None (Some (ExecDone 0 out err)), EvClose addr]))
     \<and> fails_as (\<lambda>e. is_ProvisioningTimeoutError e \<and> clock w + 1000 * t \<le> clock w'
          \<or> is_RemoteCommandError e \<or> e = KeyboardInterrupt) r
     \<and> no_leak w w' \<and> files w' = files w"
proof -
  obtain r w' where run: "wait_for_ssh_loop x addr cfg t (clock w + 1000 * t) 0 ''no attempt completed'' w
      = (r, w')" by fastforce
  have "no_leak w w'" and "keeps_files (\<lambda>_. True) w w'"
    using wait_loop_evolves[where R = no_leak and w = w and x = x, OF leak.evolution_axioms]
      wait_loop_evolves[where R = "keeps_files (\<lambda>_. True)" and w = w and x = x, OF keep.evolution_axioms] run
    by (metis evolve_intros snd_conv)+
  then show ?thesis
    using wait_loop_outcome[where x = x and addr = addr and cfg = cfg and t = t and w = w
      and d = "clock w + 1000 * t" and n = 0 and l = "''no attempt completed''"] run
    by (auto simp: wait_for_ssh_def run_simps keeps_files_def)
qed

theorem wait_for_ssh_outcome_witness:
  "\<exists>es out err. trace (snd (wait_for_ssh quiet_env ''10.0.0.5'' \<lparr>ssh_user = ''ops'',
       ssh_key_path = quiet_key, connect_timeout_seconds = 5, command_timeout_seconds = 5\<rparr> 60 quiet_world))
     = es @ [EvConnect ''10.0.0.5'' ''ops'' (Some Connected),
        EvExec ''10.0.0.5'' ''ops'' ''true'' None (Some (ExecDone 0 out err)), EvClose ''10.0.0.5'']"
proof -
  let ?cfg = "\<lparr>ssh_user = ''ops'', ssh_key_path = quiet_key, connect_timeout_seconds = 5,
    command_timeout_seconds = 5\<rparr>"
  obtain r w' where run: "wait_for_ssh quiet_env ''10.0.0.5'' ?cfg 60 quiet_world = (r, w')"
    by (cases "wait_for_ssh quiet_env ''10.0.0.5'' ?cfg 60 quiet_world")
  obtain v where "ssh_attempt quiet_env ''10.0.0.5'' ?cfg quiet_world = (Inr (), v)"
    by (simp add: ssh_attempt_def with_host_def new_host_def connect_def close_def run_run_for run_simps
        is_connected_def set_client_def set_sftp_def emit_close_def Let_def quiet_env_def quiet_world_def)
  moreover have "clock quiet_world = 0" by (simp add: quiet_world_def)
  ultimately have "r = Inr ()"
    using run by (simp add: wait_for_ssh_def run_simps wait_for_ssh_loop.simps)
  then show ?thesis
    using wait_for_ssh_outcome[where x = quiet_env and addr = "''10.0.0.5''" and cfg = ?cfg and t = 60
      and w = quiet_world] run by simp
qed

section \<open>Programs on a session\<close>

text \<open>
  What a program that works over one session asks of a relation: that the operations of the
  session keep it. The components that configure a guest prove their effects from this.
\<close>

locale guest_session = evolution R for R :: "'e world \<Rightarrow> 'e world \<Rightarrow> bool" +
  fixes x :: "'e env" and h :: remote_host
  assumes ev_run [evolve_intros]: "evolves R (run_for x h cmd c t)"
    and ev_sudo [evolve_intros]: "evolves R (sudo_for x h cmd c t)"
    and ev_put_bytes [evolve_intros]: "evolves R (put_bytes x h b p m)"
    and ev_get_bytes [evolve_intros]: "evolves R (get_bytes x h p)"

text \<open>An event of the session with \<open>addr\<close>, and no other.\<close>

definition at_address :: "string \<Rightarrow> event \<Rightarrow> bool" where
  "at_address addr ev = (case ev of
       EvConnect a _ _ \<Rightarrow> a = addr | EvClose a \<Rightarrow> a = addr | EvExec a _ _ _ _ \<Rightarrow> a = addr
     | EvSftpOpen a \<Rightarrow> a = addr | EvSftpWrite a _ _ _ \<Rightarrow> a = addr | EvSftpRead a _ \<Rightarrow> a = addr
     | _ \<Rightarrow> False)"

lemma emit_session:
  assumes P: "\<And>ev. at_address (address h) ev \<Longrightarrow> P ev"
  shows "evolves (emits P) (run_for x h cmd c t)" "evolves (emits P) (sudo_for x h cmd c t)"
    "evolves (emits P) (sftp x h)" "evolves (emits P) (put_bytes x h b p m)"
    "evolves (emits P) (get_bytes x h p)" "evolves (emits P) (connect x h)" "evolves (emits P) (close h)"
proof -
  note at = at_address_def
  show run: "evolves (emits P) (run_for x h cmd c t)" for cmd c t
    by (rule emit_run, rule P) (simp add: at)
  show sudo: "evolves (emits P) (sudo_for x h cmd c t)" for cmd c t
    by (rule emit_sudo; rule P) (simp_all add: at)
  show sftp: "evolves (emits P) (sftp x h)"
    unfolding sftp_def client_def
    by (intro evolve_intros emit_ext_call P) (simp add: at)
  show "evolves (emits P) (put_bytes x h b p m)"
    unfolding put_bytes_def Let_def
    by (intro evolve_intros emit_ext_call P run sudo sftp) (simp add: at)
  show "evolves (emits P) (get_bytes x h p)"
    unfolding get_bytes_def
    by (intro evolve_intros emit_ext_call P sftp) (simp add: at)
  show "evolves (emits P) (connect x h)" by (rule emit_connect, rule P) (simp add: at)
  show "evolves (emits P) (close h)" by (rule emit_close_host, rule P) (simp add: at)
qed

lemma emit_with_host:
  assumes P: "\<And>ev. at_address addr ev \<Longrightarrow> P ev"
    and body: "\<And>h. address h = addr \<Longrightarrow> evolves (emits P) (body h)"
  shows "evolves (emits P) (with_host x addr cfg body)"
proof (rule evolvesI)
  fix w :: "'a world"
  define h where "h = \<lparr>address = addr, host_ssh = cfg, host_id = next_host w\<rparr>"
  have a: "address h = addr" by (simp add: h_def)
  have "evolves (emits P) (andthen (connect x h) (always (body h) (close h)))"
    by (intro evolve_intros emit_session body a) (simp_all add: a P)
  then have "emits P (snd (new_host addr cfg w))
      (snd (andthen (connect x h) (always (body h) (close h)) (snd (new_host addr cfg w))))"
    by (simp add: evolves_def)
  moreover have "trace (snd (new_host addr cfg w)) = trace w" by (simp add: new_host_def)
  ultimately show "emits P w (snd (with_host x addr cfg body w))"
    by (simp add: with_host_def run_simps(3) new_host_def h_def emits_def)
qed

interpretation clk_guest: guest_session clock_le x h for x :: "'e env" and h
  by unfold_locales (intro evolve_intros)+

interpretation keep_guest: guest_session "keeps_files P" x h for P and x :: "'e env" and h
  by unfold_locales (intro evolve_intros)+

interpretation leak_guest: guest_session no_leak x h for x :: "'e env" and h
  by unfold_locales (intro evolve_intros)+

interpretation emit_guest: guest_session "emits (at_address (address h))" x h for x :: "'e env" and h
  by unfold_locales (rule emit_session, assumption)+

text \<open>Among the events, the command ended with status zero as root.\<close>

definition done_as_root :: "remote_host \<Rightarrow> string \<Rightarrow> event list \<Rightarrow> bool" where
  "done_as_root h cmd es \<longleftrightarrow> (\<exists>c stdin out err.
     EvExec (address h) (ssh_user (host_ssh h)) c stdin (Some (ExecDone 0 out err)) \<in> set es
     \<and> (c = ''sudo -n '' @ cmd \<or> c = escalated cmd))"

lemma done_as_root_append [simp]:
  "done_as_root h cmd (xs @ ys) \<longleftrightarrow> done_as_root h cmd xs \<or> done_as_root h cmd ys"
  unfolding done_as_root_def set_append Un_iff by blast

lemma sudo_done:
  "sudo_for x h cmd True t w = (Inr res, w') \<Longrightarrow> \<exists>es. trace w' = trace w @ es \<and> done_as_root h cmd es"
  by (drule sudo_True_trace) (fastforce simp: done_as_root_def)

lemma for_each_sudo_done:
  "for_each cmds (\<lambda>cmd. andthen (sudo x h cmd True) (ret ())) w = (Inr u, w') \<Longrightarrow>
   \<exists>es. trace w' = trace w @ es \<and> list_all (\<lambda>cmd. done_as_root h cmd es) cmds"
proof (induction cmds arbitrary: w)
  case Nil
  then show ?case by (simp add: run_inv)
next
  case (Cons c cmds)
  then obtain res v where s: "sudo x h c True w = (Inr res, v)"
    and f: "for_each cmds (\<lambda>cmd. andthen (sudo x h cmd True) (ret ())) v = (Inr u, w')"
    by (auto simp: run_inv)
  from sudo_done[OF s] obtain es where es: "trace v = trace w @ es" "done_as_root h c es" by blast
  from Cons.IH[OF f] obtain fs where fs: "trace w' = trace v @ fs"
    "list_all (\<lambda>cmd. done_as_root h cmd fs) cmds" by blast
  have "list_all (\<lambda>cmd. done_as_root h cmd (es @ fs)) cmds"
    using fs(2) by (auto simp: list_all_iff)
  then show ?case using es fs by (intro exI[of _ "es @ fs"]) simp
qed

lemma emits_trace: "evolves (emits P) m \<Longrightarrow> m w = (r, w') \<Longrightarrow> \<exists>es. trace w' = trace w @ es \<and> list_all P es"
  by (metis evolvesD emits_def)

end
