(* ===== verification/VirtualBox.thy ===== *)
theory VirtualBox
  imports Ssh
begin

text \<open>
  \<^verbatim>\<open>src/vmdeploy/virtualbox.py\<close>. A \<open>VBoxManage\<close> object is the path of its executable; a call
  is \<open>x_proc\<close> on the argument vector. The readers of its output are pure functions on text:
  \<open>list_line_name\<close>, \<open>optical_entries\<close>, \<open>net_properties\<close> do what the source's regular expressions
  do, the greedy and multi-line cases included.
\<close>

subsection \<open>States and results\<close>

datatype vm_state = RUNNING | POWERED_OFF | SAVED | ABORTED | UNKNOWN | ABSENT

fun state_value :: "vm_state \<Rightarrow> string" where
  "state_value RUNNING = ''running''"
| "state_value POWERED_OFF = ''poweroff''"
| "state_value SAVED = ''saved''"
| "state_value ABORTED = ''aborted''"
| "state_value UNKNOWN = ''unknown''"
| "state_value ABSENT = ''absent''"

definition all_states :: "vm_state list" where
  "all_states = [RUNNING, POWERED_OFF, SAVED, ABORTED, UNKNOWN, ABSENT]"

definition parse_state :: "string \<Rightarrow> vm_state" where
  "parse_state raw =
     (let normalised = lower (strip_by (\<lambda>c. c = c_dq) (strip raw))
      in case find (\<lambda>s. state_value s = normalised) all_states of Some s \<Rightarrow> s | None \<Rightarrow> UNKNOWN)"

record process_result =
  p_args :: "string list"
  p_status :: int
  p_stdout :: string
  p_stderr :: string

definition p_ok :: "process_result \<Rightarrow> bool" where
  "p_ok r \<longleftrightarrow> p_status r = 0"

definition POLL_INTERVAL_MS :: int where "POLL_INTERVAL_MS = 5000"
definition APPLIANCE_TIMEOUT_SECONDS :: int where "APPLIANCE_TIMEOUT_SECONDS = 3600"

subsection \<open>Invocation\<close>

definition vboxmanage_init :: "path \<Rightarrow> ('e, path) prog" where
  "vboxmanage_init executable = bnd (is_file executable) (\<lambda>present.
     if present then ret executable
     else raise (VirtualBoxError [path_str executable] (-1) ''VBoxManage executable not found''))"

definition vbox_run ::
  "'e env \<Rightarrow> path \<Rightarrow> string list \<Rightarrow> bool \<Rightarrow> int \<Rightarrow> ('e, process_result) prog" where
  "vbox_run x exe args check timeout =
     (let argv = path_str exe # args in
      bnd (ext_call (EvProc argv) (x_proc x argv timeout)) (\<lambda>out.
      case out of
        ProcDone status sout serr \<Rightarrow>
          if check \<and> status \<noteq> 0 then raise (VirtualBoxError args status serr)
          else ret \<lparr>p_args = args, p_status = status, p_stdout = sout, p_stderr = serr\<rparr>
      | ProcTimeout \<Rightarrow> raise (VirtualBoxError args (-1) (''timed out after '' @ show_int timeout @ ''s''))
      | ProcOSError msg \<Rightarrow> raise (VirtualBoxError args (-1) msg)))"

definition vbox_version :: "'e env \<Rightarrow> path \<Rightarrow> ('e, string) prog" where
  "vbox_version x exe = bnd (vbox_run x exe [''--version''] True 120) (\<lambda>r. ret (strip (p_stdout r)))"

text \<open>
  \<open>re.match('^"(.+)"\s+\{', line)\<close>: the group runs to the last quote that is followed by white
  space and a brace.
\<close>

definition list_line_name :: "string \<Rightarrow> string option" where
  "list_line_name line =
     (if \<not> startswith line [c_dq] then None
      else let rest = tl line;
               closes = (\<lambda>i. rest ! i = c_dq
                  \<and> (let after = drop (i + 1) rest
                     in after \<noteq> [] \<and> is_space (hd after) \<and> startswith (dropWhile is_space after) ''{''))
           in map_option (\<lambda>i. take i rest) (find closes (rev [1..<length rest])))"

definition vms_of_output :: "string \<Rightarrow> string list" where
  "vms_of_output out = List.map_filter list_line_name (splitlines out)"

definition list_vms :: "'e env \<Rightarrow> path \<Rightarrow> ('e, string list) prog" where
  "list_vms x exe = bnd (vbox_run x exe [''list'', ''vms''] True 120) (\<lambda>r.
     ret (vms_of_output (p_stdout r)))"

definition vm_exists :: "'e env \<Rightarrow> path \<Rightarrow> string \<Rightarrow> ('e, bool) prog" where
  "vm_exists x exe vm = bnd (list_vms x exe) (\<lambda>names. ret (vm \<in> set names))"

definition state_of_output :: "string \<Rightarrow> vm_state" where
  "state_of_output out = (case find (\<lambda>line. startswith line ''VMState='') (splitlines out) of
       Some line \<Rightarrow> parse_state (after_first CHR ''='' line)
     | None \<Rightarrow> UNKNOWN)"

definition vm_state_of :: "'e env \<Rightarrow> path \<Rightarrow> string \<Rightarrow> ('e, vm_state) prog" where
  "vm_state_of x exe vm =
     bnd (vbox_run x exe [''showvminfo'', vm, ''--machinereadable''] False 120) (\<lambda>r.
     ret (if \<not> p_ok r then ABSENT else state_of_output (p_stdout r)))"

subsection \<open>Powering off\<close>

text \<open>Operations that only call the hypervisor and wait keep every relation those two keep.\<close>

lemma evolves_vbox_run:
  "evolution R \<Longrightarrow> (\<And>out. evolves R (ext_call (EvProc (path_str exe # args)) out)) \<Longrightarrow>
   evolves R (vbox_run x exe args c t)"
  unfolding vbox_run_def Let_def
  by (intro evolution.ev_bnd evolves_proc_outcome evolves_if) (auto intro: evolution.ev_ret evolution.ev_raise)

lemma clk_vbox_run [evolve_intros]: "evolves clock_le (vbox_run x exe args c t)"
  by (rule evolves_vbox_run) (intro evolve_intros)+

lemma clk_vm_state_of [evolve_intros]: "evolves clock_le (vm_state_of x exe vm)"
  unfolding vm_state_of_def by (intro evolve_intros)

text \<open>The loop after the ACPI request: true when the machine stopped before the deadline.\<close>

function power_off_loop :: "'e env \<Rightarrow> path \<Rightarrow> string \<Rightarrow> int \<Rightarrow> ('e, bool) prog" where
  "power_off_loop x exe vm deadline w =
     (if clock w < deadline then
        (case vm_state_of x exe vm w of
           (Inl e, v) \<Rightarrow> (Inl e, v)
         | (Inr s, v) \<Rightarrow>
             if s \<noteq> RUNNING then (Inr True, v)
             else (case sleep x POLL_INTERVAL_MS v of
                 (Inl e, u) \<Rightarrow> (Inl e, u)
               | (Inr _, u) \<Rightarrow> power_off_loop x exe vm deadline u))
      else (Inr False, w))"
  by pat_completeness auto
termination
proof (relation "measure (\<lambda>(x, exe, vm, deadline, w). nat (deadline - clock w))", goal_cases)
  case 1
  then show ?case by simp
next
  case (2 x exe vm deadline w a v s b u c)
  then have "clock w \<le> clock v" using evolvesD[OF clk_vm_state_of, of x exe vm w] by (metis clock_le_def)
  moreover have "clock v + POLL_INTERVAL_MS \<le> clock u" using 2 by (metis sleep_advances)
  ultimately show ?case using 2(1) by (simp add: POLL_INTERVAL_MS_def)
qed

declare power_off_loop.simps [simp del]

definition power_off_within :: "'e env \<Rightarrow> path \<Rightarrow> string \<Rightarrow> int \<Rightarrow> ('e, unit) prog" where
  "power_off_within x exe vm wait_seconds =
     bnd (vm_state_of x exe vm) (\<lambda>s.
     if s \<noteq> RUNNING then ret ()
     else andthen (vbox_run x exe [''controlvm'', vm, ''acpipowerbutton''] False 120)
       (bnd monotonic (\<lambda>now.
        bnd (power_off_loop x exe vm (now + 1000 * wait_seconds)) (\<lambda>stopped.
        if stopped then ret ()
        else andthen (vbox_run x exe [''controlvm'', vm, ''poweroff''] False 120)
          (andthen (sleep x POLL_INTERVAL_MS)
          (bnd (vm_state_of x exe vm) (\<lambda>s.
           if s = RUNNING
           then raise (ProvisioningTimeoutError (vm @ '' could not be powered off''))
           else ret ())))))))"

abbreviation power_off :: "'e env \<Rightarrow> path \<Rightarrow> string \<Rightarrow> ('e, unit) prog" where
  "power_off x exe vm \<equiv> power_off_within x exe vm 120"

subsection \<open>Appliances and configuration\<close>

definition export_appliance :: "'e env \<Rightarrow> path \<Rightarrow> string \<Rightarrow> path \<Rightarrow> ('e, unit) prog" where
  "export_appliance x exe vm destination =
     bnd (vm_state_of x exe vm) (\<lambda>s.
     if s = RUNNING
     then raise (VirtualBoxError [''export'', vm] (-1) ''machine must be powered off before export'')
     else andthen (mkdir (path_parent destination))
       (bnd (path_exists x destination) (\<lambda>present.
        andthen (only_if present (unlink destination))
        (andthen (vbox_run x exe [''export'', vm, ''--output'', path_str destination, ''--ovf20'']
                    True APPLIANCE_TIMEOUT_SECONDS)
        (collect_output x destination)))))"

definition import_appliance :: "'e env \<Rightarrow> path \<Rightarrow> path \<Rightarrow> string \<Rightarrow> ('e, unit) prog" where
  "import_appliance x exe source vm =
     bnd (is_file source) (\<lambda>present.
     if \<not> present
     then raise (VirtualBoxError [''import'', path_str source] (-1) ''appliance file not found'')
     else andthen (vbox_run x exe [''import'', path_str source, ''--vsys'', ''0'', ''--vmname'', vm]
                    True APPLIANCE_TIMEOUT_SECONDS) (ret ()))"

definition configure :: "'e env \<Rightarrow> path \<Rightarrow> string \<Rightarrow> int \<Rightarrow> int \<Rightarrow> ('e, unit) prog" where
  "configure x exe vm memory ncpus =
     andthen (vbox_run x exe [''modifyvm'', vm, ''--memory'', show_int memory, ''--cpus'', show_int ncpus]
                True 120) (ret ())"

definition set_bridge_adapter :: "'e env \<Rightarrow> path \<Rightarrow> string \<Rightarrow> string \<Rightarrow> ('e, unit) prog" where
  "set_bridge_adapter x exe vm bridge_interface =
     andthen (vbox_run x exe [''modifyvm'', vm, ''--nic1'', ''bridged'', ''--bridgeadapter1'', bridge_interface]
                True 120) (ret ())"

definition bridge_of_output :: "string \<Rightarrow> string" where
  "bridge_of_output out = (case find (\<lambda>line. startswith line ''bridgeadapter1='') (splitlines out) of
       Some line \<Rightarrow> strip_by (\<lambda>c. c = c_dq) (strip (after_first CHR ''='' line))
     | None \<Rightarrow> [])"

definition bridge_interface_of :: "'e env \<Rightarrow> path \<Rightarrow> string \<Rightarrow> ('e, string) prog" where
  "bridge_interface_of x exe vm =
     bnd (vbox_run x exe [''showvminfo'', vm, ''--machinereadable''] False 120) (\<lambda>r.
     ret (bridge_of_output (p_stdout r)))"

subsection \<open>The optical drive\<close>

type_synonym slot = "string \<times> nat \<times> nat"

text \<open>\<open>re.findall('^storagecontrollername\d+="(.*)"$', out, re.MULTILINE)\<close>, on one line\<close>

definition controller_line :: "string \<Rightarrow> string option" where
  "controller_line line =
     (let pre = ''storagecontrollername'';
          digits = takeWhile is_digit (drop (length pre) line);
          rest = drop (length pre + length digits) line
      in if startswith line pre \<and> digits \<noteq> [] \<and> startswith rest [CHR ''='', c_dq]
            \<and> 3 \<le> length rest \<and> last rest = c_dq
         then Some (butlast (drop 2 rest)) else None)"

text \<open>\<open>'^"NAME-(\d+)-(\d+)"="(.*)"$'\<close> on one line, for a controller's escaped name\<close>

definition slot_line :: "string \<Rightarrow> string \<Rightarrow> (nat \<times> nat \<times> string) option" where
  "slot_line name line =
     (let pre = c_dq # name @ ''-'';
          d1 = takeWhile is_digit (drop (length pre) line);
          r1 = drop (length pre + length d1) line;
          d2 = takeWhile is_digit (tl r1);
          r2 = drop (length d2) (tl r1)
      in if startswith line pre \<and> d1 \<noteq> [] \<and> startswith r1 ''-'' \<and> d2 \<noteq> []
            \<and> startswith r2 [c_dq, CHR ''='', c_dq] \<and> 4 \<le> length r2 \<and> last r2 = c_dq
         then Some (parse_nat d1, parse_nat d2, butlast (drop 3 r2)) else None)"

definition optical_entries :: "string \<Rightarrow> (slot \<times> string) list" where
  "optical_entries out =
     concat (map (\<lambda>name. map (\<lambda>(port, device, medium). ((name, port, device), medium))
                           (List.map_filter (slot_line name) (split_on c_nl out)))
                 (List.map_filter controller_line (split_on c_nl out)))"

definition is_optical :: "string \<Rightarrow> bool" where
  "is_optical medium \<longleftrightarrow> medium = ''emptydrive'' \<or> endswith (lower medium) ''.iso''"

text \<open>The two nested loops, over the entries in order, with \<open>free_slot\<close> as accumulator.\<close>

fun scan_slots :: "slot option \<Rightarrow> (slot \<times> string) list \<Rightarrow> slot option" where
  "scan_slots free_slot [] = free_slot"
| "scan_slots free_slot ((s, medium) # entries) =
     (if is_optical medium then Some s
      else scan_slots
        (if medium = ''none'' \<and> free_slot = None \<and> contains ''ide'' (lower (fst s)) then Some s
         else free_slot) entries)"

definition optical_slot :: "'e env \<Rightarrow> path \<Rightarrow> string \<Rightarrow> ('e, slot) prog" where
  "optical_slot x exe vm =
     bnd (vbox_run x exe [''showvminfo'', vm, ''--machinereadable''] False 120) (\<lambda>info.
     case scan_slots None (optical_entries (p_stdout info)) of
       Some s \<Rightarrow> ret s
     | None \<Rightarrow> raise (VirtualBoxError [''showvminfo'', vm] (-1)
         (vm @ '' exposes no optical drive slot to attach a cloud-init seed to; ''
          @ ''storage controllers found: ''
          @ py_repr_list (List.map_filter controller_line (split_on c_nl (p_stdout info))))))"

definition storageattach :: "string \<Rightarrow> slot \<Rightarrow> string \<Rightarrow> string list" where
  "storageattach vm s medium = (case s of (controller, port, device) \<Rightarrow>
     [''storageattach'', vm, ''--storagectl'', controller, ''--port'', show_nat port,
      ''--device'', show_nat device, ''--type'', ''dvddrive'', ''--medium'', medium])"

definition attach_optical :: "'e env \<Rightarrow> path \<Rightarrow> string \<Rightarrow> path \<Rightarrow> ('e, unit) prog" where
  "attach_optical x exe vm iso_path =
     bnd (optical_slot x exe vm) (\<lambda>s.
     andthen (vbox_run x exe (storageattach vm s (path_str iso_path)) True 120) (ret ()))"

definition detach_optical :: "'e env \<Rightarrow> path \<Rightarrow> string \<Rightarrow> ('e, unit) prog" where
  "detach_optical x exe vm =
     bnd (catch (bnd (optical_slot x exe vm) (\<lambda>s. ret (Some s)))
            (\<lambda>e. if is_VirtualBoxError e then Some (ret None) else None)) (\<lambda>found.
     case found of
       None \<Rightarrow> ret ()
     | Some s \<Rightarrow> andthen (vbox_run x exe (storageattach vm s ''emptydrive'') False 120) (ret ()))"

subsection \<open>Starting and destroying\<close>

definition start_headless :: "'e env \<Rightarrow> path \<Rightarrow> string \<Rightarrow> ('e, unit) prog" where
  "start_headless x exe vm =
     bnd (vm_state_of x exe vm) (\<lambda>s.
     if s = RUNNING then ret ()
     else andthen (vbox_run x exe [''startvm'', vm, ''--type'', ''headless''] True 300) (ret ()))"

text \<open>\<open>for attempt in range(1, attempts + 1)\<close>, with the attempts left\<close>

fun destroy_loop :: "'e env \<Rightarrow> path \<Rightarrow> string \<Rightarrow> nat \<Rightarrow> nat \<Rightarrow> string \<Rightarrow> ('e, unit) prog" where
  "destroy_loop x exe vm attempts 0 last_error =
     raise (VirtualBoxError [''unregistervm'', vm, ''--delete''] (-1)
       (vm @ '' could not be deleted after '' @ show_nat attempts @ '' attempts; last error: ''
        @ last_error))"
| "destroy_loop x exe vm attempts (Suc n) last_error =
     bnd (vbox_run x exe [''unregistervm'', vm, ''--delete''] False 300) (\<lambda>result.
     bnd (vm_exists x exe vm) (\<lambda>present.
     if \<not> present then ret ()
     else andthen (sleep x POLL_INTERVAL_MS)
       (destroy_loop x exe vm attempts n
         (or_else (strip (p_stderr result)) (or_else (strip (p_stdout result)) ''still registered'')))))"

definition destroy_within :: "'e env \<Rightarrow> path \<Rightarrow> string \<Rightarrow> nat \<Rightarrow> ('e, unit) prog" where
  "destroy_within x exe vm attempts =
     bnd (vm_exists x exe vm) (\<lambda>present.
     if \<not> present then ret ()
     else andthen (power_off x exe vm) (destroy_loop x exe vm attempts attempts []))"

abbreviation destroy :: "'e env \<Rightarrow> path \<Rightarrow> string \<Rightarrow> ('e, unit) prog" where
  "destroy x exe vm \<equiv> destroy_within x exe vm 3"

subsection \<open>Snapshots\<close>

definition has_snapshot :: "'e env \<Rightarrow> path \<Rightarrow> string \<Rightarrow> string \<Rightarrow> ('e, bool) prog" where
  "has_snapshot x exe vm snapshot =
     bnd (vbox_run x exe [''snapshot'', vm, ''list'', ''--machinereadable''] False 120) (\<lambda>r.
     ret (p_ok r \<and> contains ([CHR ''='', c_dq] @ snapshot @ [c_dq]) (p_stdout r)))"

definition delete_snapshot :: "'e env \<Rightarrow> path \<Rightarrow> string \<Rightarrow> string \<Rightarrow> ('e, unit) prog" where
  "delete_snapshot x exe vm snapshot =
     andthen (vbox_run x exe [''snapshot'', vm, ''delete'', snapshot] False 300) (ret ())"

definition take_snapshot :: "'e env \<Rightarrow> path \<Rightarrow> string \<Rightarrow> string \<Rightarrow> ('e, unit) prog" where
  "take_snapshot x exe vm snapshot =
     bnd (has_snapshot x exe vm snapshot) (\<lambda>present.
     andthen (only_if present (delete_snapshot x exe vm snapshot))
     (andthen (vbox_run x exe [''snapshot'', vm, ''take'', snapshot] True 300) (ret ())))"

definition restore_snapshot :: "'e env \<Rightarrow> path \<Rightarrow> string \<Rightarrow> string \<Rightarrow> ('e, unit) prog" where
  "restore_snapshot x exe vm snapshot =
     bnd (vm_state_of x exe vm) (\<lambda>s.
     if s = RUNNING
     then raise (VirtualBoxError [''snapshot'', vm, ''restore''] (-1)
            ''machine must be powered off to restore'')
     else andthen (vbox_run x exe [''snapshot'', vm, ''restore'', snapshot] True 300) (ret ()))"

subsection \<open>Guest addresses\<close>

definition guest_property :: "'e env \<Rightarrow> path \<Rightarrow> string \<Rightarrow> string \<Rightarrow> ('e, string) prog" where
  "guest_property x exe vm key =
     bnd (vbox_run x exe [''guestproperty'', ''get'', vm, key] False 120) (\<lambda>r.
     let t = strip (p_stdout r)
     in ret (if \<not> p_ok r \<or> \<not> startswith t ''Value:'' then [] else strip (after_first CHR '':'' t)))"

text \<open>\<open>re.match('^\d{1,3}(?:\.\d{1,3}){3}$', s)\<close>; the dollar also matches before a final line break.\<close>

definition dotted_quad :: "string \<Rightarrow> bool" where
  "dotted_quad s \<longleftrightarrow> length (split_on CHR ''.'' s) = 4
     \<and> (\<forall>p \<in> set (split_on CHR ''.'' s). all_digits p \<and> length p \<le> 3)"

definition ipv4_match :: "string \<Rightarrow> bool" where
  "ipv4_match s \<longleftrightarrow> dotted_quad s \<or> (s \<noteq> [] \<and> last s = c_nl \<and> dotted_quad (butlast s))"

text \<open>\<open>\s+=\s+'([^']*)'\<close> at the head of the text, and \<open>net_match\<close> the whole of
  \<open>/VirtualBox/GuestInfo/Net/(\d+)/(Name|V4/IP)\s+=\s+'([^']*)'\<close>\<close>

definition net_value :: "string \<Rightarrow> (string \<times> string) option" where
  "net_value s =
     (let s1 = dropWhile is_space s;
          s2 = dropWhile is_space (tl s1);
          rest = dropWhile (\<lambda>c. c \<noteq> c_sq) (tl s2)
      in if s \<noteq> [] \<and> is_space (hd s) \<and> startswith s1 ''='' \<and> tl s1 \<noteq> [] \<and> is_space (hd (tl s1))
            \<and> startswith s2 [c_sq] \<and> rest \<noteq> []
         then Some (takeWhile (\<lambda>c. c \<noteq> c_sq) (tl s2), tl rest) else None)"

definition net_match :: "string \<Rightarrow> ((nat \<times> bool \<times> string) \<times> string) option" where
  "net_match s =
     (let pre = ''/VirtualBox/GuestInfo/Net/'';
          digits = takeWhile is_digit (drop (length pre) s);
          s1 = drop (length pre + length digits) s;
          is_name = startswith s1 ''/Name''
      in if startswith s pre \<and> digits \<noteq> [] \<and> (is_name \<or> startswith s1 ''/V4/IP'')
         then map_option (\<lambda>(v, r). ((parse_nat digits, is_name, v), r))
                (net_value (drop (if is_name then 5 else 6) s1))
         else None)"

lemma tl_dropWhile_shorter: "length (tl (dropWhile P s)) \<le> length s - 1"
  by (simp add: diff_le_mono length_dropWhile_le)

lemma net_value_shorter: "net_value s = Some (v, r) \<Longrightarrow> length r < length s"
proof -
  assume m: "net_value s = Some (v, r)"
  then have "s \<noteq> []" and r: "r = tl (dropWhile (\<lambda>c. c \<noteq> c_sq) (tl (dropWhile is_space (tl (dropWhile is_space s)))))"
    unfolding net_value_def Let_def by (simp_all split: if_splits)
  have "length r \<le> length (tl (dropWhile is_space s))"
    unfolding r by (meson diff_le_self le_trans tl_dropWhile_shorter)
  also have "\<dots> < length s"
    using tl_dropWhile_shorter[of is_space s] \<open>s \<noteq> []\<close> by (cases s) auto
  finally show ?thesis .
qed

lemma net_match_shorter: "net_match s = Some (m, r) \<Longrightarrow> length r < length s"
proof -
  assume m: "net_match s = Some (m, r)"
  then obtain n v where "net_value (drop n s) = Some (v, r)"
    unfolding net_match_def Let_def by (auto split: if_splits)
  from net_value_shorter[OF this] show ?thesis by simp
qed

text \<open>\<open>finditer\<close>: from left to right, the matches do not overlap.\<close>

function net_properties :: "string \<Rightarrow> (nat \<times> bool \<times> string) list" where
  "net_properties [] = []"
| "net_properties (c # cs) = (case net_match (c # cs) of
       Some (m, r) \<Rightarrow> m # net_properties r
     | None \<Rightarrow> net_properties cs)"
  by pat_completeness auto
termination
  by (relation "measure length") (auto dest!: sym[of _ "net_match _"] dest: net_match_shorter)

definition interfaces_of_output :: "string \<Rightarrow> (string \<times> string) list" where
  "interfaces_of_output out =
     (let found = net_properties out;
          names = fold (\<lambda>(i, is_name, v) d. if is_name then dset d i v else d) found [];
          ips = fold (\<lambda>(i, is_name, v) d. if is_name then d else dset d i v) found []
      in List.map_filter (\<lambda>i. case dget ips i of
             Some a \<Rightarrow> if ipv4_match a
               then Some ((case dget names i of Some n \<Rightarrow> n | None \<Rightarrow> ''net'' @ show_nat i), a) else None
           | None \<Rightarrow> None)
         (sort (dkeys ips)))"

definition guest_ipv4_interfaces :: "'e env \<Rightarrow> path \<Rightarrow> string \<Rightarrow> ('e, (string \<times> string) list) prog" where
  "guest_ipv4_interfaces x exe vm =
     bnd (vbox_run x exe [''guestproperty'', ''enumerate'', vm] False 120) (\<lambda>r.
     ret (if \<not> p_ok r then [] else interfaces_of_output (p_stdout r)))"

definition first_ipv4 :: "string list \<Rightarrow> string" where
  "first_ipv4 addresses = (case find ipv4_match addresses of Some a \<Rightarrow> a | None \<Rightarrow> [])"

text \<open>Only \<open>gaierror\<close> is caught; every other error of the resolver escapes.\<close>

definition resolve_ipv4 :: "'e env \<Rightarrow> string \<Rightarrow> ('e, string) prog" where
  "resolve_ipv4 x host =
     bnd (ext_call (EvResolve host) (x_resolve x host)) (\<lambda>infos.
     case infos of
       Resolved addresses \<Rightarrow> ret (first_ipv4 addresses)
     | NotResolved \<Rightarrow> ret []
     | ResolveOSError msg \<Rightarrow> raise (OSError msg)
     | ResolveValueError msg \<Rightarrow> raise (ValueError msg))"

definition VIRTUAL_IFACE_PREFIXES :: "string list" where
  "VIRTUAL_IFACE_PREFIXES = [''docker'', ''br-'', ''veth'', ''virbr'', ''vboxnet'', ''lo'', ''tun'',
     ''tap'', ''cni'', ''flannel'']"

definition is_virtual_interface :: "string \<Rightarrow> bool" where
  "is_virtual_interface name \<longleftrightarrow>
     list_ex (\<lambda>prefix. startswith (lower name) prefix) VIRTUAL_IFACE_PREFIXES"

definition is_usable_address :: "string \<Rightarrow> bool" where
  "is_usable_address a \<longleftrightarrow> \<not> (startswith a ''127.'' \<or> startswith a ''169.254.'')"

definition same_slash24 :: "string \<Rightarrow> string \<Rightarrow> bool" where
  "same_slash24 left right \<longleftrightarrow> before_last CHR ''.'' left = before_last CHR ''.'' right"

definition lan_candidates :: "(string \<times> string) list \<Rightarrow> string list" where
  "lan_candidates interfaces =
     map snd (filter (\<lambda>(name, a). \<not> is_virtual_interface name \<and> is_usable_address a) interfaces)"

definition select_lan_address :: "(string \<times> string) list \<Rightarrow> string \<Rightarrow> string" where
  "select_lan_address interfaces host_lan =
     (let candidates = lan_candidates interfaces in
      if candidates = [] then []
      else case (if host_lan \<noteq> [] then find (\<lambda>a. same_slash24 a host_lan) candidates else None) of
          Some a \<Rightarrow> a
        | None \<Rightarrow> (case find (\<lambda>a. startswith a ''192.168.'' \<or> startswith a ''10.'') candidates of
              Some a \<Rightarrow> a
            | None \<Rightarrow> hd candidates))"

definition host_lan_ipv4 :: "'e env \<Rightarrow> ('e, string) prog" where
  "host_lan_ipv4 x = bnd (ext_call (\<lambda>_. EvProbe) (x_lan x)) (\<lambda>out.
     ret (case out of Some a \<Rightarrow> if ipv4_match a then a else [] | None \<Rightarrow> []))"

lemma clk_guest_ops [evolve_intros]:
  "evolves clock_le (guest_ipv4_interfaces x exe vm)" "evolves clock_le (resolve_ipv4 x host)"
  unfolding guest_ipv4_interfaces_def resolve_ipv4_def by (intro evolve_intros)+

function wait_for_guest_ip_loop ::
  "'e env \<Rightarrow> path \<Rightarrow> string \<Rightarrow> string \<Rightarrow> string \<Rightarrow> int \<Rightarrow> int \<Rightarrow> ('e, string) prog" where
  "wait_for_guest_ip_loop x exe vm host host_lan timeout_seconds deadline w =
     (if clock w < deadline then
        (case guest_ipv4_interfaces x exe vm w of
           (Inl e, v) \<Rightarrow> (Inl e, v)
         | (Inr interfaces, v) \<Rightarrow>
             if select_lan_address interfaces host_lan \<noteq> []
             then (Inr (select_lan_address interfaces host_lan), v)
             else (case resolve_ipv4 x host v of
                 (Inl e, u) \<Rightarrow> (Inl e, u)
               | (Inr resolved, u) \<Rightarrow>
                   if resolved \<noteq> [] then (Inr resolved, u)
                   else (case sleep x POLL_INTERVAL_MS u of
                       (Inl e, z) \<Rightarrow> (Inl e, z)
                     | (Inr _, z) \<Rightarrow>
                         wait_for_guest_ip_loop x exe vm host host_lan timeout_seconds deadline z)))
      else raise (ProvisioningTimeoutError
        (''Could not determine a reachable IPv4 address for '' @ vm @ '' (hostname '' @ host
         @ '') within '' @ show_int timeout_seconds @ ''s; check that the guest ''
         @ ''obtained a DHCP lease on its bridged adapter'')) w)"
  by pat_completeness auto
termination
proof (relation "measure (\<lambda>(x, exe, vm, host, lan, t, deadline, w). nat (deadline - clock w))", goal_cases)
  case 1
  then show ?case by simp
next
  case (2 x exe vm host lan t deadline w a v ifs b u r c z d)
  then have "clock w \<le> clock v" "clock v \<le> clock u"
    using evolvesD[OF clk_guest_ops(1), of x exe vm w] evolvesD[OF clk_guest_ops(2), of x host v]
    by (metis clock_le_def)+
  moreover have "clock u + POLL_INTERVAL_MS \<le> clock z" using 2 by (metis sleep_advances)
  ultimately show ?case using 2(1) by (simp add: POLL_INTERVAL_MS_def)
qed

declare wait_for_guest_ip_loop.simps [simp del]

definition wait_for_guest_ip :: "'e env \<Rightarrow> path \<Rightarrow> string \<Rightarrow> string \<Rightarrow> int \<Rightarrow> ('e, string) prog" where
  "wait_for_guest_ip x exe vm host timeout_seconds =
     bnd (host_lan_ipv4 x) (\<lambda>host_lan.
     bnd monotonic (\<lambda>now.
     wait_for_guest_ip_loop x exe vm host host_lan timeout_seconds (now + 1000 * timeout_seconds)))"

section \<open>How the operations change the world\<close>

text \<open>The machine that a command line changes, if it is one that changes a machine.\<close>

fun mutates :: "string list \<Rightarrow> string option" where
  "mutates [] = None"
| "mutates (cmd # args) =
     (if cmd \<in> {''controlvm'', ''modifyvm'', ''storageattach'', ''startvm'', ''unregistervm'', ''snapshot''}
      then Some (hd args)
      else if cmd = ''import'' then Some (args ! 4)
      else None)"

definition concerns :: "string \<Rightarrow> string list \<Rightarrow> bool" where
  "concerns vm args \<longleftrightarrow> mutates args = None \<or> mutates args = Some vm"

text \<open>
  What an operation on machine \<open>vm\<close> asks of a relation: that it be kept by the calls that change
  no other machine, by the pauses between polls and by the two name look-ups. An operation that
  does not start the machine asks for less, which is the first locale.
\<close>

definition idle_call :: "string \<Rightarrow> string list \<Rightarrow> bool" where
  "idle_call vm args \<longleftrightarrow> concerns vm args \<and> hd args \<noteq> ''startvm''"

locale machine_idle = evolution R for R :: "'e world \<Rightarrow> 'e world \<Rightarrow> bool" +
  fixes x :: "'e env" and exe :: path and vm :: string
  assumes call: "idle_call vm args \<Longrightarrow> evolves R (vbox_run x exe args c t)"
    and pause: "evolves R (sleep x POLL_INTERVAL_MS)"
    and look_up: "evolves R (ext_call (EvResolve host) (x_resolve x host))"
    and probe: "evolves R (ext_call (\<lambda>_. EvProbe) (x_lan x))"
begin

lemmas calls = call pause look_up probe

lemma ev_vm_exists [evolve_intros]: "evolves R (vm_exists x exe vm)"
  unfolding vm_exists_def list_vms_def by (intro ev_bnd ev_ret call) (simp add: idle_call_def concerns_def)

lemma ev_vm_state_of [evolve_intros]: "evolves R (vm_state_of x exe vm)"
  unfolding vm_state_of_def by (intro ev_bnd ev_ret call) (simp add: idle_call_def concerns_def)

lemma ev_power_off_loop [evolve_intros]: "evolves R (power_off_loop x exe vm d)"
proof (rule evolvesI)
  have "x' = x \<Longrightarrow> exe' = exe \<Longrightarrow> vm' = vm \<Longrightarrow> R w (snd (power_off_loop x' exe' vm' d w))"
    for x' exe' vm' w
  proof (induction x' exe' vm' d w rule: power_off_loop.induct)
    case (1 x' exe' vm' d w)
    obtain r v where a: "vm_state_of x exe vm w = (r, v)" by (cases "vm_state_of x exe vm w")
    obtain s u where s: "sleep x POLL_INTERVAL_MS v = (s, u)" by (cases "sleep x POLL_INTERVAL_MS v")
    have "R w v" and "R v u" using evolvesD[OF ev_vm_state_of a] evolvesD[OF pause s] .
    with 1 a s show ?case
      by (subst power_off_loop.simps) (auto split: sum.splits intro: refl trans)
  qed
  then show "R w (snd (power_off_loop x exe vm d w))" for w by simp
qed

lemma ev_power_off [evolve_intros]: "evolves R (power_off_within x exe vm n)"
  unfolding power_off_within_def
  by (intro ev_bnd ev_andthen ev_ret ev_raise ev_reader evolves_if ev_vm_state_of ev_power_off_loop calls)
    (simp_all add: idle_call_def concerns_def)

lemma ev_import_appliance [evolve_intros]: "evolves R (import_appliance x exe p vm)"
  unfolding import_appliance_def
  by (intro ev_bnd ev_andthen ev_ret ev_raise ev_reader evolves_if calls) (simp_all add: idle_call_def concerns_def)

lemma ev_configure [evolve_intros]:
  "evolves R (configure x exe vm i j)" "evolves R (set_bridge_adapter x exe vm b)"
  "evolves R (bridge_interface_of x exe vm)"
  unfolding configure_def set_bridge_adapter_def bridge_interface_of_def
  by (intro ev_bnd ev_andthen ev_ret evolves_if ev_vm_state_of calls; simp add: idle_call_def concerns_def)+

lemma ev_optical [evolve_intros]:
  "evolves R (optical_slot x exe vm)" "evolves R (attach_optical x exe vm p)"
  "evolves R (detach_optical x exe vm)"
proof -
  show slot: "evolves R (optical_slot x exe vm)"
    unfolding optical_slot_def
    by (intro ev_bnd ev_ret ev_raise evolves_option calls) (simp_all add: idle_call_def concerns_def)
  have attach: "evolves R (vbox_run x exe (storageattach vm s m) c t)" for s m c t
    by (rule call) (simp add: idle_call_def concerns_def storageattach_def split: prod.splits)
  then show "evolves R (attach_optical x exe vm p)"
    unfolding attach_optical_def by (intro ev_bnd ev_andthen ev_ret slot)
  show "evolves R (detach_optical x exe vm)"
    unfolding detach_optical_def using attach
    by (intro ev_bnd ev_andthen ev_ret ev_catch evolves_option slot) (auto intro: ev_ret split: if_splits)
qed

lemma ev_destroy_loop: "evolves R (destroy_loop x exe vm a n l)"
proof (induction n arbitrary: l)
  case 0
  then show ?case by (simp add: ev_raise)
next
  case (Suc n)
  have "evolves R (vbox_run x exe [''unregistervm'', vm, ''--delete''] False 300)"
    by (rule call) (simp add: idle_call_def concerns_def)
  then show ?case
    using Suc by (auto intro!: ev_bnd ev_andthen ev_ret ev_vm_exists pause)
qed

lemma ev_destroy [evolve_intros]: "evolves R (destroy_within x exe vm a)"
  unfolding destroy_within_def
  by (intro ev_bnd ev_andthen ev_ret evolves_if ev_vm_exists ev_power_off ev_destroy_loop)

lemma ev_snapshots [evolve_intros]:
  "evolves R (has_snapshot x exe vm s)" "evolves R (delete_snapshot x exe vm s)"
  "evolves R (take_snapshot x exe vm s)" "evolves R (restore_snapshot x exe vm s)"
  unfolding has_snapshot_def delete_snapshot_def take_snapshot_def restore_snapshot_def
  by (intro ev_bnd ev_andthen ev_ret ev_raise ev_only_if evolves_if ev_vm_state_of calls;
      simp add: idle_call_def concerns_def)+

lemma ev_guest_ipv4_interfaces: "evolves R (guest_ipv4_interfaces x exe vm)"
  unfolding guest_ipv4_interfaces_def by (intro ev_bnd ev_ret calls) (simp add: idle_call_def concerns_def)

lemma ev_resolve_ipv4: "evolves R (resolve_ipv4 x host)"
  unfolding resolve_ipv4_def by (intro ev_bnd ev_ret ev_raise evolves_resolve_outcome calls)

lemma ev_guest_ip_loop: "evolves R (wait_for_guest_ip_loop x exe vm host lan t d)"
proof (rule evolvesI)
  have "x' = x \<Longrightarrow> exe' = exe \<Longrightarrow> vm' = vm \<Longrightarrow>
    R w (snd (wait_for_guest_ip_loop x' exe' vm' host lan t d w))" for x' exe' vm' w
  proof (induction x' exe' vm' host lan t d w rule: wait_for_guest_ip_loop.induct)
    case (1 x' exe' vm' host lan t d w)
    obtain r v where a: "guest_ipv4_interfaces x exe vm w = (r, v)"
      by (cases "guest_ipv4_interfaces x exe vm w")
    obtain q z where b: "resolve_ipv4 x host v = (q, z)" by (cases "resolve_ipv4 x host v")
    obtain s u where s: "sleep x POLL_INTERVAL_MS z = (s, u)" by (cases "sleep x POLL_INTERVAL_MS z")
    have w: "R w v" "R w z" "R w u"
      using evolvesD[OF ev_guest_ipv4_interfaces a] evolvesD[OF ev_resolve_ipv4 b] evolvesD[OF pause s]
      by (meson trans)+
    show ?case
    proof (cases "clock w < d \<and> (\<exists>ifs. r = Inr ifs \<and> select_lan_address ifs lan = [])
        \<and> q = Inr [] \<and> (\<exists>k. s = Inr k)")
      case True
      then obtain ifs k where c: "clock w < d" "r = Inr ifs" "select_lan_address ifs lan = []" "q = Inr []"
        "s = Inr k" by blast
      have "R u (snd (wait_for_guest_ip_loop x' exe' vm' host lan t d u))"
        using 1(1)[of "Inr ifs" v ifs "Inr []" z "[]" "Inr k" u k] a b s c 1(2-) by simp
      then show ?thesis using a b s c w 1(2-) by (subst wait_for_guest_ip_loop.simps) (auto intro: trans)
    next
      case False
      then show ?thesis using a b s w 1(2-)
        by (subst wait_for_guest_ip_loop.simps) (auto simp: run_simps intro: refl split: sum.splits)
    qed
  qed
  then show "R w (snd (wait_for_guest_ip_loop x exe vm host lan t d w))" for w by simp
qed

lemma ev_wait_for_guest_ip [evolve_intros]: "evolves R (wait_for_guest_ip x exe vm host t)"
  unfolding wait_for_guest_ip_def host_lan_ipv4_def
  by (intro ev_bnd ev_ret ev_reader ev_guest_ip_loop calls)

end

locale machine_calls = machine_idle R x exe vm
  for R :: "'e world \<Rightarrow> 'e world \<Rightarrow> bool" and x :: "'e env" and exe :: path and vm :: string +
  assumes boot: "evolves R (vbox_run x exe [''startvm'', vm, ''--type'', ''headless''] c t)"
begin

lemma ev_start_headless [evolve_intros]: "evolves R (start_headless x exe vm)"
  unfolding start_headless_def by (intro ev_bnd ev_andthen ev_ret evolves_if ev_vm_state_of boot)

end

lemma keep_vbox_run [evolve_intros]: "evolves (keeps_files P) (vbox_run x exe args c t)"
  by (rule evolves_vbox_run) (intro evolve_intros)+

lemma leak_vbox_run [evolve_intros]: "evolves no_leak (vbox_run x exe args c t)"
  by (rule evolves_vbox_run) (intro evolve_intros)+

lemma emit_vbox_run:
  "(\<And>out. P (EvProc (path_str exe # args) out)) \<Longrightarrow> evolves (emits P) (vbox_run x exe args c t)"
  by (rule evolves_vbox_run) (intro evolve_intros emit_ext_call)+

lemma poll_nonneg [simp]: "0 \<le> POLL_INTERVAL_MS"
  by (simp add: POLL_INTERVAL_MS_def)

text \<open>An event that changes no machine but those of a set.\<close>

definition only_machines :: "(string \<Rightarrow> bool) \<Rightarrow> event \<Rightarrow> bool" where
  "only_machines V ev = (case ev of
       EvProc argv _ \<Rightarrow> (case mutates (tl argv) of None \<Rightarrow> True | Some vm \<Rightarrow> V vm)
     | _ \<Rightarrow> True)"

interpretation clk_vm: machine_calls clock_le x exe vm for x :: "'e env" and exe vm
  by unfold_locales (intro evolve_intros poll_nonneg)+

interpretation keep_vm: machine_calls "keeps_files P" x exe vm for P and x :: "'e env" and exe vm
  by unfold_locales (intro evolve_intros)+

interpretation leak_vm: machine_calls no_leak x exe vm for x :: "'e env" and exe vm
  by unfold_locales (intro evolve_intros)+

interpretation emit_vm: machine_calls "emits (only_machines ((=) vm))" x exe vm for x :: "'e env" and exe vm
proof unfold_locales
  fix args c t
  assume "idle_call vm args"
  then show "evolves (emits (only_machines ((=) vm))) (vbox_run x exe args c t)"
    by (intro emit_vbox_run) (auto simp: only_machines_def idle_call_def concerns_def)
qed (auto intro!: emit_sleep emit_ext_call emit_vbox_run simp: only_machines_def)

text \<open>An event of the hypervisor wrapper that changes no machine but \<open>vm\<close>.\<close>

definition at_machine :: "string \<Rightarrow> event \<Rightarrow> bool" where
  "at_machine vm ev = (case ev of
       EvProc argv _ \<Rightarrow> concerns vm (tl argv)
     | EvSleep _ \<Rightarrow> True | EvResolve _ _ \<Rightarrow> True | EvProbe \<Rightarrow> True
     | _ \<Rightarrow> False)"

interpretation host_vm: machine_calls "emits (at_machine vm)" x exe vm for x :: "'e env" and exe vm
proof unfold_locales
  fix args c t
  assume "idle_call vm args"
  then show "evolves (emits (at_machine vm)) (vbox_run x exe args c t)"
    by (intro emit_vbox_run) (simp add: at_machine_def idle_call_def)
qed (auto intro!: emit_sleep emit_ext_call emit_vbox_run simp: at_machine_def concerns_def)

text \<open>A call that starts a machine.\<close>

definition boots :: "event \<Rightarrow> bool" where
  "boots ev = (case ev of EvProc argv _ \<Rightarrow> argv \<noteq> [] \<and> tl argv \<noteq> [] \<and> hd (tl argv) = ''startvm'' | _ \<Rightarrow> False)"

interpretation idle_vm: machine_idle "emits (\<lambda>ev. \<not> boots ev)" x exe vm for x :: "'e env" and exe vm
proof unfold_locales
  fix args c t
  assume "idle_call vm args"
  then show "evolves (emits (\<lambda>ev. \<not> boots ev)) (vbox_run x exe args c t)"
    by (intro emit_vbox_run) (simp add: boots_def idle_call_def)
qed (auto intro!: emit_sleep emit_ext_call simp: boots_def)

lemma evolves_emits_mono:
  "evolves (emits P) m \<Longrightarrow> (\<And>e. P e \<Longrightarrow> Q e) \<Longrightarrow> evolves (emits Q) m"
  unfolding evolves_def using emits_mono by blast

subsection \<open>What the operations raise\<close>

definition vbox_exn :: "exn \<Rightarrow> bool" where
  "vbox_exn e \<longleftrightarrow> is_VirtualBoxError e \<or> is_ProvisioningTimeoutError e \<or> e = KeyboardInterrupt"

lemma vbox_exn_simps [simp]:
  "vbox_exn (VirtualBoxError a n s)" "vbox_exn (ProvisioningTimeoutError s)" "vbox_exn KeyboardInterrupt"
  by (simp_all add: vbox_exn_def)

lemma throws_vbox_run [throws_intros]: "throws vbox_exn (vbox_run x exe args c t)"
  unfolding vbox_run_def Let_def by (intro throws_intros) auto

lemma run_vbox_run:
  "vbox_run x exe args c t w =
     (case x_proc x (path_str exe # args) t (ext w) of (out, dt, s) \<Rightarrow>
        let v = w\<lparr>ext := s, clock := clock w + int dt, trace := trace w @ [EvProc (path_str exe # args) out]\<rparr>
        in (case out of
              None \<Rightarrow> (Inl KeyboardInterrupt, v)
            | Some ProcTimeout \<Rightarrow> (Inl (VirtualBoxError args (-1) (''timed out after '' @ show_int t @ ''s'')), v)
            | Some (ProcOSError msg) \<Rightarrow> (Inl (VirtualBoxError args (-1) msg), v)
            | Some (ProcDone status sout serr) \<Rightarrow>
                if c \<and> status \<noteq> 0 then (Inl (VirtualBoxError args status serr), v)
                else (Inr \<lparr>p_args = args, p_status = status, p_stdout = sout, p_stderr = serr\<rparr>, v)))"
  by (auto simp: vbox_run_def run_simps Let_def split: prod.splits option.splits proc_outcome.splits)

lemma vbox_run_trace:
  assumes "vbox_run x exe args c t w = (Inr r, w')"
  shows "trace w' = trace w @ [EvProc (path_str exe # args)
      (Some (ProcDone (p_status r) (p_stdout r) (p_stderr r)))]" and "c \<Longrightarrow> p_status r = 0"
  using assms
  by (auto simp: run_vbox_run Let_def split: prod.splits option.splits proc_outcome.splits if_splits)

section \<open>Properties\<close>

subsection \<open>The optical drive\<close>

lemma scan_slots_sound:
  "scan_slots free es = Some s \<Longrightarrow>
   (\<exists>m. (s, m) \<in> set es \<and> is_optical m)
   \<or> ((\<forall>(t, m) \<in> set es. \<not> is_optical m)
      \<and> (free = Some s \<or> ((s, ''none'') \<in> set es \<and> contains ''ide'' (lower (fst s)))))"
  by (induction free es rule: scan_slots.induct) (auto split: if_splits)

lemma scan_slots_free: "free \<noteq> None \<Longrightarrow> scan_slots free es \<noteq> None"
  by (induction free es rule: scan_slots.induct) auto

lemma scan_slots_complete:
  "(s, m) \<in> set es \<Longrightarrow> is_optical m \<or> (m = ''none'' \<and> contains ''ide'' (lower (fst s))) \<Longrightarrow>
   scan_slots free es \<noteq> None"
proof (induction free es rule: scan_slots.induct)
  case (2 free t medium es)
  then show ?case
    using scan_slots_free[of _ es]
    by (cases "is_optical medium"; cases free) (auto simp del: split_paired_Ex not_None_eq)
qed simp

text \<open>The slots that may take a seed: an optical medium, or, when there is none, free on IDE.\<close>

definition seed_slot :: "string \<Rightarrow> slot \<Rightarrow> bool" where
  "seed_slot out s \<longleftrightarrow>
     (\<exists>m. (s, m) \<in> set (optical_entries out) \<and> is_optical m)
     \<or> ((\<forall>(t, m) \<in> set (optical_entries out). \<not> is_optical m)
        \<and> (s, ''none'') \<in> set (optical_entries out) \<and> contains ''ide'' (lower (fst s)))"

text \<open>
  C20: attaching an ISO. One \<open>showvminfo\<close> is made; only if it lists a slot that already holds an
  optical medium, or failing any such slot one that is free on an IDE controller, is one
  \<open>storageattach\<close> made, to exactly such a slot. A slot recorded with a hard disk is never written
  over, and if the machine has a usable slot and the call is answered, the attach is made.
\<close>

theorem attach_optical_slot:
  "case attach_optical x exe vm iso_path w of (r, w') \<Rightarrow>
     \<exists>answer. let query = EvProc [path_str exe, ''showvminfo'', vm, ''--machinereadable''] answer in
       (trace w' = trace w @ [query]
          \<and> (\<nexists>status out err s. answer = Some (ProcDone status out err) \<and> seed_slot out s))
       \<or> (\<exists>status out err s res. answer = Some (ProcDone status out err) \<and> seed_slot out s
          \<and> trace w' = trace w @ [query,
              EvProc (path_str exe # storageattach vm s (path_str iso_path)) res])"
proof -
  obtain answer dt e where p:
    "x_proc x [path_str exe, ''showvminfo'', vm, ''--machinereadable''] 120 (ext w) = (answer, dt, e)"
    by (cases "x_proc x [path_str exe, ''showvminfo'', vm, ''--machinereadable''] 120 (ext w)")
  show ?thesis
  proof (cases "\<exists>status out err. answer = Some (ProcDone status out err)")
    case False
    then show ?thesis
      by (auto simp: attach_optical_def optical_slot_def run_vbox_run run_simps p Let_def
          split: option.splits proc_outcome.splits)
  next
    case True
    then obtain status out err where a: "answer = Some (ProcDone status out err)" by blast
    show ?thesis
    proof (cases "scan_slots None (optical_entries out)")
      case None
      then have "\<not> seed_slot out s" for s
        using scan_slots_complete[of s _ "optical_entries out" None] unfolding seed_slot_def by blast
      then show ?thesis using a None
        by (auto simp: attach_optical_def optical_slot_def run_vbox_run run_simps p Let_def)
    next
      case (Some s)
      then have "seed_slot out s" using scan_slots_sound[OF Some] unfolding seed_slot_def by auto
      obtain res dt' e' where q: "x_proc x (path_str exe # storageattach vm s (path_str iso_path)) 120 e
          = (res, dt', e')"
        by (cases "x_proc x (path_str exe # storageattach vm s (path_str iso_path)) 120 e")
      have "trace (snd (attach_optical x exe vm iso_path w)) = trace w @
          [EvProc [path_str exe, ''showvminfo'', vm, ''--machinereadable''] answer,
           EvProc (path_str exe # storageattach vm s (path_str iso_path)) res]"
        using a Some q
        by (auto simp: attach_optical_def optical_slot_def run_vbox_run run_simps p Let_def
            split: option.splits proc_outcome.splits)
      then show ?thesis
        unfolding Let_def case_prod_beta using a \<open>seed_slot out s\<close>
        by (intro exI[of _ answer] disjI2 exI[of _ status] exI[of _ out] exI[of _ err] exI[of _ s]
            exI[of _ res] conjI) simp_all
    qed
  qed
qed

subsection \<open>Stopping and destroying\<close>

lemma vm_state_of_trace:
  assumes "vm_state_of x exe vm w = (Inr s, w')"
  shows "\<exists>status out err. trace w' = trace w
      @ [EvProc [path_str exe, ''showvminfo'', vm, ''--machinereadable''] (Some (ProcDone status out err))]
    \<and> s = (if status \<noteq> 0 then ABSENT else state_of_output out)"
  using assms vbox_run_trace(1)
  by (fastforce simp: vm_state_of_def run_inv p_ok_def)

text \<open>The last thing asked was the state of the machine, and it was not running.\<close>

definition seen_stopped :: "path \<Rightarrow> string \<Rightarrow> event list \<Rightarrow> bool" where
  "seen_stopped exe vm es \<longleftrightarrow> (\<exists>before status out err. es = before
      @ [EvProc [path_str exe, ''showvminfo'', vm, ''--machinereadable''] (Some (ProcDone status out err))]
    \<and> (status \<noteq> 0 \<or> state_of_output out \<noteq> RUNNING))"

lemma vm_state_of_stopped:
  "vm_state_of x exe vm w = (Inr s, w') \<Longrightarrow> s \<noteq> RUNNING \<Longrightarrow> seen_stopped exe vm (trace w')"
  by (drule vm_state_of_trace) (auto simp: seen_stopped_def split: if_splits)

lemma power_off_loop_stopped:
  "power_off_loop x exe vm d w = (Inr True, w') \<Longrightarrow> seen_stopped exe vm (trace w')"
proof (induction x exe vm d w rule: power_off_loop.induct)
  case (1 x exe vm d w)
  from 1(2) show ?case
    by (subst (asm) power_off_loop.simps)
      (auto split: if_splits sum.splits prod.splits dest: vm_state_of_stopped 1(1)[rotated -1])
qed

lemma throws_vm_state_of [throws_intros]: "throws vbox_exn (vm_state_of x exe vm)"
  unfolding vm_state_of_def by (intro throws_intros)

lemma throws_power_off_loop [throws_intros]: "throws vbox_exn (power_off_loop x exe vm d)"
proof (rule throwsI)
  show "power_off_loop x exe vm d w = (Inl e, w') \<Longrightarrow> vbox_exn e" for w e w'
  proof (induction x exe vm d w rule: power_off_loop.induct)
    case (1 x exe vm d w)
    from 1(2) show ?case
      by (subst (asm) power_off_loop.simps)
        (auto split: if_splits sum.splits prod.splits
          dest: throwsD[OF throws_vm_state_of] throwsD[OF throws_sleep[where P = vbox_exn, OF vbox_exn_simps(3)]] 1(1)[rotated -1])
  qed
qed

lemma throws_power_off [throws_intros]: "throws vbox_exn (power_off_within x exe vm n)"
  unfolding power_off_within_def by (intro throws_intros) auto

lemma power_off_stopped:
  "power_off_within x exe vm n w = (Inr u, w') \<Longrightarrow> seen_stopped exe vm (trace w')"
  by (auto simp: power_off_within_def run_inv run_simps(1,2) split: if_splits
      dest: vm_state_of_stopped power_off_loop_stopped)

text \<open>
  Powering off always ends. When it returns, the last thing it asked was the machine's state,
  and the answer was not running. It changes no other machine and no local file, and it
  raises only hypervisor errors, the timeout or an interrupt.
\<close>

theorem power_off_stops:
  "case power_off_within x exe vm wait_seconds w of (r, w') \<Rightarrow>
     gives (\<lambda>_. seen_stopped exe vm (trace w')) r
     \<and> fails_as vbox_exn r
     \<and> emits (only_machines ((=) vm)) w w' \<and> files w' = files w"
proof -
  obtain r w' where run: "power_off_within x exe vm wait_seconds w = (r, w')"
    by (cases "power_off_within x exe vm wait_seconds w")
  have "gives (\<lambda>_. seen_stopped exe vm (trace w')) r"
    using run unfolding gives_def by (auto dest: power_off_stopped)
  moreover have "fails_as vbox_exn r"
    using throws_power_off run unfolding throws_def by (metis fst_conv)
  moreover have "emits (only_machines ((=) vm)) w w'" "keeps_files (\<lambda>_. True) w w'"
    using run by (auto intro: evolvesD[OF emit_vm.ev_power_off] evolvesD[OF keep_vm.ev_power_off])
  ultimately show ?thesis by (auto simp: run keeps_files_def)
qed

text \<open>The last thing asked was the list of machines, and this one was not in it.\<close>

definition seen_absent :: "path \<Rightarrow> string \<Rightarrow> event list \<Rightarrow> bool" where
  "seen_absent exe vm es \<longleftrightarrow> (\<exists>before out err. es = before
      @ [EvProc [path_str exe, ''list'', ''vms''] (Some (ProcDone 0 out err))]
    \<and> vm \<notin> set (vms_of_output out))"

lemma vm_exists_absent: "vm_exists x exe vm w = (Inr False, w') \<Longrightarrow> seen_absent exe vm (trace w')"
  using vbox_run_trace
  by (fastforce simp: vm_exists_def list_vms_def run_inv seen_absent_def)

lemma throws_vm_exists [throws_intros]: "throws vbox_exn (vm_exists x exe vm)"
  unfolding vm_exists_def list_vms_def by (intro throws_intros)

lemma throws_destroy_loop: "throws vbox_exn (destroy_loop x exe vm a n l)"
  by (induction n arbitrary: l) (auto intro!: throws_intros)

lemma throws_destroy [throws_intros]: "throws vbox_exn (destroy_within x exe vm a)"
  unfolding destroy_within_def by (intro throws_intros throws_destroy_loop)

lemma destroy_loop_absent:
  "destroy_loop x exe vm a n l w = (Inr u, w') \<Longrightarrow> seen_absent exe vm (trace w')"
proof (induction n arbitrary: l w)
  case 0
  then show ?case by (simp add: run_inv)
next
  case (Suc n)
  from Suc.prems obtain r :: process_result and v present z where
    "vm_exists x exe vm v = (Inr present, z)"
    and *: "(if \<not> present then ret ()
      else andthen (sleep x POLL_INTERVAL_MS) (destroy_loop x exe vm a n
         (or_else (strip (p_stderr r)) (or_else (strip (p_stdout r)) ''still registered'')))) z = (Inr u, w')"
    by (auto simp: run_inv)
  then show ?case
    by (cases present) (auto simp: run_inv intro: vm_exists_absent Suc.IH)
qed

lemma destroy_absent:
  "destroy_within x exe vm a w = (Inr u, w') \<Longrightarrow> seen_absent exe vm (trace w')"
  by (auto simp: destroy_within_def run_inv split: if_splits)
    (rule destroy_loop_absent vm_exists_absent, assumption)+

lemma seen_absent_new:
  "trace w' = trace w @ es \<Longrightarrow> es \<noteq> [] \<Longrightarrow> seen_absent exe vm (trace w') \<Longrightarrow> seen_absent exe vm es"
  by (cases es rule: rev_cases) (auto simp: seen_absent_def)

text \<open>The look at the list is one of this call's own events.\<close>

lemma destroy_seen:
  assumes "destroy_within x exe vm a w = (Inr u, w')"
  shows "\<exists>es. trace w' = trace w @ es \<and> seen_absent exe vm es"
proof -
  from assms obtain present v where v: "vm_exists x exe vm w = (Inr present, v)"
    and rest: "(if \<not> present then ret ()
      else andthen (power_off x exe vm) (destroy_loop x exe vm a a [])) v = (Inr u, w')"
    by (auto simp: destroy_within_def run_inv)
  have "evolves (emits (\<lambda>_. True)) (if \<not> present then ret ()
      else andthen (power_off x exe vm) (destroy_loop x exe vm a a []))"
    by (intro evolve_intros evolves_emits_mono[OF emit_vm.ev_power_off] evolves_emits_mono[OF emit_vm.ev_destroy_loop]) simp_all
  from evolvesD[OF this rest] obtain fs where "trace w' = trace v @ fs" by (auto simp: emits_def)
  moreover obtain ev where "trace v = trace w @ [ev]"
    using v vbox_run_trace(1) by (fastforce simp: vm_exists_def list_vms_def run_inv)
  ultimately have "trace w' = trace w @ ev # fs" by simp
  with destroy_absent[OF assms] show ?thesis by (intro exI[of _ "ev # fs"]) (simp add: seen_absent_new[of w' w])
qed

text \<open>
  C8: destroying a machine. When it returns, the last thing it asked was the list of registered
  machines, answered without error, and the machine was not in it; otherwise it raises, so a
  machine that survives the delete never passes silently. No other machine is changed.
\<close>

theorem destroy_verified:
  "case destroy_within x exe vm attempts w of (r, w') \<Rightarrow>
     gives (\<lambda>_. \<exists>es. trace w' = trace w @ es \<and> seen_absent exe vm es) r
     \<and> fails_as vbox_exn r
     \<and> emits (only_machines ((=) vm)) w w' \<and> files w' = files w"
proof -
  obtain r w' where run: "destroy_within x exe vm attempts w = (r, w')"
    by (cases "destroy_within x exe vm attempts w")
  have "gives (\<lambda>_. \<exists>es. trace w' = trace w @ es \<and> seen_absent exe vm es) r"
    using run unfolding gives_def by (auto dest: destroy_seen)
  moreover have "fails_as vbox_exn r"
    using throws_destroy run unfolding throws_def by (metis fst_conv)
  moreover have "emits (only_machines ((=) vm)) w w'" "keeps_files (\<lambda>_. True) w w'"
    using run by (auto intro: evolvesD[OF emit_vm.ev_destroy] evolvesD[OF keep_vm.ev_destroy])
  ultimately show ?thesis by (auto simp: run keeps_files_def)
qed

subsection \<open>Finding the guest's address\<close>

definition private_range :: "string \<Rightarrow> bool" where
  "private_range a \<longleftrightarrow> startswith a ''192.168.'' \<or> startswith a ''10.''"

lemma find_cases:
  "case find P xs of Some x \<Rightarrow> x \<in> set xs \<and> P x | None \<Rightarrow> \<not> (\<exists>x \<in> set xs. P x)"
  by (auto simp: find_None_iff split: option.splits dest: find_in_set)

lemma select_lan_address_rule:
  "let candidates = lan_candidates interfaces;
       a = select_lan_address interfaces lan
   in if candidates = [] then a = []
      else a \<in> set candidates
        \<and> (if \<exists>c \<in> set candidates. lan \<noteq> [] \<and> same_slash24 c lan then same_slash24 a lan
           else if \<exists>c \<in> set candidates. private_range c then private_range a
           else a = hd candidates)"
proof -
  have range: "find (\<lambda>a. startswith a ''192.168.'' \<or> startswith a ''10.'') cs = find private_range cs" for cs
    by (rule arg_cong[where f = "\<lambda>P. find P cs"]) (auto simp: private_range_def)
  show ?thesis
    using find_cases[where P = "\<lambda>a. same_slash24 a lan" and xs = "lan_candidates interfaces"]
      find_cases[where P = private_range and xs = "lan_candidates interfaces"]
    unfolding Let_def select_lan_address_def range
    by (cases "lan = []") (auto split: option.splits)
qed

text \<open>
  C36: which of a guest's addresses is taken. Only addresses of interfaces that are not virtual,
  and neither loopback nor link-local, are candidates; with none the result is empty. Otherwise
  it is a candidate: one in the host's own /24 if there is any, else one in a common private
  range if there is any, else the first. So a Docker bridge is never chosen.
\<close>

theorem select_lan_address_spec:
  "let candidates = map snd (filter (\<lambda>(name, a). \<not> is_virtual_interface name \<and> is_usable_address a)
         interfaces);
       a = select_lan_address interfaces lan
   in if candidates = [] then a = []
      else a \<in> set candidates
        \<and> (if \<exists>c \<in> set candidates. lan \<noteq> [] \<and> same_slash24 c lan then same_slash24 a lan
           else if \<exists>c \<in> set candidates. private_range c then private_range a
           else a = hd candidates)"
  using select_lan_address_rule[where interfaces = interfaces and lan = lan]
  unfolding lan_candidates_def .

lemma interfaces_of_output_ipv4: "(n, a) \<in> set (interfaces_of_output out) \<Longrightarrow> ipv4_match a"
  by (auto simp: interfaces_of_output_def Let_def List.map_filter_def split: option.splits if_splits)

lemma ipv4_match_nonempty: "ipv4_match a \<Longrightarrow> a \<noteq> []"
  by (auto simp: ipv4_match_def dotted_quad_def)

lemma select_in_candidates:
  "select_lan_address ifs lan = a \<Longrightarrow> a \<noteq> [] \<Longrightarrow> a \<in> set (lan_candidates ifs)"
  using select_lan_address_rule[where interfaces = ifs and lan = lan]
  unfolding Let_def by (auto split: if_splits)

text \<open>
  Where an address came from: the last thing asked was the guest's interfaces, and the address is
  that of one which is neither virtual nor unusable; or it was a look-up of the host name, and the
  address is the first dotted quad of the answer.
\<close>

definition heard :: "path \<Rightarrow> string \<Rightarrow> string \<Rightarrow> string \<Rightarrow> event list \<Rightarrow> bool" where
  "heard exe vm host a es \<longleftrightarrow> es \<noteq> [] \<and> ipv4_match a \<and>
     ((\<exists>out err n. last es = EvProc [path_str exe, ''guestproperty'', ''enumerate'', vm]
          (Some (ProcDone 0 out err))
        \<and> (n, a) \<in> set (interfaces_of_output out) \<and> \<not> is_virtual_interface n \<and> is_usable_address a)
      \<or> (\<exists>addresses. last es = EvResolve host (Some (Resolved addresses)) \<and> find ipv4_match addresses = Some a))"

lemma guest_interfaces_heard:
  assumes "guest_ipv4_interfaces x exe vm w = (Inr ifs, w')" and "select_lan_address ifs lan = a" and "a \<noteq> []"
  shows "heard exe vm host a (trace w')"
proof -
  from assms(1) obtain r where r: "vbox_run x exe [''guestproperty'', ''enumerate'', vm] False 120 w = (Inr r, w')"
    and ifs: "ifs = (if \<not> p_ok r then [] else interfaces_of_output (p_stdout r))"
    by (auto simp: guest_ipv4_interfaces_def run_inv)
  have "a \<in> set (lan_candidates ifs)" using assms(2,3) by (rule select_in_candidates)
  then obtain n where n: "(n, a) \<in> set ifs" "\<not> is_virtual_interface n" "is_usable_address a"
    by (auto simp: lan_candidates_def)
  then have "p_ok r" "(n, a) \<in> set (interfaces_of_output (p_stdout r))" using ifs by (auto split: if_splits)
  then show ?thesis
    using n vbox_run_trace(1)[OF r] interfaces_of_output_ipv4 by (auto simp: heard_def p_ok_def)
qed

lemma resolve_heard:
  "resolve_ipv4 x host w = (Inr a, w') \<Longrightarrow> a \<noteq> [] \<Longrightarrow> heard exe vm host a (trace w')"
  by (auto simp: resolve_ipv4_def run_simps heard_def first_ipv4_def
      split: prod.splits option.splits resolve_outcome.splits dest: find_in_set)

text \<open>
  Errors of one poll: of the hypervisor, of the resolver (which are no program errors), or an
  interrupt; never a timeout of the loop.
\<close>

definition poll_exn :: "exn \<Rightarrow> bool" where
  "poll_exn e \<longleftrightarrow> is_VirtualBoxError e \<or> (\<exists>msg. e = OSError msg \<or> e = ValueError msg) \<or> e = KeyboardInterrupt"

lemma throws_poll:
  "throws poll_exn (guest_ipv4_interfaces x exe vm)" "throws poll_exn (resolve_ipv4 x host)"
  "throws poll_exn (sleep x ms)" "throws poll_exn (host_lan_ipv4 x)"
  unfolding guest_ipv4_interfaces_def resolve_ipv4_def vbox_run_def host_lan_ipv4_def Let_def
  by (intro throws_intros; simp add: poll_exn_def)+

lemma guest_ip_loop_outcome:
  "case wait_for_guest_ip_loop x exe vm host lan t d w of (r, w') \<Rightarrow>
     gives (\<lambda>a. heard exe vm host a (trace w')) r
     \<and> fails_as (\<lambda>e. poll_exn e \<or> is_ProvisioningTimeoutError e \<and> d \<le> clock w') r"
proof (induction x exe vm host lan t d w rule: wait_for_guest_ip_loop.induct)
  case (1 x exe vm host lan t d w)
  obtain r v where a: "guest_ipv4_interfaces x exe vm w = (r, v)" by (cases "guest_ipv4_interfaces x exe vm w")
  obtain q z where b: "resolve_ipv4 x host v = (q, z)" by (cases "resolve_ipv4 x host v")
  obtain s u where s: "sleep x POLL_INTERVAL_MS z = (s, u)" by (cases "sleep x POLL_INTERVAL_MS z")
  show ?case
  proof (cases "clock w < d \<and> (\<exists>ifs. r = Inr ifs \<and> select_lan_address ifs lan = [])
      \<and> q = Inr [] \<and> (\<exists>k. s = Inr k)")
    case True
    then obtain ifs k where c: "clock w < d" "r = Inr ifs" "select_lan_address ifs lan = []" "q = Inr []"
      "s = Inr k" by blast
    then show ?thesis
      using 1(1)[of "Inr ifs" v ifs "Inr []" z "[]" "Inr k" u k] a b s
      by (subst wait_for_guest_ip_loop.simps) simp
  next
    case False
    have errs: "r = Inl e \<Longrightarrow> poll_exn e" "q = Inl e \<Longrightarrow> poll_exn e" "s = Inl e \<Longrightarrow> poll_exn e" for e
      using a b s throws_poll by (metis throwsD)+
    have "heard exe vm host (select_lan_address ifs lan) (trace v)"
      if "r = Inr ifs" "select_lan_address ifs lan \<noteq> []" for ifs
      using guest_interfaces_heard a that by blast
    moreover have "heard exe vm host b (trace z)" if "q = Inr b" "b \<noteq> []" for b
      using resolve_heard b that by blast
    ultimately show ?thesis using False a b s errs
      by (subst wait_for_guest_ip_loop.simps) (auto simp: run_simps split: sum.splits)
  qed
qed

lemma guest_ip_outcome:
  "case wait_for_guest_ip x exe vm host t w of (r, w') \<Rightarrow>
     gives (\<lambda>a. heard exe vm host a (trace w')) r
     \<and> fails_as (\<lambda>e. is_VirtualBoxError e \<or> e = KeyboardInterrupt
          \<or> (\<exists>msg. e = OSError msg \<or> e = ValueError msg)
          \<or> is_ProvisioningTimeoutError e \<and> clock w + 1000 * t \<le> clock w') r
     \<and> emits (only_machines ((=) vm)) w w' \<and> files w' = files w"
proof -
  obtain r w' where run: "wait_for_guest_ip x exe vm host t w = (r, w')"
    by (cases "wait_for_guest_ip x exe vm host t w")
  obtain q v where lan: "host_lan_ipv4 x w = (q, v)" by (cases "host_lan_ipv4 x w")
  have clock: "clock w \<le> clock v"
    using lan by (auto simp: host_lan_ipv4_def run_simps split: prod.splits option.splits)
  have lan_err: "q = Inl e \<Longrightarrow> poll_exn e" for e using throwsD[OF throws_poll(4)] lan by blast
  have "gives (\<lambda>a. heard exe vm host a (trace w')) r
     \<and> fails_as (\<lambda>e. poll_exn e \<or> is_ProvisioningTimeoutError e \<and> clock w + 1000 * t \<le> clock w') r"
  proof (cases q)
    case (Inl e)
    then show ?thesis using run lan lan_err by (auto simp: wait_for_guest_ip_def run_simps)
  next
    case (Inr l)
    then have "wait_for_guest_ip_loop x exe vm host l t (clock v + 1000 * t) v = (r, w')"
      using run lan by (simp add: wait_for_guest_ip_def run_simps)
    then show ?thesis
      using guest_ip_loop_outcome[where x = x and exe = exe and vm = vm and host = host and lan = l
          and t = t and d = "clock v + 1000 * t" and w = v] clock
      by (auto simp: fails_as_def)
  qed
  moreover have "emits (only_machines ((=) vm)) w w'" "keeps_files (\<lambda>_. True) w w'"
    using run by (auto intro: evolvesD[OF emit_vm.ev_wait_for_guest_ip]
        evolvesD[OF keep_vm.ev_wait_for_guest_ip])
  ultimately show ?thesis by (auto simp: run keeps_files_def poll_exn_def fails_as_def)
qed

text \<open>
  C25: discovering a guest's address always ends. A returned address is a dotted quad that the last
  call made reported: by the guest's own enumeration, for an interface that is neither virtual nor
  loopback nor link-local, or as the first dotted quad in the answer to a look-up of its host name. A
  timeout is reported only once the whole time has passed, and no other machine and no local file is
  changed. Beside the hypervisor's errors and interrupts, two errors that are none of the program's
  own can escape: an operating system error of the resolver, and the value error of a host name
  that cannot be encoded.
\<close>

theorem wait_for_guest_ip_outcome:
  "case wait_for_guest_ip x exe vm host t w of (r, w') \<Rightarrow>
     gives (\<lambda>a. heard exe vm host a (trace w')) r
     \<and> fails_as (\<lambda>e. is_VirtualBoxError e \<or> e = KeyboardInterrupt
          \<or> (\<exists>msg. e = OSError msg \<or> e = ValueError msg)
          \<or> is_ProvisioningTimeoutError e \<and> clock w + 1000 * t \<le> clock w') r
     \<and> emits (only_machines ((=) vm)) w w' \<and> files w' = files w"
  by (rule guest_ip_outcome)

end
