(* ===== verification/Inventory.thy ===== *)
theory Inventory
  imports VirtualBox
begin

text \<open>
  \<^verbatim>\<open>src/vmdeploy/inventory.py\<close>: the registry record, the key file, the encrypted wire format and
  \<open>upsert\<close>. AES-256-GCM is the pair \<open>x_seal\<close>, \<open>x_open\<close> of the environment; what the code relies on
  is \<open>aead\<close>: opening undoes sealing under the same key and nonce, and a sealed text is sixteen
  bytes longer. The detail texts of base64, UTF-8 and JSON errors are fixed strings here.
\<close>

definition KEY_BYTES :: nat where "KEY_BYTES = 32"
definition NONCE_BYTES :: nat where "NONCE_BYTES = 12"
definition TAG_BYTES :: nat where "TAG_BYTES = 16"

text \<open>The required fields, in sorted order.\<close>

definition REQUIRED_FIELDS :: "string list" where
  "REQUIRED_FIELDS = [''hostname'', ''ipv4'', ''ipv6'', ''role'', ''state'', ''state_timestamp'',
     ''status'', ''status_timestamp'']"

definition utc_timestamp :: "'e env \<Rightarrow> ('e, string) prog" where
  "utc_timestamp x = bnd monotonic (\<lambda>now.
     case x_utc x now of (y, mo, d, h, mi, s) \<Rightarrow>
       ret (show_nat y @ ''-'' @ pad2 mo @ ''-'' @ pad2 d @ ''T'' @ pad2 h @ '':'' @ pad2 mi @ '':''
            @ pad2 s @ ''Z''))"

record inventory_record =
  inv_hostname :: string
  inv_role :: string
  inv_ipv4 :: string
  inv_ipv6 :: string
  inv_status :: string
  status_timestamp :: string
  inv_state :: string
  state_timestamp :: string

definition to_dict :: "inventory_record \<Rightarrow> (string \<times> json) list" where
  "to_dict r = [(''hostname'', JStr (inv_hostname r)), (''role'', JStr (inv_role r)),
     (''ipv4'', JStr (inv_ipv4 r)), (''ipv6'', JStr (inv_ipv6 r)), (''status'', JStr (inv_status r)),
     (''status_timestamp'', JStr (status_timestamp r)), (''state'', JStr (inv_state r)),
     (''state_timestamp'', JStr (state_timestamp r))]"

definition field_text :: "(string \<Rightarrow> string) \<Rightarrow> (string \<times> json) list \<Rightarrow> string \<Rightarrow> string" where
  "field_text f payload key = (case dget payload key of Some v \<Rightarrow> json_str f v | None \<Rightarrow> [])"

definition from_dict :: "'e env \<Rightarrow> (string \<times> json) list \<Rightarrow> exn + inventory_record" where
  "from_dict x payload =
     (let missing = filter (\<lambda>k. k \<notin> set (dkeys payload)) REQUIRED_FIELDS;
          text_of = field_text (x_float_str x) payload
      in if missing \<noteq> []
         then Inl (InventoryError (''Inventory record is missing required field(s): ''
                @ py_repr_list missing))
         else Inr \<lparr>inv_hostname = text_of ''hostname'', inv_role = text_of ''role'',
                inv_ipv4 = text_of ''ipv4'', inv_ipv6 = text_of ''ipv6'',
                inv_status = text_of ''status'', status_timestamp = text_of ''status_timestamp'',
                inv_state = text_of ''state'', state_timestamp = text_of ''state_timestamp''\<rparr>)"

subsection \<open>The key file\<close>

definition generate_key :: "('e, bytes) prog" where
  "generate_key = urandom KEY_BYTES"

definition key_length_error :: "bytes \<Rightarrow> exn" where
  "key_length_error key = InventoryError (''AES-256 key must be '' @ show_nat KEY_BYTES
     @ '' bytes, got '' @ show_nat (length key))"

definition write_key_file :: "bytes \<Rightarrow> path \<Rightarrow> ('e, unit) prog" where
  "write_key_file key p =
     (if length key \<noteq> KEY_BYTES then raise (key_length_error key)
      else andthen
        (catch (andthen (mkdir (path_parent p)) (write_bytes p (b64encode key)))
           (\<lambda>e. if is_OSError e
                then Some (raise (InventoryError (''Cannot write inventory key to '' @ path_str p
                       @ '': '' @ exn_str e)))
                else None))
        (catch (chmod p 384) (\<lambda>e. if is_OSError e then Some (ret ()) else None)))"

definition load_key :: "path \<Rightarrow> ('e, bytes) prog" where
  "load_key p =
     bnd (catch (bnd (read_ascii p) (\<lambda>t. ret (strip t)))
            (\<lambda>e. case e of
                OSError msg \<Rightarrow> Some (raise (InventoryError
                  (''Cannot read inventory key at '' @ path_str p @ '': '' @ msg)))
              | UnicodeDecodeError msg \<Rightarrow> Some (raise (InventoryError
                  (''Inventory key at '' @ path_str p @ '' is not ASCII base64: '' @ msg)))
              | _ \<Rightarrow> None)) (\<lambda>encoded.
     case b64decode (ascii_encode encoded) of
       None \<Rightarrow> raise (InventoryError (''Inventory key at '' @ path_str p @ '' is not valid base64: ''
         @ ''Invalid base64-encoded string''))
     | Some key \<Rightarrow>
         if length key \<noteq> KEY_BYTES
         then raise (InventoryError (''Inventory key at '' @ path_str p @ '' decodes to ''
                @ show_nat (length key) @ '' bytes, expected '' @ show_nat KEY_BYTES))
         else ret key)"

definition load_or_create_key :: "path \<Rightarrow> ('e, bytes) prog" where
  "load_or_create_key p =
     bnd (is_file p) (\<lambda>present.
     if present then load_key p
     else bnd generate_key (\<lambda>key. andthen (write_key_file key p) (ret key)))"

subsection \<open>The wire format\<close>

definition records_json :: "inventory_record list \<Rightarrow> json" where
  "records_json records = JArr (map (\<lambda>r. JObj (to_dict r)) records)"

definition encrypt_records :: "'e env \<Rightarrow> inventory_record list \<Rightarrow> bytes \<Rightarrow> ('e, bytes) prog" where
  "encrypt_records x records key =
     (if length key \<noteq> KEY_BYTES then raise (key_length_error key)
      else let plaintext = utf8_encode (json_dumps (records_json records)) in
        bnd (urandom NONCE_BYTES) (\<lambda>nonce.
        let sealed = x_seal x key nonce plaintext in
        ret (b64encode (nonce @ sealed))))"

definition parse_entry :: "'e env \<Rightarrow> nat \<Rightarrow> json \<Rightarrow> exn + inventory_record" where
  "parse_entry x index entry = (case entry of
       JObj payload \<Rightarrow> from_dict x payload
     | _ \<Rightarrow> Inl (InventoryError (''Inventory entry '' @ show_nat index @ '' is not a JSON object'')))"

definition parse_plaintext :: "'e env \<Rightarrow> bytes \<Rightarrow> exn + inventory_record list" where
  "parse_plaintext x plaintext = (case Option.bind (utf8_decode plaintext) json_loads of
       None \<Rightarrow> Inl (InventoryError
         (''Decrypted inventory is not valid UTF-8 JSON: '' @ ''malformed document''))
     | Some (JArr entries) \<Rightarrow> map_err (parse_entry x) 0 entries
     | Some v \<Rightarrow> Inl (InventoryError (''Decrypted inventory must be a JSON array, got ''
         @ json_type_name v)))"

definition decrypt_records :: "'e env \<Rightarrow> bytes \<Rightarrow> bytes \<Rightarrow> exn + inventory_record list" where
  "decrypt_records x blob key =
     (if length key \<noteq> KEY_BYTES then Inl (key_length_error key)
      else case b64decode blob of
          None \<Rightarrow> Inl (DecryptionError (''Inventory payload is not valid base64: ''
            @ ''Invalid base64-encoded string''))
        | Some raw \<Rightarrow>
            if length raw < NONCE_BYTES + TAG_BYTES
            then Inl (DecryptionError (''Inventory payload is '' @ show_nat (length raw)
                   @ '' bytes, too short to contain a '' @ show_nat NONCE_BYTES
                   @ ''-byte nonce and '' @ show_nat TAG_BYTES @ ''-byte tag''))
            else let nonce = take NONCE_BYTES raw; sealed = drop NONCE_BYTES raw in
              (case x_open x key nonce sealed of
                 None \<Rightarrow> Inl (DecryptionError
                   (''Inventory payload failed AES-256-GCM authentication; the key is wrong ''
                    @ ''or the ciphertext was truncated, corrupted, or tampered with''))
               | Some plaintext \<Rightarrow> parse_plaintext x plaintext))"

subsection \<open>Insertion by host name\<close>

fun upsert :: "inventory_record list \<Rightarrow> inventory_record \<Rightarrow> inventory_record list" where
  "upsert [] candidate = [candidate]"
| "upsert (existing # records) candidate =
     (if inv_hostname existing = inv_hostname candidate then candidate # records
      else existing # upsert records candidate)"

text \<open>
  What a registry promises of inserting by key: the keys keep their order, a new one goes last,
  and a look-up by key gives the record just inserted and otherwise what it gave before.
\<close>

locale registry =
  fixes key :: "'r \<Rightarrow> 'k" and ins :: "'r list \<Rightarrow> 'r \<Rightarrow> 'r list"
  assumes keys_ins: "map key (ins rs r) =
      (if key r \<in> set (map key rs) then map key rs else map key rs @ [key r])"
    and find_ins: "find (\<lambda>s. key s = k) (ins rs r) =
      (if k = key r then Some r else find (\<lambda>s. key s = k) rs)"
begin

lemma distinct_ins: "distinct (map key rs) \<Longrightarrow> distinct (map key (ins rs r))"
  by (subst keys_ins) auto

lemma distinct_register: "distinct (map key rs) \<Longrightarrow> distinct (map key (foldl ins rs new))"
  by (induction new arbitrary: rs) (auto simp del: distinct_map intro: distinct_ins)

lemma find_register:
  "find (\<lambda>s. key s = k) (foldl ins rs new) =
   (case find (\<lambda>s. key s = k) (rev new) of Some r \<Rightarrow> Some r | None \<Rightarrow> find (\<lambda>s. key s = k) rs)"
proof (induction new arbitrary: rs)
  case Nil
  then show ?case by simp
next
  case (Cons r new)
  have app: "find P (xs @ ys) = (case find P xs of Some x \<Rightarrow> Some x | None \<Rightarrow> find P ys)"
    for P and xs ys :: "'r list"
    by (induction xs) auto
  show ?case by (simp add: Cons.IH find_ins app split: option.splits)
qed

lemma keys_register:
  "distinct (map key new) \<Longrightarrow>
   map key (foldl ins rs new) = map key rs @ filter (\<lambda>k. k \<notin> set (map key rs)) (map key new)"
proof (induction new arbitrary: rs)
  case Nil
  then show ?case by simp
next
  case (Cons r new)
  have "filter (\<lambda>k. k \<notin> set (map key (ins rs r))) (map key new) =
      filter (\<lambda>k. k \<notin> set (map key rs)) (map key new)"
    using Cons.prems by (subst keys_ins) (auto intro!: filter_cong)
  then have "map key (foldl ins (ins rs r) new) =
      map key (ins rs r) @ filter (\<lambda>k. k \<notin> set (map key rs)) (map key new)"
    using Cons.IH[of "ins rs r"] Cons.prems by simp
  also have "map key (ins rs r) = map key rs @ filter (\<lambda>k. k \<notin> set (map key rs)) [key r]"
    by (simp add: keys_ins)
  finally show ?case by simp
qed

lemma ins_twice: "find (\<lambda>s. key s = k) (ins (ins rs r) r) = find (\<lambda>s. key s = k) (ins rs r)"
  by (simp add: find_ins)

end

lemma upsert_keys:
  "map inv_hostname (upsert rs r) = (if inv_hostname r \<in> set (map inv_hostname rs)
     then map inv_hostname rs else map inv_hostname rs @ [inv_hostname r])"
  by (induction rs) auto

lemma upsert_find:
  "find (\<lambda>s. inv_hostname s = k) (upsert rs r) =
     (if k = inv_hostname r then Some r else find (\<lambda>s. inv_hostname s = k) rs)"
  by (induction rs) auto

interpretation hosts: registry inv_hostname upsert
  by unfold_locales (rule upsert_keys upsert_find)+

section \<open>Properties\<close>

text \<open>
  Registering hosts one after the other. Looking a host up finds its last registration, or
  what the registry held before when it was not registered; no host name appears twice if none did
  before; and new host names come after the old ones, in the order of registration, so the order
  of the balancer's members is stable.
\<close>

theorem upsert_registry:
  "find (\<lambda>r. inv_hostname r = h) (foldl upsert rs new) =
     (case find (\<lambda>r. inv_hostname r = h) (rev new) of
        Some r \<Rightarrow> Some r | None \<Rightarrow> find (\<lambda>r. inv_hostname r = h) rs)
   \<and> (distinct (map inv_hostname rs) \<longrightarrow> distinct (map inv_hostname (foldl upsert rs new)))
   \<and> (distinct (map inv_hostname new) \<longrightarrow> map inv_hostname (foldl upsert rs new) =
        map inv_hostname rs @ filter (\<lambda>k. k \<notin> set (map inv_hostname rs)) (map inv_hostname new))"
  using hosts.find_register hosts.distinct_register hosts.keys_register by blast

definition quiet_record :: inventory_record where
  "quiet_record = \<lparr>inv_hostname = ''web1'', inv_role = ''backend'', inv_ipv4 = ''192.168.1.7'', inv_ipv6 = [],
     inv_status = ''Deployed'', status_timestamp = ''2026-01-02T03:04:05Z'', inv_state = ''Active'',
     state_timestamp = ''2026-01-02T03:04:05Z''\<rparr>"

theorem upsert_registry_witness:
  "distinct (map inv_hostname (foldl upsert [quiet_record] [quiet_record, quiet_record\<lparr>inv_hostname := ''web2''\<rparr>]))
   \<and> map inv_hostname (foldl upsert [quiet_record] [quiet_record, quiet_record\<lparr>inv_hostname := ''web2''\<rparr>])
     = [''web1'', ''web2'']"
  using upsert_registry[of h "[quiet_record]" "[quiet_record, quiet_record\<lparr>inv_hostname := ''web2''\<rparr>]"]
  by (simp add: quiet_record_def)

subsection \<open>The wire format\<close>

definition aead :: "'e env \<Rightarrow> bool" where
  "aead x \<longleftrightarrow> (\<forall>key nonce plain. length key = 32 \<and> length nonce = 12 \<longrightarrow>
     x_open x key nonce (x_seal x key nonce plain) = Some plain
     \<and> length (x_seal x key nonce plain) = length plain + 16)"

definition sorted_dict :: "inventory_record \<Rightarrow> (string \<times> json) list" where
  "sorted_dict r = [(''hostname'', JStr (inv_hostname r)), (''ipv4'', JStr (inv_ipv4 r)),
     (''ipv6'', JStr (inv_ipv6 r)), (''role'', JStr (inv_role r)), (''state'', JStr (inv_state r)),
     (''state_timestamp'', JStr (state_timestamp r)), (''status'', JStr (inv_status r)),
     (''status_timestamp'', JStr (status_timestamp r))]"

lemma sort_to_dict: "sort_key fst (to_dict r) = sorted_dict r"
  by (simp add: to_dict_def sorted_dict_def less_eq_char_def of_char_of)

lemma sorted_dict_keys: "sorted_wrt (<) (map fst (sorted_dict r))"
  by (simp add: sorted_dict_def less_char_def)

lemma from_sorted_dict: "from_dict x (sorted_dict r) = Inr r"
  by (simp add: from_dict_def REQUIRED_FIELDS_def sorted_dict_def field_text_def Let_def)

lemma dump_to_dict: "json_dump i (JObj (to_dict r)) = json_dump i (JObj (sorted_dict r))"
  using sort_to_dict[of r] sort_key_sorted[OF sorted_dict_keys[of r]]
  by (simp add: to_dict_def sorted_dict_def)

lemma records_text:
  "json_dumps (records_json rs) = json_dumps (JArr (map (\<lambda>r. JObj (sorted_dict r)) rs))"
  by (simp add: json_dumps_def records_json_def comp_def dump_to_dict del: json_dump.simps(7))

lemma writes_sorted: "writes (JArr (map (\<lambda>r. JObj (sorted_dict r)) rs))"
proof -
  have "\<forall>kv \<in> set (sorted_dict r). writes (snd kv)" for r by (simp add: sorted_dict_def)
  then show ?thesis using sorted_dict_keys by auto
qed

lemma parse_written: "parse_plaintext x (utf8_encode (json_dumps (records_json rs))) = Inr rs"
proof -
  have "map_err (parse_entry x) 0 (map (\<lambda>r. JObj (sorted_dict r)) rs) = Inr rs"
    by (rule map_err_map) (simp add: parse_entry_def from_sorted_dict)
  then show ?thesis
    unfolding parse_plaintext_def records_text by (simp add: utf8_roundtrip json_roundtrip[OF writes_sorted])
qed

lemma encrypt_decrypt:
  assumes "aead x" and "length key = 32"
  shows "\<exists>blob. encrypt_records x rs key w = (Inr blob, w\<lparr>drawn := drawn w + 12\<rparr>)
    \<and> list_all (\<lambda>b. unat b < 128) blob \<and> decrypt_records x blob key = Inr rs"
proof -
  define nonce where "nonce = map (entropy w) [drawn w..<drawn w + 12]"
  define plain where "plain = utf8_encode (json_dumps (records_json rs))"
  define blob where "blob = b64encode (nonce @ x_seal x key nonce plain)"
  have n: "length nonce = 12" by (simp add: nonce_def)
  have a: "x_open x key nonce (x_seal x key nonce plain) = Some plain"
    "length (x_seal x key nonce plain) = length plain + 16"
    using assms n unfolding aead_def by blast+
  have "decrypt_records x blob key = Inr rs"
    using assms(2) n a parse_written[of x rs]
    by (simp add: decrypt_records_def blob_def b64_roundtrip KEY_BYTES_def NONCE_BYTES_def TAG_BYTES_def
        plain_def[symmetric])
  moreover have "encrypt_records x rs key w = (Inr blob, w\<lparr>drawn := drawn w + 12\<rparr>)"
    using assms(2)
    by (simp add: encrypt_records_def run_simps blob_def nonce_def plain_def KEY_BYTES_def NONCE_BYTES_def)
  ultimately show ?thesis using b64encode_ascii by (auto simp: blob_def)
qed

text \<open>
  C9: encrypting always succeeds with a 32-byte key, its output is base64 text in ASCII, it draws
  exactly one fresh nonce and touches nothing else, and decrypting it under the same key gives back
  the very records, in order. Nothing is asked of the records: any text survives the JSON, UTF-8
  and base64 layers.
\<close>

theorem encrypt_decrypt_roundtrip:
  assumes "aead x" and "length key = 32"
  shows "\<exists>blob. encrypt_records x rs key w = (Inr blob, w\<lparr>drawn := drawn w + 12\<rparr>)
    \<and> list_all (\<lambda>b. unat b < 128) blob \<and> decrypt_records x blob key = Inr rs"
  using assms by (rule encrypt_decrypt)

lemma quiet_aead: "aead quiet_env"
  by (simp add: aead_def quiet_env_def)

theorem encrypt_decrypt_roundtrip_witness:
  "\<exists>blob. encrypt_records (quiet_env :: unit env) [quiet_record] (replicate 32 7) quiet_world
       = (Inr blob, quiet_world\<lparr>drawn := 12\<rparr>)
     \<and> decrypt_records (quiet_env :: unit env) blob (replicate 32 7) = Inr [quiet_record]"
  using encrypt_decrypt_roundtrip[OF quiet_aead, of "replicate 32 7" "[quiet_record]" quiet_world]
  by (auto simp: quiet_world_def)

lemma parse_entry_fails: "fails_as is_InventoryError (parse_entry x i j)"
  by (cases j) (auto simp: parse_entry_def from_dict_def Let_def)

lemma parse_plaintext_fails: "fails_as is_InventoryError (parse_plaintext x plain)"
  by (auto simp: parse_plaintext_def intro: fails_map_err parse_entry_fails split: option.splits json.splits)

text \<open>
  C30: decrypting, on any input. It returns records only when the key has 32 bytes, the payload is
  base64 of at least a nonce and a tag, and the cipher authenticated it; they are then the records
  of the authenticated text. When the cipher refuses, the error is \<open>DecryptionError\<close>; every
  error is an \<open>InventoryError\<close> or its subclass, so nothing else escapes to the caller.
\<close>

theorem decrypt_authenticates:
  "fails_as is_InventoryError (decrypt_records x blob key)
   \<and> gives (\<lambda>rs. length key = 32 \<and> (\<exists>raw plain. b64decode blob = Some raw \<and> 28 \<le> length raw
        \<and> x_open x key (take 12 raw) (drop 12 raw) = Some plain
        \<and> parse_plaintext x plain = Inr rs)) (decrypt_records x blob key)
   \<and> (length key = 32 \<and> Option.bind (b64decode blob) (\<lambda>raw. x_open x key (take 12 raw) (drop 12 raw)) = None
        \<longrightarrow> (\<exists>msg. decrypt_records x blob key = Inl (DecryptionError msg)))"
  using parse_plaintext_fails
  by (auto simp: decrypt_records_def Let_def key_length_error_def KEY_BYTES_def NONCE_BYTES_def TAG_BYTES_def
      gives_def split: option.splits)

theorem decrypt_authenticates_witness:
  "\<exists>msg. decrypt_records ((quiet_env :: unit env)\<lparr>x_open := \<lambda>_ _ _. None\<rparr>) (b64encode (replicate 40 1)) (replicate 32 7)
     = Inl (DecryptionError msg)"
proof -
  have "Option.bind (b64decode (b64encode (replicate 40 1)))
      (\<lambda>raw. x_open (quiet_env\<lparr>x_open := \<lambda>_ _ _. None\<rparr>) (replicate 32 7) (take 12 raw) (drop 12 raw)) = None"
    by (simp add: b64_roundtrip)
  then show ?thesis
    using decrypt_authenticates[of "quiet_env\<lparr>x_open := \<lambda>_ _ _. None\<rparr>" "b64encode (replicate 40 1)"
        "replicate 32 7"] by (auto simp only: length_replicate)
qed

subsection \<open>The key file\<close>

lemma run_write_key_file:
  "length key = 32 \<Longrightarrow> write_key_file key p w =
     (if denied w Making (path_parent p) then
        (Inl (InventoryError (''Cannot write inventory key to '' @ path_str p @ '': ''
           @ exn_str (permission_denied (path_parent p)))), w)
      else if denied w Opening p then
        (Inl (InventoryError (''Cannot write inventory key to '' @ path_str p @ '': ''
           @ exn_str (permission_denied p))), w)
      else if \<not> fits w p (b64encode key) then
        (Inl (InventoryError (''Cannot write inventory key to '' @ path_str p @ '': '' @ exn_str (disk_full p))),
         w\<lparr>files := (files w)(p \<mapsto> take (the (room w p)) (b64encode key))\<rparr>)
      else (Inr (), w\<lparr>files := (files w)(p \<mapsto> b64encode key),
        modes := if denied w Changing p then modes w else (modes w)(p \<mapsto> 384)\<rparr>))"
  by (auto simp: write_key_file_def run_simps mkdir_def write_bytes_def chmod_def permission_denied_def
      disk_full_def KEY_BYTES_def)

lemma b64_char_range: "33 \<le> unat (b64_char n) \<and> unat (b64_char n) < 128"
proof -
  consider "n < 26" | "26 \<le> n" "n < 52" | "52 \<le> n" "n < 62" | "n = 62" | "62 < n" by linarith
  then show ?thesis by cases (auto simp: b64_char_def unat_byte_of)
qed

lemma b64encode_range: "b \<in> set (b64encode bs) \<Longrightarrow> 33 \<le> unat b \<and> unat b < 128"
  by (induction bs rule: b64encode.induct) (auto simp: b64_char_range b64_pad_def unat_byte_of)

lemma b64_text_stripped:
  "strip (map (\<lambda>b. char_of (unat b)) (b64encode k)) = map (\<lambda>b. char_of (unat b)) (b64encode k)"
proof -
  have no: "\<not> is_space (char_of (unat b))" if "b \<in> set (b64encode k)" for b
    using b64encode_range[OF that] by (auto simp: is_space_def)
  then have "stripped (map (\<lambda>b. char_of (unat b)) (b64encode k))"
    by (auto simp: stripped_by_def hd_map last_map)
  then show ?thesis by (simp add: strip_def strip_by_id)
qed

lemma load_written:
  assumes "files w p = Some (b64encode key)" and "\<not> denied w Opening p" and "length key = 32"
  shows "load_key p w = (Inr key, w)"
proof -
  let ?t = "map (\<lambda>b. char_of (unat b)) (b64encode key)"
  have "ascii_decode (b64encode key) = Some ?t"
    using b64encode_ascii by (simp add: ascii_decode_def)
  moreover have "ascii_encode ?t = b64encode key"
    by (auto simp: ascii_encode_def comp_def intro: map_idI)
  ultimately show ?thesis
    using assms
    by (simp add: load_key_def run_simps read_ascii_def read_bytes_def b64_text_stripped b64_roundtrip KEY_BYTES_def)
qed

lemma load_key_result:
  "load_key p w = (r, w') \<Longrightarrow> w' = w \<and> fails_as is_InventoryError r \<and> gives (\<lambda>k. length k = 32) r"
  by (auto simp: load_key_def run_simps read_ascii_def read_bytes_def KEY_BYTES_def no_such_file_def
      permission_denied_def split: option.splits if_splits)

lemma load_or_create_key_run:
  "case load_or_create_key p w of (r, w') \<Rightarrow>
     gives (\<lambda>key. length key = 32 \<and> load_or_create_key p w' = (Inr key, w')) r
     \<and> (if files w p \<noteq> None then w' = w
        else drawn w' = drawn w + 32 \<and> (\<forall>q. q = p \<or> files w' q = files w q))
     \<and> fails_as is_InventoryError r"
proof (cases "files w p")
  case (Some b)
  obtain r w' where l: "load_key p w = (r, w')" by (cases "load_key p w")
  then have "load_or_create_key p w = (r, w)" and "w' = w"
    using Some load_key_result[OF l] by (simp_all add: load_or_create_key_def run_simps)
  then show ?thesis using load_key_result[OF l] Some by (auto simp: gives_def)
next
  case None
  define key where "key = map (entropy w) [drawn w..<drawn w + 32]"
  have len: "length key = 32" by (simp add: key_def)
  let ?v = "w\<lparr>drawn := drawn w + 32\<rparr>"
  let ?u = "\<lambda>m. ?v\<lparr>files := (files w)(p \<mapsto> b64encode key), modes := m\<rparr>"
  have run: "load_or_create_key p w = (case write_key_file key p ?v of
      (Inl e, z) \<Rightarrow> (Inl e, z) | (Inr _, z) \<Rightarrow> (Inr key, z))"
    using None by (simp add: load_or_create_key_def run_simps generate_key_def KEY_BYTES_def key_def
        split: prod.splits sum.splits)
  have again: "load_or_create_key p (?u m) = (Inr key, ?u m)" if "\<not> denied w Opening p" for m
    using load_written[of "?u m" p key] that len by (simp add: load_or_create_key_def run_simps)
  show ?thesis using None again len
    by (auto simp: run run_write_key_file)
qed

text \<open>
  The registry key. An existing key file is read and never rewritten: nothing changes, valid
  or not. When there is none, 32 fresh random bytes become the key. Whenever a key is returned it
  has 32 bytes and the file then holds it: asking again returns the same key and changes nothing.
  Every failure is an \<open>InventoryError\<close>.
\<close>

theorem load_or_create_key_stable:
  "case load_or_create_key p w of (r, w') \<Rightarrow>
     gives (\<lambda>key. length key = 32 \<and> load_or_create_key p w' = (Inr key, w')) r
     \<and> (if files w p \<noteq> None then w' = w
        else drawn w' = drawn w + 32 \<and> (\<forall>q. q = p \<or> files w' q = files w q))
     \<and> fails_as is_InventoryError r"
  by (rule load_or_create_key_run)

end
