(* ===== verification/Quoting.thy ===== *)
theory Quoting
  imports Inventory
begin

text \<open>
  Text placed inside other text: YAML single-quoted scalars (\<^verbatim>\<open>seed.py\<close>) and single POSIX shell
  words (\<^verbatim>\<open>website.py\<close>). The locale \<open>quoting\<close> states what a quotation promises against a reader
  of the target language; each quotation is interpreted with a reader written after the language's
  own rules.
\<close>

locale quoting =
  fixes quote :: "string \<Rightarrow> string" and read :: "string \<Rightarrow> (string \<times> string) option"
    and ends :: "string \<Rightarrow> bool"
  assumes read_quote: "ends rest \<Longrightarrow> read (quote s @ rest) = Some (s, rest)"
begin

lemma quote_unique: "ends r \<Longrightarrow> ends r' \<Longrightarrow> quote s @ r = quote t @ r' \<Longrightarrow> s = t \<and> r = r'"
  by (metis option.inject prod.inject read_quote)

lemma quote_inj: "ends [] \<Longrightarrow> quote s = quote t \<Longrightarrow> s = t"
  using quote_unique[of "[]" "[]" s t] by simp

end

subsection \<open>YAML\<close>

definition yaml_quote :: "string \<Rightarrow> string" where
  "yaml_quote value = c_sq # replace_char c_sq [c_sq, c_sq] value @ [c_sq]"

text \<open>
  A single-quoted scalar: two quotes stand for one, a single one ends it, and no other character
  is special. A line break inside it would be folded into a space; the reader keeps it.
\<close>

fun yaml_body :: "string \<Rightarrow> (string \<times> string) option" where
  "yaml_body [] = None"
| "yaml_body (c # cs) =
     (if c = c_sq then
        (case cs of
           d # ds \<Rightarrow> if d = c_sq then map_option (\<lambda>(t, r). (c_sq # t, r)) (yaml_body ds) else Some ([], cs)
         | [] \<Rightarrow> Some ([], []))
      else map_option (\<lambda>(t, r). (c # t, r)) (yaml_body cs))"

definition yaml_scalar :: "string \<Rightarrow> (string \<times> string) option" where
  "yaml_scalar s = (if startswith s [c_sq] then yaml_body (tl s) else None)"

definition not_quote :: "string \<Rightarrow> bool" where
  "not_quote r \<longleftrightarrow> r = [] \<or> hd r \<noteq> c_sq"

lemma yaml_body_quote:
  "not_quote r \<Longrightarrow> yaml_body (replace_char c_sq [c_sq, c_sq] s @ c_sq # r) = Some (s, r)"
  by (induction s) (auto simp: not_quote_def split: list.splits)

interpretation yaml: quoting yaml_quote yaml_scalar not_quote
  by unfold_locales (simp add: yaml_quote_def yaml_scalar_def startswith_def yaml_body_quote)

subsection \<open>POSIX shell\<close>

definition shell_quote :: "string \<Rightarrow> string" where
  "shell_quote value = c_sq # replace_char c_sq [c_sq, c_bs, c_sq, c_sq] value @ [c_sq]"

text \<open>
  One word: a single quote starts a run of literal characters up to the next one, a backslash
  outside such a run takes the next character literally, and white space or the end of the text
  ends the word. Any other unquoted character of the shell grammar is refused.
\<close>

definition shell_plain :: "char \<Rightarrow> bool" where
  "shell_plain c \<longleftrightarrow> is_word_char c \<or> c \<in> set ''./:=@%+-,''"

definition shell_blank :: "char \<Rightarrow> bool" where
  "shell_blank c \<longleftrightarrow> c = CHR '' '' \<or> c = CHR 0x09 \<or> c = c_nl"

fun shell_word :: "bool \<Rightarrow> string \<Rightarrow> (string \<times> string) option" where
  "shell_word quoted_run [] = (if quoted_run then None else Some ([], []))"
| "shell_word True (c # cs) =
     (if c = c_sq then shell_word False cs
      else map_option (\<lambda>(t, r). (c # t, r)) (shell_word True cs))"
| "shell_word False (c # cs) =
     (if c = c_sq then shell_word True cs
      else if c = c_bs then
        (case cs of [] \<Rightarrow> None | d # ds \<Rightarrow> map_option (\<lambda>(t, r). (d # t, r)) (shell_word False ds))
      else if shell_blank c then Some ([], c # cs)
      else if shell_plain c then map_option (\<lambda>(t, r). (c # t, r)) (shell_word False cs)
      else None)"

definition word_end :: "string \<Rightarrow> bool" where
  "word_end r \<longleftrightarrow> r = [] \<or> shell_blank (hd r)"

lemma shell_word_end: "word_end r \<Longrightarrow> shell_word False r = Some ([], r)"
  by (cases r) (auto simp: word_end_def shell_blank_def)

lemma shell_word_quote:
  "word_end r \<Longrightarrow> shell_word True (replace_char c_sq [c_sq, c_bs, c_sq, c_sq] s @ c_sq # r) = Some (s, r)"
  by (induction s) (auto simp: shell_word_end)

interpretation shell: quoting shell_quote "shell_word False" word_end
  by unfold_locales (simp add: shell_quote_def shell_word_quote)

text \<open>
  A text quoted for YAML is read back as exactly that text, wherever the scalar stands, and two
  different texts never have the same quotation; so no value can end its scalar early.
\<close>

theorem yaml_quote_roundtrip:
  "yaml_scalar (yaml_quote s) = Some (s, [])
   \<and> (rest = [] \<or> hd rest \<noteq> c_sq \<longrightarrow> yaml_scalar (yaml_quote s @ rest) = Some (s, rest))
   \<and> (yaml_quote s = yaml_quote t \<longrightarrow> s = t)"
  using yaml.read_quote[of "[]" s] yaml.read_quote[of rest s] yaml.quote_inj[of s t]
  by (auto simp: not_quote_def)

theorem yaml_quote_roundtrip_witness:
  "yaml_scalar (yaml_quote [CHR ''a'', c_sq, CHR ''b''] @ [c_nl]) = Some ([CHR ''a'', c_sq, CHR ''b''], [c_nl])"
  using yaml_quote_roundtrip[of "[CHR ''a'', c_sq, CHR ''b'']" "[c_nl]" "[]"] by simp

text \<open>
  A text quoted for the shell is read by a POSIX shell as one word, equal to that text whatever
  it contains: quotes, line breaks, dollar signs, semicolons. Two different texts never have the
  same quotation.
\<close>

theorem shell_quote_roundtrip:
  "shell_word False (shell_quote s) = Some (s, [])
   \<and> (rest \<noteq> [] \<and> shell_blank (hd rest) \<longrightarrow> shell_word False (shell_quote s @ rest) = Some (s, rest))
   \<and> (shell_quote s = shell_quote t \<longrightarrow> s = t)"
  using shell.read_quote[of "[]" s] shell.read_quote[of rest s] shell.quote_inj[of s t]
  by (auto simp: word_end_def)

theorem shell_quote_roundtrip_witness:
  "shell_word False (shell_quote [CHR ''x'', c_sq, CHR '';''] @ '' y'') = Some ([CHR ''x'', c_sq, CHR '';''], '' y'')"
  using shell_quote_roundtrip[of "[CHR ''x'', c_sq, CHR '';'']" "'' y''" "[]"] by (simp add: shell_blank_def)

end
