(* ===== verification/Seed.thy ===== *)
theory Seed
  imports Quoting
begin

text \<open>
  \<^verbatim>\<open>src/vmdeploy/seed.py\<close>: the checks on host name, account and public key, the two cloud-init
  documents, and \<open>build_seed_iso\<close>. The ISO writer (\<open>pycdlib\<close>) is \<open>x_iso\<close>: the image, or the error,
  for the label and extensions of a medium and the files put on it.
\<close>

definition is_alnum :: "char \<Rightarrow> bool" where
  "is_alnum c \<longleftrightarrow> is_digit c \<or> is_lower c \<or> is_upper c"

text \<open>An RFC 1123 label, and a portable account name: what the patterns are meant to accept.\<close>

definition hostname_label :: "string \<Rightarrow> bool" where
  "hostname_label s \<longleftrightarrow> s \<noteq> [] \<and> length s \<le> 63 \<and> is_alnum (hd s) \<and> is_alnum (last s)
     \<and> list_all (\<lambda>c. is_alnum c \<or> c = CHR ''-'') s"

definition account_name :: "string \<Rightarrow> bool" where
  "account_name s \<longleftrightarrow> s \<noteq> [] \<and> length s \<le> 32 \<and> (is_lower (hd s) \<or> hd s = CHR ''_'')
     \<and> list_all (\<lambda>c. is_lower c \<or> is_digit c \<or> c = CHR ''_'' \<or> c = CHR ''-'') (tl s)"

text \<open>
  \<open>re.match\<close> of a pattern that ends in a dollar: the dollar also matches before a line break that
  ends the text.
\<close>

definition dollar_match :: "(string \<Rightarrow> bool) \<Rightarrow> string \<Rightarrow> bool" where
  "dollar_match L s \<longleftrightarrow> L s \<or> (s \<noteq> [] \<and> last s = c_nl \<and> L (butlast s))"

definition hostname_match :: "string \<Rightarrow> bool" where
  "hostname_match s \<longleftrightarrow> dollar_match hostname_label s"

definition username_match :: "string \<Rightarrow> bool" where
  "username_match s \<longleftrightarrow> dollar_match account_name s"

definition PUBLIC_KEY_TYPES :: "string list" where
  "PUBLIC_KEY_TYPES = [''ssh-ed25519'', ''ssh-rsa'', ''ecdsa-sha2-nistp256'', ''ecdsa-sha2-nistp384'',
     ''ecdsa-sha2-nistp521'', ''sk-ssh-ed25519@openssh.com'', ''sk-ecdsa-sha2-nistp256@openssh.com'']"

definition validate_hostname :: "string \<Rightarrow> exn + unit" where
  "validate_hostname host =
     (if hostname_match host then Inr ()
      else Inl (VmDeployError (''invalid hostname '' @ py_repr host
        @ '': must be 1-63 characters of letters, digits, ''
        @ ''or inner hyphens, and must not start or end with a hyphen'')))"

definition validate_username :: "string \<Rightarrow> exn + unit" where
  "validate_username username =
     (if username_match username then Inr ()
      else Inl (VmDeployError (''invalid username '' @ py_repr username
        @ '': must start with a lowercase letter or underscore ''
        @ ''and contain only lowercase letters, digits, underscores, or hyphens (32 max)'')))"

definition validate_public_key :: "string \<Rightarrow> exn + string" where
  "validate_public_key public_key =
     (let candidate = strip public_key in
      if candidate = []
      then Inl (VmDeployError ''the deployer public key is empty; nothing could log in to the guest'')
      else if c_nl \<in> set candidate \<or> c_cr \<in> set candidate
      then Inl (VmDeployError (''the deployer public key spans multiple lines; supply exactly one ''
             @ ''OpenSSH public key''))
      else if \<not> list_ex (startswith candidate) PUBLIC_KEY_TYPES
      then Inl (VmDeployError (''unrecognised public key type '' @ py_repr (hd (words candidate))
             @ ''; expected one of '' @ py_repr_list PUBLIC_KEY_TYPES @ ''. ''
             @ ''Note this must be the .pub file, not the private key.''))
      else Inr candidate)"

subsection \<open>The documents\<close>

definition user_data_lines :: "string \<Rightarrow> string \<Rightarrow> string \<Rightarrow> string list" where
  "user_data_lines host username key =
    [''#cloud-config'',
     ''hostname: '' @ yaml_quote host,
     ''fqdn: '' @ yaml_quote host,
     ''preserve_hostname: false'',
     ''manage_etc_hosts: true'',
     ''ssh_deletekeys: true'',
     ''users:'',
     ''  - name: '' @ yaml_quote username,
     ''    shell: /bin/bash'',
     ''    lock_passwd: true'',
     ''    sudo: '' @ [c_sq] @ ''ALL=(ALL) NOPASSWD:ALL'' @ [c_sq],
     ''    ssh_authorized_keys:'',
     ''      - '' @ yaml_quote key,
     ''ssh_pwauth: false'',
     ''disable_root: true'',
     '''']"

definition render_user_data :: "string \<Rightarrow> string \<Rightarrow> string \<Rightarrow> exn + string" where
  "render_user_data host username public_key =
     sbind (validate_hostname host) (\<lambda>_.
     sbind (validate_username username) (\<lambda>_.
     sbind (validate_public_key public_key) (\<lambda>key.
     Inr (join [c_nl] (user_data_lines host username key)))))"

definition render_meta_data :: "string \<Rightarrow> string \<Rightarrow> exn + string" where
  "render_meta_data host instance_id =
     sbind (validate_hostname host) (\<lambda>_.
     Inr (join [c_nl] [''instance-id: '' @ yaml_quote instance_id,
       ''local-hostname: '' @ yaml_quote host, '''']))"

text \<open>The medium: its label, its extensions, and the three names of each file.\<close>

definition SEED_VOLUME_LABEL :: string where "SEED_VOLUME_LABEL = ''cidata''"

definition ISO_IDENTIFIERS :: "string dict" where
  "ISO_IDENTIFIERS = [(''user-data'', ''/USERDATA.;1''), (''meta-data'', ''/METADATA.;1'')]"

definition SEED_ISO :: iso_options where
  "SEED_ISO = \<lparr>interchange_level = 3, joliet_level = 3, rock_ridge = ''1.09'', vol_ident = SEED_VOLUME_LABEL\<rparr>"

definition seed_file :: "string \<Rightarrow> string \<Rightarrow> iso_file" where
  "seed_file name txt = \<lparr>iso_payload = utf8_encode txt, iso_identifier = the (dget ISO_IDENTIFIERS name),
     rr_name = name, joliet_path = ''/'' @ name\<rparr>"

definition build_seed_iso ::
  "'e env \<Rightarrow> path \<Rightarrow> string \<Rightarrow> string \<Rightarrow> string \<Rightarrow> string option \<Rightarrow> ('e, path) prog" where
  "build_seed_iso x destination host username public_key instance_id =
     bnd (case instance_id of
            Some i \<Rightarrow> if i = [] then bnd (urandom 16) (\<lambda>u. ret (host @ ''-'' @ hex_of (take 6 u))) else ret i
          | None \<Rightarrow> bnd (urandom 16) (\<lambda>u. ret (host @ ''-'' @ hex_of (take 6 u)))) (\<lambda>resolved_id.
     bnd (of_sum (render_user_data host username public_key)) (\<lambda>user_data.
     bnd (of_sum (render_meta_data host resolved_id)) (\<lambda>meta_data.
     andthen (mkdir (path_parent destination))
     (andthen (unlink_missing_ok destination)
     (andthen
       (case x_iso x SEED_ISO [seed_file ''user-data'' user_data, seed_file ''meta-data'' meta_data] of
          Inl msg \<Rightarrow> raise (VmDeployError (''could not write the seed ISO to '' @ path_str destination
            @ '': '' @ msg))
        | Inr img \<Rightarrow> catch (write_bytes destination img) (\<lambda>e. if is_OSError e
            then Some (raise (VmDeployError (''could not write the seed ISO to '' @ path_str destination
              @ '': '' @ exn_str e)))
            else None))
     (ret destination))))))"

section \<open>Properties\<close>

lemma hostname_label_no_newline: "hostname_label s \<Longrightarrow> c_nl \<notin> set s"
  by (auto simp: hostname_label_def list_all_iff is_alnum_def is_digit_def is_lower_def is_upper_def)

lemma account_name_no_newline: "account_name s \<Longrightarrow> c_nl \<notin> set s"
  by (cases s) (auto simp: account_name_def list_all_iff is_digit_def is_lower_def)

text \<open>
  What the two name checks accept. Every RFC 1123 label and every portable account name, and
  nothing else but such a name followed by one line break: the patterns end in a dollar, which
  matches before a final line break. Each rejection is a \<open>VmDeployError\<close>.
\<close>

theorem name_checks_accept:
  "((\<exists>u. validate_hostname h = Inr u) \<longleftrightarrow> hostname_label h \<or> (\<exists>g. h = g @ [c_nl] \<and> hostname_label g))
   \<and> ((\<exists>u. validate_username a = Inr u) \<longleftrightarrow> account_name a \<or> (\<exists>g. a = g @ [c_nl] \<and> account_name g))
   \<and> fails_as is_VmDeployError (validate_hostname h) \<and> fails_as is_VmDeployError (validate_username a)"
proof -
  have "dollar_match L s \<longleftrightarrow> L s \<or> (\<exists>g. s = g @ [c_nl] \<and> L g)" for L s
    unfolding dollar_match_def by (cases s rule: rev_cases) auto
  then show ?thesis
    by (auto simp: validate_hostname_def validate_username_def hostname_match_def username_match_def)
qed

lemma replace_char_newline: "c_nl \<in> set (replace_char c_sq [c_sq, c_sq] s) \<longleftrightarrow> c_nl \<in> set s"
  by (induction s) auto

lemma yaml_quote_newline: "c_nl \<in> set (yaml_quote s) \<longleftrightarrow> c_nl \<in> set s"
  by (simp add: yaml_quote_def replace_char_newline)

lemma validate_public_key_Inr:
  "validate_public_key k = Inr key \<Longrightarrow> key = strip k \<and> key \<noteq> [] \<and> c_nl \<notin> set key
     \<and> (\<exists>t \<in> set PUBLIC_KEY_TYPES. startswith key t)"
  by (auto simp: validate_public_key_def Let_def list_ex_iff split: if_splits)

lemma render_user_data_Inr:
  "render_user_data h u k = Inr doc \<Longrightarrow> hostname_match h \<and> username_match u
     \<and> validate_public_key k = Inr (strip k) \<and> doc = join [c_nl] (user_data_lines h u (strip k))"
  by (auto simp: render_user_data_def run_inv validate_hostname_def validate_username_def
      dest: validate_public_key_Inr split: if_splits)

lemma user_data_nonempty: "user_data_lines h u k \<noteq> []"
  by (simp add: user_data_lines_def)

lemma user_data_no_newline:
  assumes "c_nl \<notin> set h" "c_nl \<notin> set u" "c_nl \<notin> set k"
  shows "\<forall>l \<in> set (user_data_lines h u k). c_nl \<notin> set l"
  using assms by (simp add: user_data_lines_def yaml_quote_newline)

text \<open>
  The cloud-config document cannot be injected into. When it is rendered for names without a
  line break, its lines are exactly the sixteen fixed ones; host name, account and key sit in
  single-quoted scalars that fill the rest of their line and read back to the validated values. So
  one account is created, key-only, with the deployer's key and no other.
\<close>

theorem user_data_shape:
  assumes "render_user_data h u k = Inr doc" and "c_nl \<notin> set h" and "c_nl \<notin> set u"
  shows "\<exists>qh qu qk. yaml_scalar qh = Some (h, []) \<and> yaml_scalar qu = Some (u, [])
     \<and> yaml_scalar qk = Some (strip k, [])
     \<and> hostname_label h \<and> account_name u \<and> (\<exists>t \<in> set PUBLIC_KEY_TYPES. startswith (strip k) t)
     \<and> split_on c_nl doc = [''#cloud-config'', ''hostname: '' @ qh, ''fqdn: '' @ qh,
         ''preserve_hostname: false'', ''manage_etc_hosts: true'', ''ssh_deletekeys: true'', ''users:'',
         ''  - name: '' @ qu, ''    shell: /bin/bash'', ''    lock_passwd: true'',
         ''    sudo: '' @ [c_sq] @ ''ALL=(ALL) NOPASSWD:ALL'' @ [c_sq], ''    ssh_authorized_keys:'',
         ''      - '' @ qk, ''ssh_pwauth: false'', ''disable_root: true'', '''']"
proof -
  note r = render_user_data_Inr[OF assms(1)]
  then have k: "c_nl \<notin> set (strip k)" "\<exists>t \<in> set PUBLIC_KEY_TYPES. startswith (strip k) t"
    using validate_public_key_Inr by blast+
  have "hostname_label h" "account_name u"
    using r assms(2,3) unfolding hostname_match_def username_match_def dollar_match_def
    by (metis last_in_set)+
  moreover have "split_on c_nl doc = user_data_lines h u (strip k)"
    using r split_on_join[OF user_data_nonempty user_data_no_newline[OF assms(2,3) k(1)]] by simp
  ultimately show ?thesis
    using k(2) yaml.read_quote[of "[]"]
    by (intro exI[of _ "yaml_quote h"] exI[of _ "yaml_quote u"] exI[of _ "yaml_quote (strip k)"])
      (simp add: not_quote_def user_data_lines_def)
qed

text \<open>A deployer's key line, on which the theorems are applied.\<close>

definition sample_key :: string where
  "sample_key = ''ssh-ed25519 AAAAC3Nza ops''"

lemma render_sample: "\<exists>doc. render_user_data ''web1'' ''ops'' sample_key = Inr doc"
proof -
  have "validate_hostname ''web1'' = Inr ()" and "validate_username ''ops'' = Inr ()"
    by (simp_all add: validate_hostname_def validate_username_def hostname_match_def username_match_def
        dollar_match_def hostname_label_def account_name_def is_alnum_def is_digit_def is_lower_def)
  moreover have "strip sample_key = sample_key"
    unfolding strip_def by (rule strip_by_id) (simp add: sample_key_def stripped_by_def is_space_def)
  then have "validate_public_key sample_key = Inr sample_key"
    by (simp add: validate_public_key_def Let_def PUBLIC_KEY_TYPES_def)
      (simp add: sample_key_def startswith_def)
  ultimately show ?thesis by (simp add: render_user_data_def)
qed

theorem user_data_shape_witness:
  "\<exists>doc qk. render_user_data ''web1'' ''ops'' sample_key = Inr doc
     \<and> yaml_scalar qk = Some (strip sample_key, []) \<and> split_on c_nl doc ! 12 = ''      - '' @ qk"
proof -
  obtain doc where d: "render_user_data ''web1'' ''ops'' sample_key = Inr doc" using render_sample ..
  from user_data_shape[OF d] show ?thesis using d by auto
qed

lemma build_seed_run:
  "case build_seed_iso x dest h u k iid w of (r, w') \<Rightarrow>
     gives (\<lambda>p. p = dest \<and> (\<exists>i ud md img. render_user_data h u k = Inr ud \<and> render_meta_data h i = Inr md
          \<and> i = (case iid of Some j \<Rightarrow> if j = [] then h @ ''-'' @ hex_of (map (entropy w) [drawn w..<drawn w + 6]) else j
                 | None \<Rightarrow> h @ ''-'' @ hex_of (map (entropy w) [drawn w..<drawn w + 6]))
          \<and> x_iso x SEED_ISO [seed_file ''user-data'' ud, seed_file ''meta-data'' md] = Inr img
          \<and> files w' = (files w)(dest \<mapsto> img))) r
     \<and> fails_as (\<lambda>e. is_VmDeployError e \<or> is_OSError e) r
     \<and> (\<forall>q. q = dest \<or> files w' q = files w q)
     \<and> (if \<exists>ud. render_user_data h u k = Inr ud then True else files w' = files w)"
proof -
  define i where "i = (case iid of
      Some j \<Rightarrow> if j = [] then h @ ''-'' @ hex_of (map (entropy w) [drawn w..<drawn w + 6]) else j
    | None \<Rightarrow> h @ ''-'' @ hex_of (map (entropy w) [drawn w..<drawn w + 6]))"
  define v where "v = (case iid of Some j \<Rightarrow> if j = [] then w\<lparr>drawn := drawn w + 16\<rparr> else w
    | None \<Rightarrow> w\<lparr>drawn := drawn w + 16\<rparr>)"
  have six: "take 6 (map (entropy w) [drawn w..<drawn w + 16]) = map (entropy w) [drawn w..<drawn w + 6]"
    by (simp add: take_map take_upt)
  have id: "(case iid of
            Some i \<Rightarrow> if i = [] then bnd (urandom 16) (\<lambda>u. ret (h @ ''-'' @ hex_of (take 6 u))) else ret i
          | None \<Rightarrow> bnd (urandom 16) (\<lambda>u. ret (h @ ''-'' @ hex_of (take 6 u)))) w = (Inr i, v)"
    by (cases iid) (simp_all add: run_simps i_def v_def six del: upt_Suc)
  have v: "files v = files w" "denied v = denied w" by (cases iid; simp add: v_def)+
  have err: "fails_as is_VmDeployError (render_user_data h u k)" "fails_as is_VmDeployError (render_meta_data h i)"
    by (auto simp: render_user_data_def render_meta_data_def validate_hostname_def validate_username_def
        validate_public_key_def Let_def intro!: fails_as_sbind)
  show ?thesis
  proof (cases "render_user_data h u k")
    case (Inl e)
    then show ?thesis using err v by (simp add: build_seed_iso_def run_simps id)
  next
    case ud: (Inr ud)
    show ?thesis
    proof (cases "render_meta_data h i")
      case (Inl e)
      then show ?thesis using ud err v by (simp add: build_seed_iso_def run_simps id)
    next
      case (Inr md)
      then show ?thesis using ud v i_def[symmetric]
        by (auto simp: build_seed_iso_def run_simps id mkdir_def unlink_missing_ok_def unlink_def
            write_bytes_def permission_denied_def no_such_file_def split: sum.splits)
    qed
  qed
qed

text \<open>
  C39: writing a seed. When it returns, the file holds the image of a medium with the label
  cloud-init looks for, and on it under their names exactly the two documents, rendered for the given host, account and key, the instance id being the one given or a fresh
  one; no other file changed. When the inputs are refused nothing on disk changes. The only
  errors are \<open>VmDeployError\<close> and, from making room for the file, \<open>OSError\<close>.
\<close>

theorem build_seed_iso_written:
  "case build_seed_iso x dest h u k iid w of (r, w') \<Rightarrow>
     gives (\<lambda>p. p = dest \<and> (\<exists>i ud md img. render_user_data h u k = Inr ud \<and> render_meta_data h i = Inr md
          \<and> i = (case iid of Some j \<Rightarrow> if j = [] then h @ ''-'' @ hex_of (map (entropy w) [drawn w..<drawn w + 6]) else j
                 | None \<Rightarrow> h @ ''-'' @ hex_of (map (entropy w) [drawn w..<drawn w + 6]))
          \<and> x_iso x SEED_ISO [seed_file ''user-data'' ud, seed_file ''meta-data'' md] = Inr img
          \<and> files w' = (files w)(dest \<mapsto> img))) r
     \<and> fails_as (\<lambda>e. is_VmDeployError e \<or> is_OSError e) r
     \<and> (\<forall>q. q = dest \<or> files w' q = files w q)
     \<and> (if \<exists>ud. render_user_data h u k = Inr ud then True else files w' = files w)"
  by (rule build_seed_run)

end
