(* ===== verification/Website.thy ===== *)
theory Website
  imports Seed
begin

text \<open>
  \<^verbatim>\<open>src/vmdeploy/website.py\<close>: fetching the site on a guest, publishing it into the document root and
  stamping the backend's identity. \<open>shell_quote\<close> is in theory Quoting.
\<close>

definition BACKEND_HEADER :: string where "BACKEND_HEADER = ''X-Backend-Host''"
definition BACKEND_META_NAME :: string where "BACKEND_META_NAME = ''x-backend-host''"
definition STAGING_DIR :: string where "STAGING_DIR = ''/tmp/vmdeploy-site''"
definition DOWNLOAD_TIMEOUT_SECONDS :: int where "DOWNLOAD_TIMEOUT_SECONDS = 600"

definition fetch_command :: "website_config \<Rightarrow> string" where
  "fetch_command website = ''curl -fsSL --http1.1 --retry 5 --retry-delay 3 --retry-all-errors ''
     @ ''--connect-timeout 30 '' @ archive_url website @ '' | tar -xz -C '' @ STAGING_DIR"

definition prepare_command :: string where
  "prepare_command = ''rm -rf '' @ STAGING_DIR @ '' && mkdir -p '' @ STAGING_DIR"

definition list_command :: string where
  "list_command = ''find '' @ STAGING_DIR @ '' -mindepth 1 -maxdepth 1 -type d''"

definition index_command :: "string \<Rightarrow> string" where
  "index_command site_root = ''test -f '' @ site_root @ ''/index.html''"

definition fetch_site_to_guest :: "'e env \<Rightarrow> remote_host \<Rightarrow> website_config \<Rightarrow> ('e, string) prog" where
  "fetch_site_to_guest x h website =
     andthen (run x h prepare_command True)
     (andthen
       (catch (run_for x h (fetch_command website) True (Some DOWNLOAD_TIMEOUT_SECONDS))
          (\<lambda>e. if is_RemoteCommandError e
               then Some (raise (WebsiteFetchError (''Could not download or unpack '' @ archive_url website
                 @ '' on '' @ address h @ '': '' @ exn_str e)))
               else None))
     (bnd (run x h list_command True) (\<lambda>found.
      let listing = result_lines found in
      if length listing \<noteq> 1
      then raise (WebsiteFetchError (''Expected exactly one top-level directory in the site archive on ''
             @ address h @ '', found '' @ show_nat (length listing) @ '': '' @ py_repr_list listing))
      else let site_root = hd listing in
        bnd (run x h (index_command site_root) False) (\<lambda>index_present.
        if \<not> ok index_present
        then raise (WebsiteFetchError (''Site archive unpacked to '' @ site_root @ '' on '' @ address h
               @ '' but contains no ''
               @ ''index.html; the archive_url may point at the wrong repository or branch''))
        else ret site_root))))"

definition stamp_script :: "string \<Rightarrow> string \<Rightarrow> string" where
  "stamp_script root backend =
     (let meta_tag = ''<meta name='' @ [c_dq] @ BACKEND_META_NAME @ [c_dq] @ '' content='' @ [c_dq]
            @ backend @ [c_dq] @ ''>''
      in ''for html_file in $(grep -rlI --include='' @ [c_sq] @ ''*.html'' @ [c_sq] @ '' -e '' @ [c_sq]
         @ ''<head'' @ [c_sq] @ '' '' @ root @ '' ''
         @ ''2>/dev/null); do ''
         @ ''  grep -q '' @ [c_sq] @ BACKEND_META_NAME @ [c_sq] @ '' '' @ [c_dq] @ ''$html_file'' @ [c_dq]
         @ '' && continue; ''
         @ ''  sed -i '' @ [c_sq] @ ''0,/<[Hh][Ee][Aa][Dd][^>]*>/s//&'' @ [c_bs] @ ''n    '' @ meta_tag @ ''/''
         @ [c_sq] @ '' '' @ [c_dq] @ ''$html_file'' @ [c_dq] @ ''; ''
         @ ''done'')"

definition stamp_backend_identity ::
  "'e env \<Rightarrow> remote_host \<Rightarrow> string \<Rightarrow> string \<Rightarrow> ('e, unit) prog" where
  "stamp_backend_identity x h root backend =
     catch (andthen (sudo x h (''sh -c '' @ shell_quote (stamp_script root backend)) True) (ret ()))
       (\<lambda>e. if is_RemoteCommandError e
            then Some (raise (WebsiteFetchError (''Could not stamp backend identity into '' @ root
              @ '' on '' @ address h @ '': '' @ exn_str e)))
            else None)"

definition install_commands :: "string \<Rightarrow> string \<Rightarrow> string list" where
  "install_commands site_root root =
     [''rm -rf '' @ root, ''mkdir -p '' @ root, ''cp -a '' @ site_root @ ''/. '' @ root @ ''/'',
      ''chown -R www-data:www-data '' @ root, ''find '' @ root @ '' -type d -exec chmod 755 {} +'',
      ''find '' @ root @ '' -type f -exec chmod 644 {} +'']"

text \<open>The part of \<open>publish_site\<close> that follows the fetch.\<close>

definition publish_from ::
  "'e env \<Rightarrow> remote_host \<Rightarrow> website_config \<Rightarrow> string \<Rightarrow> string \<Rightarrow> ('e, unit) prog" where
  "publish_from x h website backend site_root =
     (let root = document_root website in
     andthen
       (catch (for_each (install_commands site_root root) (\<lambda>cmd. andthen (sudo x h cmd True) (ret ())))
          (\<lambda>e. if is_RemoteCommandError e
               then Some (raise (WebsiteFetchError (''Could not install site content into '' @ root
                 @ '' on '' @ address h @ '': '' @ exn_str e)))
               else None))
     (andthen (stamp_backend_identity x h root backend)
     (andthen (run x h (''rm -rf '' @ STAGING_DIR) False) (ret ()))))"

definition publish_site :: "'e env \<Rightarrow> remote_host \<Rightarrow> website_config \<Rightarrow> string \<Rightarrow> ('e, unit) prog" where
  "publish_site x h website backend =
     bnd (fetch_site_to_guest x h website) (publish_from x h website backend)"

section \<open>Effects\<close>

context guest_session begin

lemma ev_fetch_site [evolve_intros]: "evolves R (fetch_site_to_guest x h website)"
  unfolding fetch_site_to_guest_def Let_def
  by (intro ev_andthen ev_bnd ev_catch ev_ret ev_raise evolves_if ev_run)
    (auto intro: ev_raise split: if_splits)

lemma ev_stamp [evolve_intros]: "evolves R (stamp_backend_identity x h root b)"
  unfolding stamp_backend_identity_def
  by (intro ev_andthen ev_catch ev_ret ev_sudo) (auto intro: ev_raise split: if_splits)

lemma ev_publish_site [evolve_intros]: "evolves R (publish_site x h website b)"
  unfolding publish_site_def publish_from_def Let_def
  by (intro ev_andthen ev_bnd ev_catch ev_ret ev_for_each ev_fetch_site ev_stamp ev_run ev_sudo)
    (auto intro: ev_raise split: if_splits)

end

section \<open>Properties\<close>

text \<open>
  The commands before the installation: four, in this order, run by the login user and given no input.
  The first two write below the staging directory, the others only look.
\<close>

definition fetch_commands :: "website_config \<Rightarrow> string \<Rightarrow> string list" where
  "fetch_commands website site = [prepare_command, fetch_command website, list_command, index_command site]"

definition ran :: "remote_host \<Rightarrow> string list \<Rightarrow> event list \<Rightarrow> bool" where
  "ran h cmds es \<longleftrightarrow> list_all2 (\<lambda>cmd ev. \<exists>out. ev = EvExec (address h) (ssh_user (host_ssh h)) cmd None out) cmds es"

lemma ran_simps [simp]: "ran h [] []" "ran h [c] [EvExec (address h) (ssh_user (host_ssh h)) c None out]"
  by (simp_all add: ran_def)

lemma ran_append: "ran h cs es \<Longrightarrow> ran h ds fs \<Longrightarrow> ran h (cs @ ds) (es @ fs)"
  unfolding ran_def by (rule list_all2_appendI)

text \<open>A command was run, or it failed before anything was sent.\<close>

lemma run_ran:
  "run_for x h cmd c t w = (r, w') \<Longrightarrow>
   \<exists>es. trace w' = trace w @ es \<and> (ran h [cmd] es \<or> es = [] \<and> (\<exists>e. r = Inl e))"
  by (cases "clients w (host_id h)")
    (auto simp: run_run_for Let_def split: prod.splits option.splits exec_outcome.splits if_splits)

lemma emits_any: "evolves (emits (\<lambda>_. True)) (run_for x h cmd c t)"
    "evolves (emits (\<lambda>_. True)) (sudo_for x h cmd c t)"
  by (rule emit_session, simp)+

text \<open>A run of commands that may stop after any of them.\<close>

lemma ran_prefix:
  assumes "ran h (take n cs) es" and "trace v = trace w @ es" and "n < length cs"
    and "run_for x h (cs ! n) c t v = (r, v')"
  shows "\<exists>m fs. trace v' = trace w @ fs \<and> ran h (take m cs) fs \<and> (\<forall>a. r = Inr a \<longrightarrow> m = Suc n)"
proof -
  obtain gs where g: "trace v' = trace v @ gs" "ran h [cs ! n] gs \<or> gs = [] \<and> (\<exists>e. r = Inl e)"
    using run_ran[OF assms(4)] by blast
  then show ?thesis
  proof (elim disjE)
    assume "ran h [cs ! n] gs"
    then have "ran h (take (Suc n) cs) (es @ gs)"
      using ran_append[OF assms(1)] assms(3) by (simp add: take_Suc_conv_app_nth)
    then show ?thesis using g(1) assms(2) by (intro exI[of _ "Suc n"] exI[of _ "es @ gs"]) simp
  next
    assume "gs = [] \<and> (\<exists>e. r = Inl e)"
    then show ?thesis using g(1) assms(1,2) by (intro exI[of _ n] exI[of _ es]) auto
  qed
qed

lemma fetch_ran:
  assumes "fetch_site_to_guest x h website w = (q, v)"
  shows "\<exists>n site es. trace v = trace w @ es \<and> ran h (take n (fetch_commands website site)) es
    \<and> (\<forall>s. q = Inr s \<longrightarrow> site = s \<and> n = 4)"
proof -
  obtain r1 v1 where 1: "run x h prepare_command True w = (r1, v1)" by fastforce
  obtain r2 v2 where 2: "run_for x h (fetch_command website) True (Some DOWNLOAD_TIMEOUT_SECONDS) v1 = (r2, v2)" by fastforce
  obtain r3 v3 where 3: "run x h list_command True v2 = (r3, v3)" by fastforce
  define site where "site = (case r3 of Inr res \<Rightarrow> hd (result_lines res) | Inl e \<Rightarrow> [])"
  obtain r4 v4 where 4: "run x h (index_command site) False v3 = (r4, v4)" by fastforce
  let ?cs = "fetch_commands website site"
  have nth: "?cs ! 0 = prepare_command" "?cs ! 1 = fetch_command website" "?cs ! 2 = list_command"
    "?cs ! 3 = index_command site" "length ?cs = 4" by (simp_all add: fetch_commands_def)
  obtain n1 es1 where e1: "trace v1 = trace w @ es1" "ran h (take n1 ?cs) es1" "\<forall>a. r1 = Inr a \<longrightarrow> n1 = 1"
    using ran_prefix[of h 0 ?cs "[]" w w x True None r1 v1] 1 nth by auto
  have e2: "\<exists>n2 es2. trace v2 = trace w @ es2 \<and> ran h (take n2 ?cs) es2 \<and> (\<forall>a. r2 = Inr a \<longrightarrow> n2 = 2)"
    if "r1 = Inr a" for a
    using ran_prefix[of h 1 ?cs es1 v1 w x True "Some DOWNLOAD_TIMEOUT_SECONDS" r2 v2] 2 nth e1 that by (auto simp: numeral_2_eq_2)
  have e3: "\<exists>n3 es3. trace v3 = trace w @ es3 \<and> ran h (take n3 ?cs) es3 \<and> (\<forall>a. r3 = Inr a \<longrightarrow> n3 = 3)"
    if "r1 = Inr a" "r2 = Inr b" for a b
    using e2[OF that(1)] ran_prefix[of h 2 ?cs _ v2 w x True None r3 v3] 3 nth that by (auto simp: numeral_3_eq_3 numeral_2_eq_2)
  have e4: "\<exists>n4 es4. trace v4 = trace w @ es4 \<and> ran h (take n4 ?cs) es4 \<and> (\<forall>a. r4 = Inr a \<longrightarrow> n4 = 4)"
    if "r1 = Inr a" "r2 = Inr b" "r3 = Inr c" for a b c
    using e3[OF that(1,2)] ran_prefix[of h 3 ?cs _ v3 w x False None r4 v4] 4 nth that by (auto simp: eval_nat_numeral)
  have "(v = v1 \<and> (\<exists>e. r1 = Inl e) \<and> (\<exists>e. q = Inl e))
    \<or> (\<exists>a. r1 = Inr a \<and> v = v2 \<and> (\<exists>e. q = Inl e))
    \<or> (\<exists>a b. r1 = Inr a \<and> r2 = Inr b \<and> v = v3 \<and> (\<exists>e. q = Inl e))
    \<or> (\<exists>a b c. r1 = Inr a \<and> r2 = Inr b \<and> r3 = Inr c \<and> v = v4 \<and> ((\<exists>e. q = Inl e) \<or> q = Inr site \<and> (\<exists>d. r4 = Inr d)))"
    using assms 1 2 3 4 unfolding site_def
    by (cases r1; cases r2; cases r3; cases r4)
      (auto simp: fetch_site_to_guest_def run_simps Let_def split: if_splits)
  then show ?thesis
  proof (elim disjE exE conjE)
    fix e e' assume "v = v1" "q = Inl e'"
    then show ?thesis using e1 by blast
  next
    fix a e assume "r1 = Inr a" "v = v2" "q = Inl e"
    then show ?thesis using e2 by blast
  next
    fix a b e assume "r1 = Inr a" "r2 = Inr b" "v = v3" "q = Inl e"
    then show ?thesis using e3 by blast
  next
    fix a b c e assume "r1 = Inr a" "r2 = Inr b" "r3 = Inr c" "v = v4" "q = Inl e"
    then show ?thesis using e4 by blast
  next
    fix a b c d assume c: "r1 = Inr a" "r2 = Inr b" "r3 = Inr c" "v = v4" "q = Inr site" "r4 = Inr d"
    obtain n4 es4 where "trace v4 = trace w @ es4" "ran h (take n4 ?cs) es4" "n4 = 4" using e4[OF c(1-3)] c(6) by blast
    then show ?thesis using c(4,5) by (intro exI[of _ 4] exI[of _ site] exI[of _ es4]) simp
  qed
qed

lemma fetch_verified:
  assumes "fetch_site_to_guest x h website w = (Inr site, w')"
  shows "\<exists>es out err. trace w' = trace w @ es @ [EvExec (address h) (ssh_user (host_ssh h))
    (index_command site) None (Some (ExecDone 0 out err))]"
proof -
  from assms obtain r1 v1 r2 v2 r3 v3 res where
    1: "run x h prepare_command True w = (Inr r1, v1)"
    and 2: "run_for x h (fetch_command website) True (Some DOWNLOAD_TIMEOUT_SECONDS) v1 = (Inr r2, v2)"
    and 3: "run x h list_command True v2 = (Inr r3, v3)"
    and 4: "run x h (index_command site) False v3 = (Inr res, w')" "ok res"
    by (auto simp: fetch_site_to_guest_def run_inv catch_Inr Let_def split: if_splits)
  from emits_trace[OF emits_any(1) 1] emits_trace[OF emits_any(1) 2] emits_trace[OF emits_any(1) 3]
  obtain es where "trace v3 = trace w @ es" by auto
  then show ?thesis
    using 4 by (auto simp: run_run_for Let_def ok_def split: prod.splits option.splits exec_outcome.splits if_splits)
qed

lemma stamp_done:
  "stamp_backend_identity x h root b w = (Inr u, w') \<Longrightarrow>
   \<exists>es. trace w' = trace w @ es \<and> done_as_root h (''sh -c '' @ shell_quote (stamp_script root b)) es"
  by (auto simp: stamp_backend_identity_def catch_Inr run_inv split: if_splits dest: sudo_done)

lemma emits_session_any:
  "evolves (emits (\<lambda>_. True)) (stamp_backend_identity x h root b)"
  "evolves (emits (\<lambda>_. True)) (publish_site x h website b)"
  by (rule evolves_emits_mono[OF emit_guest.ev_stamp] evolves_emits_mono[OF emit_guest.ev_publish_site], simp)+

text \<open>
  What publishing raises: its own error, an error of the session, an interrupt; and the two commands
  that no \<open>try\<close> encloses let the failure of the command itself escape.
\<close>

definition site_exn :: "exn \<Rightarrow> bool" where
  "site_exn e \<longleftrightarrow> (\<exists>m. e = WebsiteFetchError m) \<or> is_SSHConnectionError e \<or> e = KeyboardInterrupt
     \<or> (\<exists>c status out err. e = RemoteCommandError c status out err \<and> c \<in> {prepare_command, list_command})"

lemma throws_run_named:
  "throws (\<lambda>e. is_SSHConnectionError e \<or> e = KeyboardInterrupt
     \<or> c \<and> (\<exists>status out err. e = RemoteCommandError cmd status out err)) (run_for x h cmd c t)"
  by (auto simp: throws_def run_run_for Let_def split: prod.splits option.splits exec_outcome.splits)

lemma throws_site:
  "throws site_exn (fetch_site_to_guest x h website)" "throws site_exn (stamp_backend_identity x h root b)"
  "throws site_exn (publish_site x h website b)"
proof -
  have prepare: "throws site_exn (run x h prepare_command True)" "throws site_exn (run x h list_command True)"
    and quiet: "throws site_exn (run x h cmd False)" for cmd
    by (rule throws_mono[OF throws_run_named], auto simp: site_exn_def)+
  have caught: "throws site_exn (catch m (\<lambda>e. if is_RemoteCommandError e then Some (raise (WebsiteFetchError (msg e))) else None))"
    if "throws ssh_exn m" for m :: "('a, 'b) prog" and msg
    by (rule throws_catch[OF that]) (auto simp: site_exn_def ssh_exn_def intro: throws_raise split: if_splits)
  have commands: "throws ssh_exn (for_each cmds (\<lambda>cmd. andthen (sudo x h cmd True) (ret ())))" for cmds
    by (intro throws_intros)
  show f: "throws site_exn (fetch_site_to_guest x h website)"
    unfolding fetch_site_to_guest_def Let_def
    by (intro throws_intros prepare quiet caught) (auto simp: site_exn_def intro: throws_raise split: if_splits)
  show s: "throws site_exn (stamp_backend_identity x h root b)" for root b
    unfolding stamp_backend_identity_def by (intro caught throws_intros)
  show "throws site_exn (publish_site x h website b)"
    unfolding publish_site_def publish_from_def Let_def by (intro throws_intros f s quiet caught commands)
qed


end
