(* ===== verification/Apache.thy ===== *)
theory Apache
  imports Website
begin

text \<open>
  \<^verbatim>\<open>src/vmdeploy/apache.py\<close>: the two virtual hosts, the modules, the \<open>Listen\<close> directive and the
  gated restart.
\<close>

definition BALANCER_NAME :: string where "BALANCER_NAME = ''apcluster''"
definition SITE_CONF :: string where "SITE_CONF = ''/etc/apache2/sites-available/000-default.conf''"
definition PORTS_CONF :: string where "PORTS_CONF = ''/etc/apache2/ports.conf''"
definition APT_TIMEOUT_SECONDS :: int where "APT_TIMEOUT_SECONDS = 900"

definition BALANCER_MODULES :: "string list" where
  "BALANCER_MODULES = [''proxy'', ''proxy_http'', ''proxy_balancer'', ''lbmethod_byrequests'', ''headers'',
     ''status'']"

definition BACKEND_MODULES :: "string list" where
  "BACKEND_MODULES = [''headers'']"

definition install_apache :: "'e env \<Rightarrow> remote_host \<Rightarrow> ('e, unit) prog" where
  "install_apache x h =
     bnd (run x h ''command -v apache2'' False) (\<lambda>found.
     if ok found then ret ()
     else andthen (sudo_for x h ''apt-get update -qq'' True (Some APT_TIMEOUT_SECONDS))
       (andthen (sudo_for x h ''DEBIAN_FRONTEND=noninteractive apt-get install -y -qq apache2'' True
                   (Some APT_TIMEOUT_SECONDS))
       (ret ())))"

definition enable_modules :: "'e env \<Rightarrow> remote_host \<Rightarrow> string list \<Rightarrow> ('e, unit) prog" where
  "enable_modules x h modules =
     for_each (map (\<lambda>m. ''a2enmod -q '' @ m) modules) (\<lambda>cmd. andthen (sudo x h cmd True) (ret ()))"

text \<open>The part of \<open>restart_apache\<close> after the configuration test.\<close>

definition reload_apache :: "'e env \<Rightarrow> remote_host \<Rightarrow> ('e, unit) prog" where
  "reload_apache x h =
     andthen (sudo x h ''systemctl restart apache2'' True)
       (andthen (sudo x h ''systemctl enable apache2'' False)
       (bnd (run x h ''systemctl is-active apache2'' False) (\<lambda>active.
        if strip (stdout active) \<noteq> ''active''
        then bnd (sudo x h ''systemctl status apache2 --no-pager -l'' False) (\<lambda>status.
          raise (VmDeployError (''Apache did not return to active state on '' @ address h @ '': ''
            @ or_else (strip (stdout active)) ''unknown'' @ [c_nl] @ strip (stdout status))))
        else ret ())))"

definition restart_apache :: "'e env \<Rightarrow> remote_host \<Rightarrow> ('e, unit) prog" where
  "restart_apache x h =
     bnd (sudo x h ''apachectl configtest'' False) (\<lambda>check.
     if \<not> ok check
     then raise (VmDeployError (''Apache configuration is invalid on '' @ address h
            @ ''; refusing to restart.'' @ [c_nl] @ or_else (strip (stderr check)) (strip (stdout check))))
     else reload_apache x h)"

subsection \<open>Virtual hosts\<close>

definition vhost_text :: "string list \<Rightarrow> string" where
  "vhost_text lines = join [c_nl] (lines @ [''''])"

definition render_backend_vhost :: "host_config \<Rightarrow> string \<Rightarrow> string" where
  "render_backend_vhost backend root = vhost_text
    [''# Managed by vmdeploy. Manual edits are overwritten on redeploy.'',
     ''<VirtualHost *:'' @ show_int (http_port backend) @ ''>'',
     ''    ServerName '' @ hostname backend,
     ''    DocumentRoot '' @ root,
     '''',
     ''    <Directory '' @ root @ ''>'',
     ''        Options -Indexes +FollowSymLinks'',
     ''        AllowOverride None'',
     ''        Require all granted'',
     ''    </Directory>'',
     '''',
     ''    # Identity stamp consumed by the load balancing test suite.'',
     ''    Header always set '' @ BACKEND_HEADER @ '' '' @ [c_dq] @ hostname backend @ [c_dq],
     '''',
     ''    ErrorLog ${APACHE_LOG_DIR}/'' @ hostname backend @ ''-error.log'',
     ''    CustomLog ${APACHE_LOG_DIR}/'' @ hostname backend @ ''-access.log combined'',
     ''</VirtualHost>'']"

definition member_line :: "string \<Rightarrow> host_config \<Rightarrow> string" where
  "member_line addr backend = ''        BalancerMember '' @ [c_dq] @ ''http://'' @ addr @ '':''
     @ show_int (http_port backend) @ [c_dq] @ '' route='' @ hostname backend"

definition member_of :: "string dict \<Rightarrow> nat \<Rightarrow> host_config \<Rightarrow> exn + string" where
  "member_of members i backend =
     (let addr = (case dget members (hostname backend) of Some a \<Rightarrow> a | None \<Rightarrow> []) in
      if addr = []
      then Inl (VmDeployError (''No resolved address for backend '' @ hostname backend @ ''; ''
             @ ''cannot build a complete balancer pool''))
      else Inr (member_line addr backend))"

definition balancer_lines :: "cluster_config \<Rightarrow> string list \<Rightarrow> string list" where
  "balancer_lines config member_block =
    [''# Managed by vmdeploy. Manual edits are overwritten on redeploy.'',
     ''<VirtualHost *:'' @ show_int (http_port (cfg_jump config)) @ ''>'',
     ''    ServerName '' @ hostname (cfg_jump config),
     '''',
     ''    ProxyRequests Off'',
     ''    ProxyPreserveHost On'',
     '''',
     ''    <Proxy '' @ [c_dq] @ ''balancer://'' @ BALANCER_NAME @ [c_dq] @ ''>'']
    @ member_block @
    [''        # byrequests with no stickysession: consecutive requests from one'',
     ''        # client must land on different members for the suite to pass.'',
     ''        ProxySet lbmethod=byrequests'',
     ''    </Proxy>'',
     '''',
     ''    # Exclude the manager endpoint from proxying so it is served locally.'',
     ''    ProxyPass        '' @ [c_dq] @ ''/balancer-manager'' @ [c_dq] @ '' '' @ [c_dq] @ ''!'' @ [c_dq],
     ''    ProxyPass        '' @ [c_dq] @ ''/'' @ [c_dq] @ '' '' @ [c_dq] @ ''balancer://'' @ BALANCER_NAME @ ''/''
        @ [c_dq],
     ''    ProxyPassReverse '' @ [c_dq] @ ''/'' @ [c_dq] @ '' '' @ [c_dq] @ ''balancer://'' @ BALANCER_NAME @ ''/''
        @ [c_dq],
     '''',
     ''    <Location '' @ [c_dq] @ ''/balancer-manager'' @ [c_dq] @ ''>'',
     ''        SetHandler balancer-manager'',
     ''        Require local'',
     ''        Require ip 192.168.0.0/16'',
     ''    </Location>'',
     '''',
     ''    ErrorLog ${APACHE_LOG_DIR}/'' @ hostname (cfg_jump config) @ ''-error.log'',
     ''    CustomLog ${APACHE_LOG_DIR}/'' @ hostname (cfg_jump config) @ ''-access.log combined'',
     ''</VirtualHost>'']"

definition render_balancer_vhost :: "cluster_config \<Rightarrow> string dict \<Rightarrow> exn + string" where
  "render_balancer_vhost config members =
     sbind (map_err (member_of members) 0 (cfg_backends config)) (\<lambda>ls.
     Inr (vhost_text (balancer_lines config ls)))"

subsection \<open>Configuration of a guest\<close>

definition listen_directives :: "string \<Rightarrow> string list" where
  "listen_directives current = map (\<lambda>line. words (strip line) ! 1)
     (filter (\<lambda>line. startswith (strip line) ''Listen'' \<and> 1 < length (words (strip line)))
       (splitlines current))"

definition listen_command :: "int \<Rightarrow> string" where
  "listen_command port = ''sh -c '' @ [c_sq] @ ''echo '' @ [c_dq] @ ''Listen '' @ show_int port @ [c_dq]
     @ '' >> '' @ PORTS_CONF @ [c_sq]"

definition ensure_listen_port :: "'e env \<Rightarrow> remote_host \<Rightarrow> int \<Rightarrow> ('e, unit) prog" where
  "ensure_listen_port x h port =
     bnd (catch (bnd (get_bytes x h PORTS_CONF) (\<lambda>b. ret (utf8_decode_replace b)))
            (\<lambda>e. if is_VmDeployError e then Some (ret []) else None)) (\<lambda>current.
     if show_int port \<in> set (listen_directives current) then ret ()
     else andthen (sudo x h (listen_command port) True) (ret ()))"

definition configure_backend :: "'e env \<Rightarrow> remote_host \<Rightarrow> host_config \<Rightarrow> string \<Rightarrow> ('e, unit) prog" where
  "configure_backend x h backend root =
     andthen (install_apache x h)
     (andthen (enable_modules x h BACKEND_MODULES)
     (andthen (ensure_listen_port x h (http_port backend))
     (andthen (put_bytes x h (utf8_encode (render_backend_vhost backend root)) SITE_CONF 420)
     (restart_apache x h))))"

definition configure_balancer :: "'e env \<Rightarrow> remote_host \<Rightarrow> cluster_config \<Rightarrow> string dict \<Rightarrow> ('e, unit) prog" where
  "configure_balancer x h config members =
     andthen (install_apache x h)
     (andthen (enable_modules x h BALANCER_MODULES)
     (andthen (ensure_listen_port x h (http_port (cfg_jump config)))
     (bnd (of_sum (render_balancer_vhost config members)) (\<lambda>vhost.
      andthen (put_bytes x h (utf8_encode vhost) SITE_CONF 420)
     (restart_apache x h)))))"

section \<open>Effects\<close>

context guest_session begin

lemma ev_apache_steps [evolve_intros]:
  "evolves R (install_apache x h)" "evolves R (enable_modules x h ms)" "evolves R (restart_apache x h)"
  "evolves R (ensure_listen_port x h port)"
  unfolding install_apache_def enable_modules_def restart_apache_def reload_apache_def ensure_listen_port_def
  by (intro ev_andthen ev_bnd ev_ret ev_raise ev_for_each evolves_if ev_run ev_sudo ev_catch ev_get_bytes;
      auto intro: ev_ret split: if_splits)+

lemma ev_configure_apache [evolve_intros]:
  "evolves R (configure_backend x h b root)" "evolves R (configure_balancer x h config members)"
  unfolding configure_backend_def configure_balancer_def
  by (intro ev_andthen ev_bnd ev_of_sum ev_apache_steps ev_put_bytes)+

end

definition apache_exn :: "exn \<Rightarrow> bool" where
  "apache_exn e \<longleftrightarrow> is_VmDeployError e \<or> e = KeyboardInterrupt"

lemma ssh_apache_exn: "ssh_exn e \<Longrightarrow> apache_exn e"
  by (auto simp: ssh_exn_def apache_exn_def subclass_VmDeployError)

lemma throws_apache_host [throws_intros]:
  "throws apache_exn (run_for x h cmd c t)" "throws apache_exn (sudo_for x h cmd c t)"
  "throws apache_exn (put_bytes x h b p m)" "throws apache_exn (get_bytes x h p)"
  by (rule throws_mono[OF throws_host_ops(2)] throws_mono[OF throws_host_ops(3)]
      throws_mono[OF throws_host_ops(5)] throws_mono[OF throws_host_ops(6)], rule ssh_apache_exn, assumption)+

section \<open>Properties\<close>

lemma show_int_no_newline: "c_nl \<notin> set (show_int n)"
  using show_nat_digits[of c_nl] by (auto simp: show_int_def is_digit_def)

lemma member_line_no_newline:
  "c_nl \<notin> set a \<Longrightarrow> c_nl \<notin> set (hostname b) \<Longrightarrow> c_nl \<notin> set (member_line a b)"
  by (simp add: member_line_def show_int_no_newline)

lemma vhost_lines:
  "\<forall>l \<in> set ls. c_nl \<notin> set l \<Longrightarrow> split_on c_nl (vhost_text ls) = ls @ ['''']"
  unfolding vhost_text_def by (rule split_on_join) auto

definition is_member_line :: "string \<Rightarrow> bool" where
  "is_member_line l \<longleftrightarrow> startswith l ''        BalancerMember ''"

lemma map_err_Inl_first:
  "map_err f i xs = Inl e \<Longrightarrow> \<exists>j x. x \<in> set xs \<and> f j x = Inl e"
  by (induction xs arbitrary: i) (fastforce simp: run_inv)+

text \<open>
  C35: the balancer pool. When every name and address is a single line, a rendered configuration
  has exactly one member line for each backend, in the configured order, each with the resolved
  address and port of that backend; if any backend has no resolved address rendering fails, so a
  pool never silently omits a member.
\<close>

theorem balancer_pool_complete:
  assumes "c_nl \<notin> set (hostname (cfg_jump c))"
    and "\<forall>b \<in> set (cfg_backends c). c_nl \<notin> set (hostname b)"
    and "\<forall>a \<in> set (map snd members). c_nl \<notin> set a"
  shows "case render_balancer_vhost c members of
      Inr text \<Rightarrow> (\<forall>b \<in> set (cfg_backends c). \<exists>a. dget members (hostname b) = Some a \<and> a \<noteq> [])
        \<and> filter is_member_line (split_on c_nl text) =
            map (\<lambda>b. member_line (the (dget members (hostname b))) b) (cfg_backends c)
    | Inl e \<Rightarrow> is_VmDeployError e
        \<and> (\<exists>b \<in> set (cfg_backends c). dget members (hostname b) = None \<or> dget members (hostname b) = Some [])"
proof (cases "map_err (member_of members) 0 (cfg_backends c)")
  case (Inl e)
  then obtain j b where "b \<in> set (cfg_backends c)" "member_of members j b = Inl e"
    using map_err_Inl_first by metis
  then show ?thesis
    by (auto simp: render_balancer_vhost_def Inl member_of_def Let_def split: if_splits option.splits)
next
  case (Inr ls)
  have each: "\<exists>a. dget members (hostname b) = Some a \<and> a \<noteq> [] \<and> c_nl \<notin> set a
      \<and> member_of members i b = Inr (member_line a b)"
    if "member_of members i b = Inr l" for i b l
    using that assms(3) by (auto simp: member_of_def Let_def dest!: map_of_SomeD split: if_splits option.splits)
  have line: "\<exists>a. dget members (hostname b) = Some a \<and> a \<noteq> [] \<and> c_nl \<notin> set a"
    if "b \<in> set (cfg_backends c)" for b
  proof -
    from that obtain i where "i < length (cfg_backends c)" "cfg_backends c ! i = b" by (metis in_set_conv_nth)
    then have "member_of members i b = Inr (ls ! i)" using map_err_nth[OF Inr] by fastforce
    then show ?thesis using each by blast
  qed
  have ls: "ls = map (\<lambda>b. member_line (the (dget members (hostname b))) b) (cfg_backends c)"
  proof (rule nth_equalityI)
    show "length ls = length (map (\<lambda>b. member_line (the (dget members (hostname b))) b) (cfg_backends c))"
      using map_err_length[OF Inr] by simp
  next
    fix i
    assume "i < length ls"
    then have i: "i < length (cfg_backends c)" using map_err_length[OF Inr] by simp
    then have "member_of members i (cfg_backends c ! i) = Inr (ls ! i)" using map_err_nth[OF Inr] by fastforce
    then show "ls ! i = map (\<lambda>b. member_line (the (dget members (hostname b))) b) (cfg_backends c) ! i"
      using each[of i "cfg_backends c ! i" "ls ! i"] i by auto
  qed
  have "\<forall>l \<in> set ls. c_nl \<notin> set l"
    using ls line assms(2) by (fastforce simp: member_line_no_newline)
  then have lines: "split_on c_nl (vhost_text (balancer_lines c ls)) = balancer_lines c ls @ ['''']"
    using assms(1) by (intro vhost_lines) (auto simp: balancer_lines_def BALANCER_NAME_def show_int_no_newline)
  have "filter is_member_line ls = ls"
    by (rule filter_True) (auto simp: ls is_member_line_def member_line_def startswith_def)
  then have "filter is_member_line (balancer_lines c ls @ ['''']) = ls"
    by (simp add: balancer_lines_def is_member_line_def startswith_def)
  then have "filter is_member_line (split_on c_nl (vhost_text (balancer_lines c ls)))
      = map (\<lambda>b. member_line (the (dget members (hostname b))) b) (cfg_backends c)"
    using ls unfolding lines by (rule trans)
  moreover have "render_balancer_vhost c members = Inr (vhost_text (balancer_lines c ls))"
    by (simp add: render_balancer_vhost_def Inr)
  ultimately show ?thesis using line by fastforce
qed

definition sample_members :: "string dict" where
  "sample_members = [(''web1'', ''10.0.0.11''), (''web2'', ''10.0.0.12'')]"

theorem balancer_pool_complete_witness:
  "case render_balancer_vhost sample_config sample_members of
     Inr text \<Rightarrow> filter is_member_line (split_on c_nl text) =
        map (\<lambda>b. member_line (the (dget sample_members (hostname b))) b) (cfg_backends sample_config)
   | Inl e \<Rightarrow> False"
proof -
  have "c_nl \<notin> set (hostname (cfg_jump sample_config))"
    "\<forall>b \<in> set (cfg_backends sample_config). c_nl \<notin> set (hostname b)"
    "\<forall>a \<in> set (map snd sample_members). c_nl \<notin> set a"
    "\<forall>b \<in> set (cfg_backends sample_config). dget sample_members (hostname b) \<noteq> None
       \<and> dget sample_members (hostname b) \<noteq> Some []"
    by (simp_all add: sample_config_def sample_members_def)
  then show ?thesis
    using balancer_pool_complete[of sample_config sample_members]
    by (cases "render_balancer_vhost sample_config sample_members") auto
qed

text \<open>A restart, and a configuration test that passed.\<close>

definition is_restart :: "event \<Rightarrow> bool" where
  "is_restart ev \<longleftrightarrow> (\<exists>a u c i out. ev = EvExec a u c i out
     \<and> (c = ''sudo -n systemctl restart apache2'' \<or> c = escalated ''systemctl restart apache2''))"

definition passed_configtest :: "remote_host \<Rightarrow> event list \<Rightarrow> bool" where
  "passed_configtest h es \<longleftrightarrow> done_as_root h ''apachectl configtest'' es"

lemma sudo_ok_done:
  assumes "sudo_for x h cmd c t w = (Inr res, w')" and "ok res"
  shows "\<exists>es. trace w' = trace w @ es \<and> done_as_root h cmd es"
proof -
  have "sudo_for x h cmd True t w = (Inr res, w')"
    using assms
    by (auto simp: sudo_for_def run_run_for run_exec_command run_simps sudo_password_def Let_def ok_def
        split: prod.splits option.splits exec_outcome.splits if_splits)
  then show ?thesis by (rule sudo_done)
qed

lemma emit_sudo_not_restart:
  "cmd \<noteq> ''systemctl restart apache2'' \<Longrightarrow> evolves (emits (\<lambda>ev. \<not> is_restart ev)) (sudo_for x h cmd c t)"
  by (rule emit_sudo) (auto simp: is_restart_def escalated_def)

text \<open>The part after the test.\<close>

definition seen_active :: "remote_host \<Rightarrow> event list \<Rightarrow> bool" where
  "seen_active h es \<longleftrightarrow> (\<exists>before status out err. es = before @ [EvExec (address h) (ssh_user (host_ssh h))
     ''systemctl is-active apache2'' None (Some (ExecDone status out err))] \<and> strip out = ''active'')"

lemma reload_apache_active:
  assumes "reload_apache x h w = (Inr u, w')"
  shows "\<exists>es. trace w' = trace w @ es \<and> seen_active h es"
proof -
  let ?pre = "andthen (sudo x h ''systemctl restart apache2'' True)
    (andthen (sudo x h ''systemctl enable apache2'' False) (ret ()))"
  from assms obtain u1 v1 u2 v2 where
    1: "sudo x h ''systemctl restart apache2'' True w = (Inr u1, v1)"
    and 2: "sudo x h ''systemctl enable apache2'' False v1 = (Inr u2, v2)"
    and 3: "\<exists>es. trace w' = trace v2 @ es \<and> seen_active h es"
    by (auto simp: reload_apache_def run_inv seen_active_def run_run_for Let_def
        split: if_splits prod.splits option.splits exec_outcome.splits)
  have "?pre w = (Inr (), v2)" using 1 2 by (simp add: run_simps)
  moreover have "evolves (emits (\<lambda>_. True)) ?pre" by (intro evolve_intros emits_any)
  ultimately obtain ds where "trace v2 = trace w @ ds" using emits_trace by blast
  with 3 show ?thesis unfolding seen_active_def by (metis append.assoc)
qed

lemma restart_apache_active:
  assumes "restart_apache x h w = (Inr u, w')"
  shows "\<exists>es. trace w' = trace w @ es \<and> seen_active h es"
proof -
  from assms obtain check v where c: "sudo x h ''apachectl configtest'' False w = (Inr check, v)"
    and r: "reload_apache x h v = (Inr u, w')" by (auto simp: restart_apache_def run_inv split: if_splits)
  obtain es where "trace v = trace w @ es" using emits_trace[OF emits_any(2) c] by blast
  with reload_apache_active[OF r] show ?thesis unfolding seen_active_def by (metis append.assoc)
qed

lemma throws_restart [throws_intros]: "throws apache_exn (restart_apache x h)"
  unfolding restart_apache_def reload_apache_def by (intro throws_intros) (simp_all add: apache_exn_def)

text \<open>
  C17: restarting Apache is gated. No restart is requested unless the configuration test ended with
  status zero during the same call: before that no event is a restart, and a failed test ends the
  call with an error. When it returns, the last thing seen was the service reporting itself active.
\<close>

theorem restart_apache_gated:
  "case restart_apache x h w of (r, w') \<Rightarrow>
     (\<exists>pre post. trace w' = trace w @ pre @ post \<and> \<not> list_ex is_restart pre
        \<and> (post = [] \<or> passed_configtest h pre))
     \<and> gives (\<lambda>_. \<exists>es. trace w' = trace w @ es \<and> seen_active h es) r
     \<and> fails_as apache_exn r"
proof -
  obtain r w' where run: "restart_apache x h w = (r, w')" by (cases "restart_apache x h w")
  obtain q v where c: "sudo x h ''apachectl configtest'' False w = (q, v)"
    by (cases "sudo x h ''apachectl configtest'' False w")
  have "evolves (emits (\<lambda>ev. \<not> is_restart ev)) (sudo x h ''apachectl configtest'' False)"
    by (rule emit_sudo_not_restart) simp
  from emits_trace[OF this c] obtain pre where pre: "trace v = trace w @ pre" "\<not> list_ex is_restart pre"
    by (auto simp: list_ex_iff list_all_iff)
  have "\<exists>pre post. trace w' = trace w @ pre @ post \<and> \<not> list_ex is_restart pre
        \<and> (post = [] \<or> passed_configtest h pre)"
  proof (cases "\<exists>res. q = Inr res \<and> ok res")
    case False
    then have "w' = v" using run c by (auto simp: restart_apache_def run_simps split: sum.splits)
    then show ?thesis using pre by (intro exI[of _ pre] exI[of _ "[]"]) simp
  next
    case True
    then obtain res where res: "q = Inr res" "ok res" by blast
    obtain es where es: "trace v = trace w @ es" "done_as_root h ''apachectl configtest'' es"
      using sudo_ok_done[OF c[unfolded res(1)] res(2)] by blast
    have "reload_apache x h v = (r, w')"
      using run unfolding restart_apache_def run_simps(3)[of "sudo x h ''apachectl configtest'' False"] c
      by (simp add: res)
    moreover have "evolves (emits (\<lambda>_. True)) (reload_apache x h)"
      unfolding reload_apache_def by (intro evolve_intros emits_any)
    ultimately obtain post where "trace w' = trace v @ post" using emits_trace by blast
    then show ?thesis using pre es by (intro exI[of _ pre] exI[of _ post]) (simp add: passed_configtest_def)
  qed
  moreover have "gives (\<lambda>_. \<exists>es. trace w' = trace w @ es \<and> seen_active h es) r"
    using restart_apache_active run unfolding gives_def by blast
  moreover have "fails_as apache_exn r" using throws_restart run unfolding throws_def by (metis fst_conv)
  ultimately show ?thesis by (simp add: run)
qed

text \<open>
  The test for a directive looks at the start of the line only, so that \<open>ListenBacklog\<close> counts as
  \<open>Listen\<close>: its value is taken for a port that is already there, and the directive is not added.
\<close>

lemma listen_backlog_taken: "listen_directives ''ListenBacklog 8080'' = [''8080'']"
  by code_simp

end
