(* ===== verification/Sha256.thy ===== *)
theory Sha256
  imports PyBytes
begin

unbundle bit_operations_syntax

text \<open>
  \<open>hashlib.sha256\<close> of the standard library, as FIPS 180-4 gives it, on 32-bit words. A hash object
  is the bytes it has absorbed: successive updates hash the concatenation.
\<close>

definition sha_k :: "32 word list" where
  "sha_k = concat [
     [0x428a2f98, 0x71374491, 0xb5c0fbcf, 0xe9b5dba5, 0x3956c25b, 0x59f111f1, 0x923f82a4, 0xab1c5ed5],
     [0xd807aa98, 0x12835b01, 0x243185be, 0x550c7dc3, 0x72be5d74, 0x80deb1fe, 0x9bdc06a7, 0xc19bf174],
     [0xe49b69c1, 0xefbe4786, 0x0fc19dc6, 0x240ca1cc, 0x2de92c6f, 0x4a7484aa, 0x5cb0a9dc, 0x76f988da],
     [0x983e5152, 0xa831c66d, 0xb00327c8, 0xbf597fc7, 0xc6e00bf3, 0xd5a79147, 0x06ca6351, 0x14292967],
     [0x27b70a85, 0x2e1b2138, 0x4d2c6dfc, 0x53380d13, 0x650a7354, 0x766a0abb, 0x81c2c92e, 0x92722c85],
     [0xa2bfe8a1, 0xa81a664b, 0xc24b8b70, 0xc76c51a3, 0xd192e819, 0xd6990624, 0xf40e3585, 0x106aa070],
     [0x19a4c116, 0x1e376c08, 0x2748774c, 0x34b0bcb5, 0x391c0cb3, 0x4ed8aa4a, 0x5b9cca4f, 0x682e6ff3],
     [0x748f82ee, 0x78a5636f, 0x84c87814, 0x8cc70208, 0x90befffa, 0xa4506ceb, 0xbef9a3f7, 0xc67178f2]]"

text \<open>The eight working variables.\<close>

record sha_state =
  sha_a :: "32 word"
  sha_b :: "32 word"
  sha_c :: "32 word"
  sha_d :: "32 word"
  sha_e :: "32 word"
  sha_f :: "32 word"
  sha_g :: "32 word"
  sha_h :: "32 word"

definition sha_init :: sha_state where
  "sha_init = \<lparr>sha_a = 0x6a09e667, sha_b = 0xbb67ae85, sha_c = 0x3c6ef372, sha_d = 0xa54ff53a,
     sha_e = 0x510e527f, sha_f = 0x9b05688c, sha_g = 0x1f83d9ab, sha_h = 0x5be0cd19\<rparr>"

definition rotr :: "nat \<Rightarrow> 32 word \<Rightarrow> 32 word" where
  "rotr n v = (drop_bit n v OR push_bit (32 - n) v)"

definition small_sigma0 :: "32 word \<Rightarrow> 32 word" where
  "small_sigma0 v = (rotr 7 v XOR rotr 18 v XOR drop_bit 3 v)"

definition small_sigma1 :: "32 word \<Rightarrow> 32 word" where
  "small_sigma1 v = (rotr 17 v XOR rotr 19 v XOR drop_bit 10 v)"

definition big_sigma0 :: "32 word \<Rightarrow> 32 word" where
  "big_sigma0 v = (rotr 2 v XOR rotr 13 v XOR rotr 22 v)"

definition big_sigma1 :: "32 word \<Rightarrow> 32 word" where
  "big_sigma1 v = (rotr 6 v XOR rotr 11 v XOR rotr 25 v)"

text \<open>The message schedule; the list is kept with the newest word first.\<close>

fun extend_schedule :: "nat \<Rightarrow> 32 word list \<Rightarrow> 32 word list" where
  "extend_schedule 0 ws = ws"
| "extend_schedule (Suc n) ws = extend_schedule n
     ((small_sigma1 (ws ! 1) + ws ! 6 + small_sigma0 (ws ! 14) + ws ! 15) # ws)"

definition be_word :: "bytes \<Rightarrow> 32 word" where
  "be_word bs = foldl (\<lambda>acc b. push_bit 8 acc OR ucast b) 0 bs"

fun be_words :: "bytes \<Rightarrow> 32 word list" where
  "be_words (a # b # c # d # bs) = be_word [a, b, c, d] # be_words bs"
| "be_words _ = []"

definition sha_schedule :: "bytes \<Rightarrow> 32 word list" where
  "sha_schedule block = rev (extend_schedule 48 (rev (be_words block)))"

definition sha_round :: "32 word \<times> 32 word \<Rightarrow> sha_state \<Rightarrow> sha_state" where
  "sha_round kw s =
     (let t1 = sha_h s + big_sigma1 (sha_e s) + ((sha_e s AND sha_f s) XOR (NOT (sha_e s) AND sha_g s))
            + fst kw + snd kw;
          t2 = big_sigma0 (sha_a s) + ((sha_a s AND sha_b s) XOR (sha_a s AND sha_c s) XOR (sha_b s AND sha_c s))
      in \<lparr>sha_a = t1 + t2, sha_b = sha_a s, sha_c = sha_b s, sha_d = sha_c s,
          sha_e = sha_d s + t1, sha_f = sha_e s, sha_g = sha_f s, sha_h = sha_g s\<rparr>)"

definition sha_compress :: "sha_state \<Rightarrow> bytes \<Rightarrow> sha_state" where
  "sha_compress s block =
     (let t = fold sha_round (zip sha_k (sha_schedule block)) s
      in \<lparr>sha_a = sha_a s + sha_a t, sha_b = sha_b s + sha_b t, sha_c = sha_c s + sha_c t,
          sha_d = sha_d s + sha_d t, sha_e = sha_e s + sha_e t, sha_f = sha_f s + sha_f t,
          sha_g = sha_g s + sha_g t, sha_h = sha_h s + sha_h t\<rparr>)"

function sha_blocks :: "sha_state \<Rightarrow> bytes \<Rightarrow> sha_state" where
  "sha_blocks s bs =
     (if length bs < 64 then s else sha_blocks (sha_compress s (take 64 bs)) (drop 64 bs))"
  by pat_completeness auto
termination by (relation "measure (\<lambda>(s, bs). length bs)") auto

declare sha_blocks.simps [simp del]

definition word_bytes :: "32 word \<Rightarrow> bytes" where
  "word_bytes v = [ucast (drop_bit 24 v), ucast (drop_bit 16 v), ucast (drop_bit 8 v), ucast v]"

definition length_bytes :: "nat \<Rightarrow> bytes" where
  "length_bytes n = (let v = 8 * of_nat n :: 64 word
     in word_bytes (ucast (drop_bit 32 v)) @ word_bytes (ucast v))"

definition sha_pad :: "bytes \<Rightarrow> bytes" where
  "sha_pad bs = bs @ 0x80 # replicate ((119 - length bs mod 64) mod 64) 0 @ length_bytes (length bs)"

definition sha256 :: "bytes \<Rightarrow> bytes" where
  "sha256 bs = (let s = sha_blocks sha_init (sha_pad bs) in
     concat (map word_bytes [sha_a s, sha_b s, sha_c s, sha_d s, sha_e s, sha_f s, sha_g s, sha_h s]))"

text \<open>\<open>hexdigest()\<close>\<close>

definition sha256_hex :: "bytes \<Rightarrow> string" where
  "sha256_hex bs = hex_of (sha256 bs)"

text \<open>The padded message is a whole number of blocks, and a digest is sixty-four hexadecimal digits.\<close>

lemma sha_pad_blocks: "length (sha_pad bs) mod 64 = 0"
proof -
  define r where "r = length bs mod 64"
  have "r < 64" by (simp add: r_def)
  have "length (sha_pad bs) = length bs + 9 + (119 - r) mod 64"
    by (simp add: sha_pad_def length_bytes_def word_bytes_def Let_def r_def)
  also have "\<dots> mod 64 = (r + 9 + (119 - r) mod 64) mod 64"
    unfolding r_def by (simp add: mod_add_left_eq add.assoc)
  also have "\<dots> = (r + 9 + (119 - r)) mod 64" by (simp add: mod_add_right_eq)
  also have "\<dots> = 0" using \<open>r < 64\<close> by simp
  finally show ?thesis .
qed

lemma length_sha256_hex [simp]: "length (sha256_hex bs) = 64"
  by (simp add: sha256_hex_def length_hex_of sha256_def word_bytes_def Let_def)

end
