(* ===== verification/GoService.thy ===== *)
theory GoService
  imports Apache Sha256
begin

text \<open>
  \<^verbatim>\<open>src/vmdeploy/inventory_service.py\<close>, first half: the fingerprint of the Go sources, the pinned
  toolchain, the build of the service, the golden image and the deployment of the service. The
  registry half is in theory Registry.

  The download of the archive is \<open>x_http\<close>: refused, complete, or cut after some bytes. The SFTP
  transfer of the archive is \<open>x_sftp_write\<close>, whose faults are those of the local system and
  those of Paramiko.
\<close>

definition SERVICE_NAME :: string where "SERVICE_NAME = ''inventory''"
definition SERVICE_UNIT :: string where "SERVICE_UNIT = ''/etc/systemd/system/inventory.service''"
definition BUILD_DIR :: string where "BUILD_DIR = ''/tmp/vmdeploy-goservice''"
definition BUILD_TIMEOUT_SECONDS :: int where "BUILD_TIMEOUT_SECONDS = 600"
definition GO_INSTALL_ROOT :: string where "GO_INSTALL_ROOT = ''/usr/local/go''"
definition GO_BIN_LINK :: string where "GO_BIN_LINK = ''/usr/local/bin/go''"
definition SOURCE_HASH_FILE :: string where "SOURCE_HASH_FILE = ''.source-hash''"
definition DOWNLOAD_CHUNK :: nat where "DOWNLOAD_CHUNK = 2 ^ 20"
definition HOST_DOWNLOAD_TIMEOUT_SECONDS :: int where "HOST_DOWNLOAD_TIMEOUT_SECONDS = 180"

definition SOURCE_FILES :: "string list" where
  "SOURCE_FILES = [''go.mod'', ''main.go'', ''crypto.go'', ''inventory.go'', ''manifest.go'']"

definition TEMPLATE_REL :: string where "TEMPLATE_REL = ''templates/clusterview.html''"

definition HASH_FILES :: "string list" where
  "HASH_FILES = SOURCE_FILES @ [TEMPLATE_REL]"

subsection \<open>Fingerprints\<close>

text \<open>What one file adds to the digest: its name and its contents, each closed by a zero byte.\<close>

definition framed :: "string \<Rightarrow> bytes \<Rightarrow> bytes" where
  "framed name content = utf8_encode name @ [0] @ content @ [0]"

definition absorb_source :: "path \<Rightarrow> string \<Rightarrow> bytes \<Rightarrow> ('e, bytes) prog" where
  "absorb_source source_dir name digest =
     bnd (is_file (path_join source_dir name)) (\<lambda>present.
     if \<not> present
     then raise (VmDeployError (''Go service source missing from '' @ path_str source_dir @ '': '' @ name))
     else bnd (read_bytes (path_join source_dir name)) (\<lambda>b. ret (digest @ framed name b)))"

definition source_hash :: "path \<Rightarrow> ('e, string) prog" where
  "source_hash source_dir =
     bnd (fold_prog (absorb_source source_dir) HASH_FILES []) (\<lambda>digest. ret (sha256_hex digest))"

text \<open>The reads of a file in chunks.\<close>

function chunks :: "nat \<Rightarrow> bytes \<Rightarrow> bytes list" where
  "chunks n bs = (if bs = [] \<or> n = 0 then [] else take n bs # chunks n (drop n bs))"
  by pat_completeness auto
termination by (relation "measure (\<lambda>(n, bs). length bs)") auto

declare chunks.simps [simp del]

definition sha256_file :: "path \<Rightarrow> ('e, string) prog" where
  "sha256_file p = bnd (read_bytes p) (\<lambda>b. ret (sha256_hex (concat (chunks DOWNLOAD_CHUNK b))))"

subsection \<open>The pinned toolchain\<close>

definition go_archive :: "build_config \<Rightarrow> string" where
  "go_archive build = ''go'' @ go_version build @ ''.linux-amd64.tar.gz''"

definition go_cache_dir :: "'e env \<Rightarrow> path" where
  "go_cache_dir x = path_join (x_tmpdir x) ''vmdeploy-cache''"

definition cached_archive :: "path \<Rightarrow> build_config \<Rightarrow> ('e, bool) prog" where
  "cached_archive dest build = bnd (is_file dest) (\<lambda>present.
     if present then bnd (sha256_file dest) (\<lambda>digest. ret (digest = go_sha256 build)) else ret False)"

text \<open>The message of \<open>raise_for_status\<close>; the URL it names is the requested one when there is no redirection.\<close>

definition http_status_text :: "int \<Rightarrow> string \<Rightarrow> string \<Rightarrow> string" where
  "http_status_text status reason url = show_int status
     @ (if status < 500 then '' Client Error: '' else '' Server Error: '') @ reason @ '' for url: '' @ url"

definition download_error :: "string \<Rightarrow> string \<Rightarrow> exn" where
  "download_error url msg =
     VmDeployError (''Failed to download '' @ url @ '' on the automation host: '' @ msg)"

definition download :: "'e env \<Rightarrow> string \<Rightarrow> path \<Rightarrow> ('e, unit) prog" where
  "download x url dest =
     bnd (ext_call (EvHttp url) (x_http x url HOST_DOWNLOAD_TIMEOUT_SECONDS)) (\<lambda>out.
     case out of
       HttpDone status reason body \<Rightarrow>
         if 400 \<le> status \<and> status < 600 then raise (download_error url (http_status_text status reason url))
         else write_bytes dest body
     | HttpCut status reason part msg \<Rightarrow>
         if 400 \<le> status \<and> status < 600 then raise (download_error url (http_status_text status reason url))
         else andthen (write_bytes dest part) (raise (download_error url msg))
     | HttpFailed msg \<Rightarrow> raise (download_error url msg))"

definition fetch_go_archive_to_host :: "'e env \<Rightarrow> build_config \<Rightarrow> ('e, path) prog" where
  "fetch_go_archive_to_host x build =
     (let archive = go_archive build; dest = path_join (go_cache_dir x) archive in
     bnd (cached_archive dest build) (\<lambda>cached.
     if cached then ret dest
     else andthen (mkdir (go_cache_dir x))
      (andthen (download x (''https://go.dev/dl/'' @ archive) dest)
      (bnd (sha256_file dest) (\<lambda>actual.
       if actual \<noteq> go_sha256 build
       then andthen (unlink_missing_ok dest)
         (raise (VmDeployError (''Downloaded Go archive '' @ archive @ '' has SHA-256 '' @ actual
           @ '', expected '' @ go_sha256 build
           @ ''; refusing a toolchain that may be corrupted or substituted'')))
       else ret dest)))))"

definition wanted_version :: "build_config \<Rightarrow> string" where
  "wanted_version build = ''go version go'' @ go_version build @ '' ''"

definition reports_version :: "build_config \<Rightarrow> command_result \<Rightarrow> bool" where
  "reports_version build r \<longleftrightarrow> ok r \<and> startswith (strip (stdout r)) (strip (wanted_version build))"

text \<open>\<open>host.sftp().put(str(local_archive), tmp)\<close>\<close>

definition upload_archive :: "'e env \<Rightarrow> remote_host \<Rightarrow> path \<Rightarrow> string \<Rightarrow> ('e, unit) prog" where
  "upload_archive x h local_archive tmp =
     catch (andthen (sftp x h)
       (bnd (read_bytes local_archive) (\<lambda>payload.
        bnd (ext_call (EvSftpWrite (address h) tmp payload) (x_sftp_write x (address h) tmp payload)) (\<lambda>err.
        case err of
          None \<Rightarrow> ret ()
        | Some fault \<Rightarrow> raise (case fault of FaultOS msg \<Rightarrow> OSError msg | FaultSSH msg \<Rightarrow> SSHException msg)))))
       (\<lambda>e. if is_OSError e \<or> is_VmDeployError e
            then Some (raise (VmDeployError
              (''Failed to upload Go archive to '' @ address h @ '': '' @ exn_str e)))
            else None)"

definition checksum_command :: "build_config \<Rightarrow> string \<Rightarrow> string" where
  "checksum_command build tmp = ''printf '' @ [c_sq] @ ''%s  %s'' @ [c_sq] @ '' '' @ go_sha256 build @ '' ''
     @ tmp @ '' | sha256sum -c -''"

definition go_install_commands :: "string \<Rightarrow> string list" where
  "go_install_commands tmp =
     [''rm -rf '' @ GO_INSTALL_ROOT,
      ''tar -C /usr/local -xzf '' @ tmp,
      ''ln -sf '' @ GO_INSTALL_ROOT @ ''/bin/go '' @ GO_BIN_LINK,
      ''ln -sf '' @ GO_INSTALL_ROOT @ ''/bin/gofmt /usr/local/bin/gofmt'']"

text \<open>The part of \<open>install_go\<close> that follows the verification on the guest.\<close>

definition unpack_go :: "'e env \<Rightarrow> remote_host \<Rightarrow> build_config \<Rightarrow> string \<Rightarrow> ('e, string) prog" where
  "unpack_go x h build tmp =
     andthen (for_each (go_install_commands tmp) (\<lambda>cmd. andthen (sudo x h cmd True) (ret ())))
     (andthen (run x h (''rm -f '' @ tmp) False)
     (bnd (run x h ''go version'' False) (\<lambda>version.
      if \<not> reports_version build version
      then raise (VmDeployError (''Pinned Go '' @ go_version build @ '' is not usable on '' @ address h
        @ '' after install: '' @ or_else (strip (stdout version)) (strip (stderr version))))
      else ret (strip (stdout version)))))"

text \<open>The upload to \<open>tmp\<close> and its verification on the guest.\<close>

definition install_archive ::
  "'e env \<Rightarrow> remote_host \<Rightarrow> build_config \<Rightarrow> path \<Rightarrow> string \<Rightarrow> ('e, string) prog" where
  "install_archive x h build local_archive tmp =
     andthen (upload_archive x h local_archive tmp)
     (bnd (run x h (checksum_command build tmp) False) (\<lambda>check.
      if \<not> ok check
      then andthen (run x h (''rm -f '' @ tmp) False)
        (raise (VmDeployError (''Go archive on '' @ address h @ '' failed SHA-256 verification after upload; ''
          @ ''the transfer may be corrupt.'' @ [c_nl]
          @ or_else (strip (stdout check)) (strip (stderr check)))))
      else unpack_go x h build tmp))"

definition install_go :: "'e env \<Rightarrow> remote_host \<Rightarrow> build_config \<Rightarrow> ('e, string) prog" where
  "install_go x h build =
     bnd (run x h ''go version 2>/dev/null'' False) (\<lambda>current.
     if reports_version build current then ret (strip (stdout current))
     else bnd (fetch_go_archive_to_host x build) (\<lambda>local_archive.
       install_archive x h build local_archive (''/tmp/'' @ path_name local_archive)))"

subsection \<open>The service binary\<close>

definition missing_files :: "path \<Rightarrow> string list \<Rightarrow> ('e, string list) prog" where
  "missing_files source_dir names =
     fold_prog (\<lambda>name acc. bnd (is_file (path_join source_dir name))
       (\<lambda>present. ret (if present then acc else acc @ [name]))) names []"

definition upload_source :: "'e env \<Rightarrow> remote_host \<Rightarrow> path \<Rightarrow> string \<Rightarrow> ('e, unit) prog" where
  "upload_source x h local dest = bnd (read_bytes local) (\<lambda>b. put_bytes x h b dest 420)"

definition compile_command :: string where
  "compile_command = ''cd '' @ BUILD_DIR @ '' && GOCACHE=/tmp/vmdeploy-gocache GOFLAGS=-mod=mod ''
     @ ''go build -trimpath -o '' @ BUILD_DIR @ ''/'' @ SERVICE_NAME @ '' .''"

definition binary_install_command :: "string \<Rightarrow> string" where
  "binary_install_command remote = ''install -m 0755 '' @ BUILD_DIR @ ''/'' @ SERVICE_NAME @ '' ''
     @ remote @ ''/'' @ SERVICE_NAME"

definition record_hash_command :: "string \<Rightarrow> string \<Rightarrow> string" where
  "record_hash_command remote digest = ''sh -c '' @ [c_sq] @ ''printf %s '' @ digest @ '' > '' @ remote
     @ ''/'' @ SOURCE_HASH_FILE @ [c_sq]"

text \<open>The upload and the compilation, then the installation.\<close>

definition compile_service :: "'e env \<Rightarrow> remote_host \<Rightarrow> path \<Rightarrow> path \<Rightarrow> ('e, unit) prog" where
  "compile_service x h source_dir template =
     andthen (run x h (''rm -rf '' @ BUILD_DIR @ '' && mkdir -p '' @ BUILD_DIR @ ''/templates'') True)
     (andthen (for_each SOURCE_FILES (\<lambda>name.
        upload_source x h (path_join source_dir name) (BUILD_DIR @ ''/'' @ name)))
     (andthen (upload_source x h template (BUILD_DIR @ ''/templates/clusterview.html''))
     (andthen (sudo x h (''chown -R $(id -un):$(id -gn) '' @ BUILD_DIR) False)
     (bnd (run_for x h compile_command False (Some BUILD_TIMEOUT_SECONDS)) (\<lambda>build.
      if \<not> ok build
      then raise (VmDeployError (''Failed to compile the inventory service on '' @ address h @ '':''
        @ [c_nl] @ or_else (strip (stderr build)) (strip (stdout build))))
      else ret ())))))"

definition install_binary :: "'e env \<Rightarrow> remote_host \<Rightarrow> path \<Rightarrow> string \<Rightarrow> ('e, unit) prog" where
  "install_binary x h source_dir remote =
     andthen (sudo x h (''mkdir -p '' @ remote) True)
     (andthen (sudo x h (binary_install_command remote) True)
     (andthen (run x h (''rm -rf '' @ BUILD_DIR) False)
     (bnd (source_hash source_dir) (\<lambda>digest.
      andthen (sudo x h (record_hash_command remote digest) True) (ret ())))))"

definition build_service :: "'e env \<Rightarrow> remote_host \<Rightarrow> path \<Rightarrow> string \<Rightarrow> ('e, unit) prog" where
  "build_service x h source_dir remote =
     bnd (missing_files source_dir SOURCE_FILES) (\<lambda>missing.
     if missing \<noteq> []
     then raise (VmDeployError (''Go service sources missing from '' @ path_str source_dir @ '': ''
       @ py_repr_list missing))
     else let template = path_join (path_join source_dir ''templates'') ''clusterview.html'' in
       bnd (is_file template) (\<lambda>present.
       if \<not> present then raise (VmDeployError (''Go service template missing: '' @ path_str template))
       else andthen (compile_service x h source_dir template) (install_binary x h source_dir remote)))"

definition installed_source_hash :: "'e env \<Rightarrow> remote_host \<Rightarrow> string \<Rightarrow> ('e, string) prog" where
  "installed_source_hash x h remote =
     bnd (sudo x h (''cat '' @ remote @ ''/'' @ SOURCE_HASH_FILE @ '' 2>/dev/null'') False)
       (\<lambda>result. ret (strip (stdout result)))"

definition ensure_service_binary ::
  "'e env \<Rightarrow> remote_host \<Rightarrow> cluster_config \<Rightarrow> path \<Rightarrow> ('e, bool) prog" where
  "ensure_service_binary x h config source_dir =
     (let remote = remote_dir (cfg_inventory config) in
     bnd (source_hash source_dir) (\<lambda>wanted.
     bnd (installed_source_hash x h remote) (\<lambda>installed.
     bnd (sudo x h (''test -x '' @ remote @ ''/'' @ SERVICE_NAME) False) (\<lambda>test.
     if ok test \<and> installed = wanted then ret False
     else andthen (install_go x h (cfg_build config))
       (andthen (build_service x h source_dir remote) (ret True))))))"

definition group_commands :: "string \<Rightarrow> string list" where
  "group_commands remote = [''groupadd -f vmdeploy-inventory'', ''mkdir -p '' @ remote,
     ''chgrp vmdeploy-inventory '' @ remote, ''chmod 2770 '' @ remote]"

definition prepare_template ::
  "'e env \<Rightarrow> remote_host \<Rightarrow> cluster_config \<Rightarrow> path \<Rightarrow> ('e, unit) prog" where
  "prepare_template x h config source_dir =
     (let remote = remote_dir (cfg_inventory config) in
     andthen (install_apache x h)
     (andthen (install_go x h (cfg_build config))
     (andthen (for_each (group_commands remote) (\<lambda>cmd. andthen (sudo x h cmd True) (ret ())))
     (andthen (build_service x h source_dir remote)
     (andthen (run x h ''rm -rf /tmp/vmdeploy-gocache'' False)
     (andthen (sudo x h ''apt-get clean'' False)
     (andthen (source_hash source_dir) (ret ()))))))))"

subsection \<open>The unit and the deployment\<close>

definition unit_lines :: "inventory_config \<Rightarrow> string list" where
  "unit_lines inventory =
    [''# Managed by vmdeploy. Manual edits are overwritten on redeploy.'',
     ''[Unit]'',
     ''Description=Encrypted cluster inventory service'',
     ''After=network-online.target'',
     ''Wants=network-online.target'',
     '''',
     ''[Service]'',
     ''Type=simple'',
     ''ExecStart='' @ remote_dir inventory @ ''/'' @ SERVICE_NAME @ '' '' @ [c_bs],
     ''    -addr :'' @ show_int (service_port inventory) @ '' '' @ [c_bs],
     ''    -key '' @ remote_dir inventory @ ''/'' @ path_name (key_file inventory) @ '' '' @ [c_bs],
     ''    -store '' @ remote_dir inventory @ ''/'' @ datastore_name inventory,
     ''Restart=on-failure'',
     ''RestartSec=5s'',
     '''',
     ''# The service reads one key and one datastore; nothing else needs to be'',
     ''# reachable, so the sandbox is tightened to match.'',
     ''DynamicUser=yes'',
     ''SupplementaryGroups=vmdeploy-inventory'',
     ''NoNewPrivileges=yes'',
     ''PrivateTmp=yes'',
     ''ProtectSystem=strict'',
     ''ProtectHome=yes'',
     ''ReadWritePaths='' @ remote_dir inventory,
     ''ProtectKernelTunables=yes'',
     ''ProtectControlGroups=yes'',
     ''RestrictAddressFamilies=AF_INET AF_INET6'',
     ''RestrictNamespaces=yes'',
     ''MemoryDenyWriteExecute=yes'',
     '''',
     ''[Install]'',
     ''WantedBy=multi-user.target'']"

definition render_unit :: "cluster_config \<Rightarrow> string" where
  "render_unit config = concat (map (\<lambda>l. l @ [c_nl]) (unit_lines (cfg_inventory config)))"

definition encode_key :: "bytes \<Rightarrow> bytes" where
  "encode_key key = b64encode key @ [10]"

text \<open>The part of \<open>deploy_service\<close> that follows the start request.\<close>

definition check_service :: "'e env \<Rightarrow> remote_host \<Rightarrow> ('e, unit) prog" where
  "check_service x h =
     bnd (run x h (''systemctl is-active '' @ SERVICE_NAME @ ''.service'') False) (\<lambda>active.
     if strip (stdout active) \<noteq> ''active''
     then bnd (sudo x h (''journalctl -u '' @ SERVICE_NAME @ ''.service --no-pager -n 40'') False) (\<lambda>journal.
       raise (VmDeployError (''Inventory service failed to start on '' @ address h @ '': ''
         @ or_else (strip (stdout active)) ''unknown'' @ [c_nl] @ strip (stdout journal))))
     else ret ())"

definition install_key :: "'e env \<Rightarrow> remote_host \<Rightarrow> bytes \<Rightarrow> string \<Rightarrow> ('e, unit) prog" where
  "install_key x h key remote_key =
     andthen (put_bytes x h (encode_key key) remote_key 416)
     (for_each [''chgrp vmdeploy-inventory '' @ remote_key, ''chmod 0640 '' @ remote_key]
        (\<lambda>cmd. andthen (sudo x h cmd True) (ret ())))"

definition deploy_service ::
  "'e env \<Rightarrow> remote_host \<Rightarrow> cluster_config \<Rightarrow> path \<Rightarrow> ('e, unit) prog" where
  "deploy_service x h config source_dir =
     (let inventory = cfg_inventory config; remote = remote_dir inventory in
     andthen (for_each (group_commands remote) (\<lambda>cmd. andthen (sudo x h cmd True) (ret ())))
     (andthen (ensure_service_binary x h config source_dir)
     (bnd (load_or_create_key (key_file inventory)) (\<lambda>key.
      andthen (install_key x h key (remote @ ''/'' @ path_name (key_file inventory)))
     (andthen (put_bytes x h (utf8_encode (render_unit config)) SERVICE_UNIT 420)
     (andthen (for_each [''systemctl daemon-reload'', ''systemctl enable '' @ SERVICE_NAME @ ''.service'',
          ''systemctl restart '' @ SERVICE_NAME @ ''.service'']
        (\<lambda>cmd. andthen (sudo x h cmd True) (ret ())))
     (check_service x h)))))))"

section \<open>Effects\<close>

text \<open>
  What a program that works on a guest and on local files asks of a relation: the operations of
  the session, the raw SFTP upload and the download, and writes to the files in \<open>W\<close>.
\<close>

locale host_session = guest_session R x h for R :: "'e world \<Rightarrow> 'e world \<Rightarrow> bool" and x :: "'e env" and h +
  fixes W :: "path \<Rightarrow> bool"
  assumes ev_sftp [evolve_intros]: "evolves R (sftp x h)"
    and ev_sftp_write [evolve_intros]: "evolves R (ext_call (EvSftpWrite (address h) p b) (op :: ('e, sftp_fault option) service))"
    and ev_http [evolve_intros]: "evolves R (ext_call (EvHttp url) (op' :: ('e, http_outcome) service))"
    and ev_urandom [evolve_intros]: "evolves R (urandom n)"
    and ev_mkdir [evolve_intros]: "evolves R (mkdir q)" "evolves R (chmod q m)"
    and ev_write [evolve_intros]: "W q \<Longrightarrow> evolves R (write_bytes q b)" "W q \<Longrightarrow> evolves R (unlink_missing_ok q)"
begin

lemma ev_hash [evolve_intros]: "evolves R (source_hash d)" "evolves R (sha256_file p)"
  unfolding source_hash_def absorb_source_def sha256_file_def by (intro evolve_intros)+

lemma ev_fetch_go:
  assumes "W (path_join (go_cache_dir x) (go_archive build))"
  shows "evolves R (fetch_go_archive_to_host x build)"
  unfolding fetch_go_archive_to_host_def cached_archive_def download_def Let_def
  by (intro evolve_intros assms)

lemma ev_upload_archive [evolve_intros]: "evolves R (upload_archive x h p tmp)"
  unfolding upload_archive_def by (intro evolve_intros) (auto intro: evolve_intros split: if_splits)

lemma ev_unpack_go [evolve_intros]: "evolves R (unpack_go x h build tmp)"
  unfolding unpack_go_def by (intro evolve_intros)

lemma ev_install_go:
  assumes "W (path_join (go_cache_dir x) (go_archive build))"
  shows "evolves R (install_go x h build)"
  unfolding install_go_def install_archive_def by (intro evolve_intros ev_fetch_go assms)

lemma ev_build_service [evolve_intros]: "evolves R (build_service x h d remote)"
  unfolding build_service_def missing_files_def compile_service_def install_binary_def upload_source_def Let_def
  by (intro evolve_intros)

lemma ev_ensure_binary:
  assumes "W (path_join (go_cache_dir x) (go_archive (cfg_build config)))"
  shows "evolves R (ensure_service_binary x h config d)"
  unfolding ensure_service_binary_def installed_source_hash_def Let_def
  by (intro evolve_intros ev_install_go assms)

lemma ev_prepare_template:
  assumes "W (path_join (go_cache_dir x) (go_archive (cfg_build config)))"
  shows "evolves R (prepare_template x h config d)"
  unfolding prepare_template_def Let_def by (intro evolve_intros ev_install_go assms)

lemma ev_load_key [evolve_intros]: "evolves R (load_key p)"
  unfolding load_key_def
  by (intro evolve_intros evolution_axioms)
    (auto intro!: evolve_intros split: exn.splits)

lemma ev_key: "W p \<Longrightarrow> evolves R (load_or_create_key p)"
  unfolding load_or_create_key_def generate_key_def write_key_file_def
  by (intro evolve_intros) (auto intro: evolve_intros split: if_splits)

lemma ev_deploy_service:
  assumes "W (path_join (go_cache_dir x) (go_archive (cfg_build config)))" "W (key_file (cfg_inventory config))"
  shows "evolves R (deploy_service x h config d)"
  unfolding deploy_service_def install_key_def check_service_def Let_def
  by (intro evolve_intros ev_ensure_binary ev_key assms)

end

interpretation clk_host: host_session clock_le x h "\<lambda>_. True" for x :: "'e env" and h
  by unfold_locales (intro evolve_intros)+

interpretation leak_host: host_session no_leak x h "\<lambda>_. True" for x :: "'e env" and h
  by unfold_locales (intro evolve_intros)+

interpretation keep_host: host_session "keeps_files (\<lambda>p. \<not> W p)" x h W for W and x :: "'e env" and h
  by unfold_locales (auto intro: evolve_intros keep_write)

text \<open>Events of one session and downloads.\<close>

definition at_or_http :: "string \<Rightarrow> event \<Rightarrow> bool" where
  "at_or_http a ev \<longleftrightarrow> at_address a ev \<or> (\<exists>url out. ev = EvHttp url out)"

interpretation emit_host: host_session "emits (at_or_http (address h))" x h "\<lambda>_. True" for x :: "'e env" and h
proof unfold_locales
  fix c t cmd p b m
  show "evolves (emits (at_or_http (address h))) (run_for x h cmd c t)"
    "evolves (emits (at_or_http (address h))) (sudo_for x h cmd c t)"
    "evolves (emits (at_or_http (address h))) (put_bytes x h b p m)"
    "evolves (emits (at_or_http (address h))) (get_bytes x h p)"
    "evolves (emits (at_or_http (address h))) (sftp x h)"
    by (rule emit_session; simp add: at_or_http_def)+
qed (auto intro: evolve_intros emit_ext_call simp: at_or_http_def at_address_def)

section \<open>Properties\<close>

subsection \<open>The fingerprint\<close>

definition source_frame :: "bytes list \<Rightarrow> bytes" where
  "source_frame contents = concat (map2 framed HASH_FILES contents)"

definition nul_free :: "bytes list \<Rightarrow> bool" where
  "nul_free contents \<longleftrightarrow> length contents = length HASH_FILES \<and> list_all (\<lambda>c. 0 \<notin> set c) contents"

lemma nul_split:
  "0 \<notin> set a \<Longrightarrow> 0 \<notin> set b \<Longrightarrow> a @ 0 # r = b @ 0 # s \<Longrightarrow> a = b \<and> r = (s :: bytes)"
proof (induction a arbitrary: b)
  case Nil
  then show ?case by (cases b) auto
next
  case (Cons y ys)
  then show ?case by (cases b) auto
qed

lemma frame_inj:
  assumes "length xs = length ns" "length ys = length ns"
    and "list_all (\<lambda>c. 0 \<notin> set c) xs" "list_all (\<lambda>c. 0 \<notin> set c) ys"
    and "concat (map2 framed ns xs) = concat (map2 framed ns ys)"
  shows "xs = ys"
  using assms
proof (induction ns arbitrary: xs ys)
  case Nil
  then show ?case by simp
next
  case (Cons n ns)
  from Cons.prems obtain a xs' b ys' where eq: "xs = a # xs'" "ys = b # ys'" by (metis length_Suc_conv)
  have "a @ 0 # concat (map2 framed ns xs') = b @ 0 # concat (map2 framed ns ys')"
    using Cons.prems(5) by (simp add: eq framed_def)
  then have "a = b \<and> concat (map2 framed ns xs') = concat (map2 framed ns ys')"
    using Cons.prems(3,4) by (intro nul_split) (simp_all add: eq)
  then show ?case using Cons by (simp add: eq)
qed

lemma run_absorb:
  "fold_prog (absorb_source d) ns acc w = (r, w') \<Longrightarrow> w' = w
   \<and> fails_as (\<lambda>e. is_VmDeployError e \<or> is_OSError e) r
   \<and> gives (\<lambda>digest. \<exists>cs. map Some cs = map (\<lambda>n. files w (path_join d n)) ns
        \<and> digest = acc @ concat (map2 framed ns cs)) r"
proof (induction ns arbitrary: acc)
  case Nil
  then show ?case by (auto simp: run_simps)
next
  case (Cons n ns)
  show ?case
  proof (cases "\<exists>b. absorb_source d n acc w = (Inr (acc @ framed n b), w) \<and> files w (path_join d n) = Some b")
    case True
    then obtain b where b: "absorb_source d n acc w = (Inr (acc @ framed n b), w)"
      "files w (path_join d n) = Some b" by blast
    then have "fold_prog (absorb_source d) ns (acc @ framed n b) w = (r, w')"
      using Cons.prems by (simp add: run_simps)
    note ih = Cons.IH[OF this]
    have "gives (\<lambda>digest. \<exists>cs. map Some cs = map (\<lambda>n. files w (path_join d n)) (n # ns)
        \<and> digest = acc @ concat (map2 framed (n # ns) cs)) r"
      unfolding gives_def
    proof (intro allI impI)
      fix digest
      assume "r = Inr digest"
      then obtain cs where "map Some cs = map (\<lambda>n. files w (path_join d n)) ns"
        "digest = (acc @ framed n b) @ concat (map2 framed ns cs)" using ih by (auto simp: gives_def)
      then show "\<exists>cs. map Some cs = map (\<lambda>n. files w (path_join d n)) (n # ns)
        \<and> digest = acc @ concat (map2 framed (n # ns) cs)"
        using b(2) by (intro exI[of _ "b # cs"]) simp
    qed
    with ih show ?thesis by simp
  next
    case False
    have "\<exists>e. absorb_source d n acc w = (Inl e, w) \<and> (is_VmDeployError e \<or> is_OSError e)"
    proof (cases "files w (path_join d n)")
      case None
      then show ?thesis by (simp add: absorb_source_def run_simps)
    next
      case (Some b)
      then have "denied w Opening (path_join d n)"
        using False by (cases "denied w Opening (path_join d n)") (simp_all add: absorb_source_def run_simps read_bytes_def)
      then show ?thesis using Some
        by (simp add: absorb_source_def run_simps read_bytes_def permission_denied_def)
    qed
    then show ?thesis using Cons.prems by (auto simp: run_simps)
  qed
qed

lemma run_source_hash:
  "source_hash d w = (r, w') \<Longrightarrow> w' = w \<and> fails_as (\<lambda>e. is_VmDeployError e \<or> is_OSError e) r
   \<and> gives (\<lambda>digest. \<exists>cs. map Some cs = map (\<lambda>n. files w (path_join d n)) HASH_FILES
        \<and> digest = sha256_hex (source_frame cs)) r"
proof -
  assume run: "source_hash d w = (r, w')"
  obtain q v where f: "fold_prog (absorb_source d) HASH_FILES [] w = (q, v)"
    by (cases "fold_prog (absorb_source d) HASH_FILES [] w")
  note fold = run_absorb[OF f]
  have "(r, w') = (case q of Inl e \<Rightarrow> (Inl e, v) | Inr digest \<Rightarrow> (Inr (sha256_hex digest), v))"
    using run by (simp add: source_hash_def run_simps f split: sum.splits)
  then show ?thesis
    using fold by (cases q) (auto simp: source_frame_def)
qed

text \<open>
  The fingerprint of the sources. It is the SHA-256 of the framed contents of the six files
  that are there, it changes nothing, and a missing or unreadable file is an error. Sources without
  a zero byte have the same framing only if they are the same, so two such sources with equal
  fingerprints are equal or a collision of SHA-256. With zero bytes in a file the framing is
  ambiguous: some two different sources have the same fingerprint.
\<close>

theorem source_hash_fingerprint:
  "(case source_hash d w of (r, w') \<Rightarrow> w' = w
      \<and> fails_as (\<lambda>e. is_VmDeployError e \<or> is_OSError e) r
      \<and> gives (\<lambda>digest. \<exists>cs. map Some cs = map (\<lambda>n. files w (path_join d n)) HASH_FILES
           \<and> digest = sha256_hex (source_frame cs)) r)
   \<and> inj_on source_frame (Collect nul_free)
   \<and> (\<exists>cs ds. length cs = 6 \<and> length ds = 6 \<and> cs \<noteq> ds \<and> source_frame cs = source_frame ds)"
proof (intro conjI)
  show "case source_hash d w of (r, w') \<Rightarrow> w' = w
      \<and> fails_as (\<lambda>e. is_VmDeployError e \<or> is_OSError e) r
      \<and> gives (\<lambda>digest. \<exists>cs. map Some cs = map (\<lambda>n. files w (path_join d n)) HASH_FILES
           \<and> digest = sha256_hex (source_frame cs)) r"
    using run_source_hash[of d w] by (cases "source_hash d w") simp
  show "inj_on source_frame (Collect nul_free)"
    by (rule inj_onI) (auto simp: nul_free_def source_frame_def intro: frame_inj[where ns = HASH_FILES])
  let ?n = "utf8_encode ''main.go'' @ [0]"
  show "\<exists>cs ds. length cs = 6 \<and> length ds = 6 \<and> cs \<noteq> ds \<and> source_frame cs = source_frame ds"
    by (intro exI[of _ "[[0] @ ?n, [], [], [], [], []]"] exI[of _ "[[], [0] @ ?n, [], [], [], []]"])
      (simp add: source_frame_def HASH_FILES_def SOURCE_FILES_def framed_def)
qed

subsection \<open>The archive\<close>

lemma concat_chunks: "0 < n \<Longrightarrow> concat (chunks n bs) = bs"
proof (induction n bs rule: chunks.induct)
  case (1 n bs)
  then show ?case by (subst chunks.simps) auto
qed

lemma run_sha256_file:
  "sha256_file p w = (case read_bytes p w of (Inl e, v) \<Rightarrow> (Inl e, v) | (Inr b, v) \<Rightarrow> (Inr (sha256_hex b), v))"
  by (simp add: sha256_file_def run_simps concat_chunks DOWNLOAD_CHUNK_def split: sum.splits prod.splits)

lemma sha256_file_Inr:
  "sha256_file p w = (Inr d, w') \<longleftrightarrow> w' = w \<and> (\<exists>b. files w p = Some b \<and> \<not> denied w Opening p \<and> d = sha256_hex b)"
  by (auto simp: run_sha256_file read_bytes_def split: option.splits if_splits)

definition go_url :: "build_config \<Rightarrow> string" where
  "go_url build = ''https://go.dev/dl/'' @ go_archive build"

lemma fetch_go_verified:
  assumes "fetch_go_archive_to_host x build w = (Inr p, w')"
  shows "p = path_join (go_cache_dir x) (go_archive build)
    \<and> (\<exists>b. files w' p = Some b \<and> sha256_hex b = go_sha256 build)"
  using assms
  by (auto simp: fetch_go_archive_to_host_def cached_archive_def Let_def run_inv sha256_file_Inr run_host_ops
      split: if_splits)

definition fetch_exn :: "exn \<Rightarrow> bool" where
  "fetch_exn e \<longleftrightarrow> is_VmDeployError e \<or> is_OSError e \<or> e = KeyboardInterrupt"

lemma throws_fetch_files [throws_intros]:
  "throws fetch_exn (read_bytes p)" "throws fetch_exn (write_bytes p b)" "throws fetch_exn (mkdir p)"
  "throws fetch_exn (unlink_missing_ok p)"
  by (rule throws_file_ops, simp add: fetch_exn_def)+

lemma throws_fetch_go: "throws fetch_exn (fetch_go_archive_to_host x build)"
  unfolding fetch_go_archive_to_host_def cached_archive_def sha256_file_def download_def download_error_def Let_def
  by (intro throws_intros) (simp_all add: fetch_exn_def)

lemma fetch_go_events:
  "evolves (emits (\<lambda>ev. \<exists>out. ev = EvHttp (go_url build) out)) (fetch_go_archive_to_host x build)"
  unfolding fetch_go_archive_to_host_def cached_archive_def download_def sha256_file_def go_url_def Let_def
  by (intro evolve_intros emit_ext_call) auto

text \<open>
  C27: fetching the Go archive. A path is returned only for the cache entry of the pinned version,
  and only when the file there has the pinned SHA-256, whether it was cached or just downloaded. No
  other local file changes and nothing but the pinned address is asked for. Failures are program
  errors, interrupts, and also errors of the local file system, which the function does not wrap.
\<close>

theorem fetch_go_archive_verified:
  "case fetch_go_archive_to_host x build w of (r, w') \<Rightarrow>
     let dest = path_join (go_cache_dir x) (go_archive build)
     in gives (\<lambda>p. p = dest \<and> (\<exists>b. files w' dest = Some b \<and> sha256_hex b = go_sha256 build)) r
        \<and> (\<forall>q. q = dest \<or> files w' q = files w q)
        \<and> emits (\<lambda>ev. \<exists>out. ev = EvHttp (go_url build) out) w w'
        \<and> fails_as fetch_exn r"
proof -
  obtain r w' where run: "fetch_go_archive_to_host x build w = (r, w')"
    by (cases "fetch_go_archive_to_host x build w")
  have "keeps_files (\<lambda>q. \<not> q = path_join (go_cache_dir x) (go_archive build)) w w'"
    using evolvesD[OF keep_host.ev_fetch_go[where W = "\<lambda>q. q = path_join (go_cache_dir x) (go_archive build)", OF refl] run] .
  moreover have "fails_as fetch_exn r" using throws_fetch_go run unfolding throws_def by (metis fst_conv)
  moreover have "emits (\<lambda>ev. \<exists>out. ev = EvHttp (go_url build) out) w w'"
    by (rule evolvesD[OF fetch_go_events run])
  ultimately show ?thesis
    using fetch_go_verified run by (fastforce simp: gives_def keeps_files_def Let_def)
qed

subsection \<open>The toolchain on the guest\<close>

definition as_root :: "event \<Rightarrow> bool" where
  "as_root ev = (case ev of EvExec _ _ cmd _ _ \<Rightarrow> startswith cmd ''sudo'' | _ \<Rightarrow> False)"

text \<open>
  The last two events: the upload of an archive with the pinned SHA-256, and its check by the guest
  with status zero.
\<close>

definition verified_archive :: "remote_host \<Rightarrow> build_config \<Rightarrow> event list \<Rightarrow> bool" where
  "verified_archive h build es \<longleftrightarrow> (\<exists>before tmp payload out err. es = before
     @ [EvSftpWrite (address h) tmp payload (Some None),
        EvExec (address h) (ssh_user (host_ssh h)) (checksum_command build tmp) None (Some (ExecDone 0 out err))]
     \<and> sha256_hex payload = go_sha256 build)"

text \<open>The last event: the guest reported this version.\<close>

definition reported :: "remote_host \<Rightarrow> string \<Rightarrow> event list \<Rightarrow> bool" where
  "reported h version es \<longleftrightarrow> (\<exists>before cmd out err. es = before
     @ [EvExec (address h) (ssh_user (host_ssh h)) cmd None (Some (ExecDone 0 out err))]
     \<and> (cmd = ''go version'' \<or> cmd = ''go version 2>/dev/null'') \<and> version = strip out)"

definition install_exn :: "exn \<Rightarrow> bool" where
  "install_exn e \<longleftrightarrow> fetch_exn e \<or> (\<exists>msg. e = SSHException msg)"

lemma install_exn_simps [simp]:
  "install_exn (VmDeployError s)" "install_exn KeyboardInterrupt" "install_exn (OSError s)"
  "install_exn (SSHException s)"
  by (simp_all add: install_exn_def fetch_exn_def)

lemma ssh_install_exn: "ssh_exn e \<Longrightarrow> install_exn e"
  by (auto simp: ssh_exn_def install_exn_def fetch_exn_def subclass_VmDeployError)

lemma throws_install_host [throws_intros]:
  "throws install_exn (run_for x h cmd c t)" "throws install_exn (sudo_for x h cmd c t)"
  "throws install_exn (put_bytes x h b p m)" "throws install_exn (get_bytes x h p)"
  "throws install_exn (sftp x h)"
  by (rule throws_mono[OF throws_host_ops(2)] throws_mono[OF throws_host_ops(3)]
      throws_mono[OF throws_host_ops(5)] throws_mono[OF throws_host_ops(6)] throws_mono[OF throws_host_ops(4)],
      rule ssh_install_exn, assumption)+

lemma throws_install_files [throws_intros]:
  "throws install_exn (read_bytes p)" "throws install_exn (fetch_go_archive_to_host x build)"
  by (rule throws_mono[OF throws_fetch_files(1)] throws_mono[OF throws_fetch_go], simp add: install_exn_def)+

lemma throws_upload_archive [throws_intros]: "throws install_exn (upload_archive x h p tmp)"
  unfolding upload_archive_def
  by (rule throws_catch[where Q = install_exn], intro throws_intros)
    (auto intro!: throws_intros split: if_splits sftp_fault.splits)

lemma throws_install_go [throws_intros]: "throws install_exn (install_go x h build)"
  unfolding install_go_def install_archive_def unpack_go_def by (intro throws_intros) simp_all

lemma run_event:
  "run_for x h cmd c t w = (Inr res, w') \<Longrightarrow> ok res \<Longrightarrow> trace w' = trace w
     @ [EvExec (address h) (ssh_user (host_ssh h)) cmd None (Some (ExecDone 0 (stdout res) (stderr res)))]"
  by (auto simp: run_run_for Let_def ok_def split: prod.splits option.splits exec_outcome.splits if_splits)

lemma unpack_go_reports:
  "unpack_go x h build tmp w = (Inr v, w') \<Longrightarrow> reported h v (trace w') \<and> startswith v (strip (wanted_version build))"
  by (auto simp: unpack_go_def run_inv reports_version_def reported_def split: if_splits dest!: run_event)

lemma upload_archive_event:
  "upload_archive x h p tmp w = (Inr u, w') \<Longrightarrow> \<exists>b es. files w p = Some b
     \<and> trace w' = trace w @ es @ [EvSftpWrite (address h) tmp b (Some None)]"
proof -
  assume "upload_archive x h p tmp w = (Inr u, w')"
  then obtain v b u' where s: "sftp x h w = (Inr u', v)" and r: "read_bytes p v = (Inr b, v)"
    and t: "ext_call (EvSftpWrite (address h) tmp b) (x_sftp_write x (address h) tmp b) v = (Inr None, w')"
    by (auto simp: upload_archive_def catch_Inr run_inv split: if_splits option.splits)
      (auto simp: read_bytes_def split: option.splits if_splits)
  have "files v p = files w p"
    using evolvesD[OF keep_host_ops(5)[where P = "\<lambda>_. True"] s] by (simp add: keeps_files_def)
  moreover have "files v p = Some b" using r by (auto simp: read_bytes_def split: option.splits if_splits)
  ultimately show ?thesis using sftp_trace[OF s] sftp_write_trace[OF t] by auto
qed

lemma not_root_run: "\<not> startswith cmd ''sudo'' \<Longrightarrow> evolves (emits (\<lambda>ev. \<not> as_root ev)) (run_for x h cmd c t)"
  by (rule emit_run) (simp add: as_root_def)

lemma not_root_fetch: "evolves (emits (\<lambda>ev. \<not> as_root ev)) (fetch_go_archive_to_host x build)"
  by (rule evolves_emits_mono[OF fetch_go_events]) (auto simp: as_root_def)

lemma not_root_upload: "evolves (emits (\<lambda>ev. \<not> as_root ev)) (upload_archive x h p tmp)"
  unfolding upload_archive_def sftp_def client_def
  by (intro evolve_intros emit_ext_call)
    (auto intro: evolve_intros simp: as_root_def split: if_splits)

lemma verified_archive_append: "verified_archive h build es \<Longrightarrow> verified_archive h build (pre @ es)"
  unfolding verified_archive_def by (metis append.assoc)

lemma install_archive_cases:
  assumes run: "install_archive x h build p tmp w = (r, w')"
    and b: "files w p = Some b" "sha256_hex b = go_sha256 build"
  shows "emits (\<lambda>ev. \<not> as_root ev) w w' \<or> (\<exists>v pre. trace v = trace w @ pre
     \<and> list_all (\<lambda>ev. \<not> as_root ev) pre \<and> verified_archive h build pre \<and> unpack_go x h build tmp v = (r, w'))"
proof -
  let ?R = "emits (\<lambda>ev. \<not> as_root ev) :: 'a world \<Rightarrow> 'a world \<Rightarrow> bool"
  obtain q3 v3 where 3: "upload_archive x h p tmp w = (q3, v3)" by (cases "upload_archive x h p tmp w")
  have R3: "?R w v3" using evolvesD[OF not_root_upload 3] .
  obtain q4 v4 where 4: "run x h (checksum_command build tmp) False v3 = (q4, v4)"
    by (cases "run x h (checksum_command build tmp) False v3")
  have R4: "?R v3 v4" by (rule evolvesD[OF not_root_run 4]) (simp add: startswith_def checksum_command_def)
  obtain q5 v5 where 5: "run x h (''rm -f '' @ tmp) False v4 = (q5, v5)"
    by (cases "run x h (''rm -f '' @ tmp) False v4")
  have R5: "?R v4 v5" by (rule evolvesD[OF not_root_run 5]) (simp add: startswith_def)
  have rest: "(r, w') = (case q3 of Inl e \<Rightarrow> (Inl e, v3) | Inr _ \<Rightarrow> (case q4 of Inl e \<Rightarrow> (Inl e, v4)
      | Inr check \<Rightarrow> if ok check then unpack_go x h build tmp v4 else (fst (r, w'), v5)))"
    using run 3 4 5 by (auto simp: install_archive_def run_simps split: sum.splits if_splits)
  show ?thesis
  proof (cases "\<exists>u check. q3 = Inr u \<and> q4 = Inr check \<and> ok check")
    case False
    then have "w' = v3 \<or> w' = v4 \<or> w' = v5" using rest by (auto split: sum.splits if_splits)
    then show ?thesis using R3 emit.trans[OF R3 R4] emit.trans[OF emit.trans[OF R3 R4] R5] by blast
  next
    case True
    then obtain u check where u: "q3 = Inr u" "q4 = Inr check" "ok check" by blast
    from upload_archive_event[OF 3[unfolded u]] b(1) obtain es where
      "trace v3 = trace w @ es @ [EvSftpWrite (address h) tmp b (Some None)]" by auto
    with run_event[OF 4[unfolded u(2)] u(3)] obtain pre where pre: "trace v4 = trace w @ pre"
      "verified_archive h build pre" using b(2) unfolding verified_archive_def by auto
    moreover have "list_all (\<lambda>ev. \<not> as_root ev) pre"
      using emit.trans[OF R3 R4] pre(1) by (auto simp: emits_def)
    moreover have "unpack_go x h build tmp v4 = (r, w')" using rest u by simp
    ultimately show ?thesis by blast
  qed
qed

text \<open>Either nothing ran as root, or the archive was verified and the rest is the installation.\<close>

lemma install_go_cases:
  assumes run: "install_go x h build w = (r, w')"
  shows "emits (\<lambda>ev. \<not> as_root ev) w w' \<or> (\<exists>tmp v pre. trace v = trace w @ pre
     \<and> list_all (\<lambda>ev. \<not> as_root ev) pre \<and> verified_archive h build pre \<and> unpack_go x h build tmp v = (r, w'))"
proof -
  let ?R = "emits (\<lambda>ev. \<not> as_root ev) :: 'a world \<Rightarrow> 'a world \<Rightarrow> bool"
  obtain q1 v1 where 1: "run x h ''go version 2>/dev/null'' False w = (q1, v1)"
    by (cases "run x h ''go version 2>/dev/null'' False w")
  have R1: "?R w v1" by (rule evolvesD[OF not_root_run 1]) (simp add: startswith_def)
  obtain q2 v2 where 2: "fetch_go_archive_to_host x build v1 = (q2, v2)"
    by (cases "fetch_go_archive_to_host x build v1")
  have R2: "?R w v2" using emit.trans[OF R1 evolvesD[OF not_root_fetch 2]] .
  show ?thesis
  proof (cases "\<exists>cur p. q1 = Inr cur \<and> \<not> reports_version build cur \<and> q2 = Inr p")
    case False
    then have "w' = v1 \<or> w' = v2" using run 1 2 by (auto simp: install_go_def run_simps split: sum.splits if_splits)
    then show ?thesis using R1 R2 by blast
  next
    case True
    then obtain p where p: "q2 = Inr p"
      and inst: "install_archive x h build p (''/tmp/'' @ path_name p) v2 = (r, w')"
      using run 1 2 by (auto simp: install_go_def run_simps)
    obtain b where b: "files v2 p = Some b" "sha256_hex b = go_sha256 build"
      using fetch_go_verified[OF 2[unfolded p]] by blast
    obtain pre2 where pre2: "trace v2 = trace w @ pre2" "list_all (\<lambda>ev. \<not> as_root ev) pre2"
      using R2 by (auto simp: emits_def)
    show ?thesis
      using install_archive_cases[OF inst b]
    proof (elim disjE exE conjE)
      assume "?R v2 w'"
      then show ?thesis using emit.trans[OF R2] by blast
    next
      fix v pre
      assume "trace v = trace v2 @ pre" "list_all (\<lambda>ev. \<not> as_root ev) pre" "verified_archive h build pre"
        "unpack_go x h build (''/tmp/'' @ path_name p) v = (r, w')"
      then show ?thesis using pre2 by (intro disjI2 exI[of _ "''/tmp/'' @ path_name p"] exI[of _ v]
          exI[of _ "pre2 @ pre"]) (auto intro: verified_archive_append)
    qed
  qed
qed

text \<open>
  C13: installing the pinned toolchain is gated. No command runs as root unless, during the same
  call, an archive whose SHA-256 is the pinned one was uploaded whole and the guest's own check of
  it ended with status zero; a bad download or a bad transfer ends the call before anything is
  removed or unpacked. When it returns, the last thing seen is the guest reporting a version that
  starts with the pinned one.
\<close>

theorem install_go_gated:
  "case install_go x h build w of (r, w') \<Rightarrow>
     (\<exists>pre post. trace w' = trace w @ pre @ post \<and> \<not> list_ex as_root pre
        \<and> (post = [] \<or> verified_archive h build pre))
     \<and> gives (\<lambda>v. startswith v (strip (wanted_version build)) \<and> reported h v (trace w')) r
     \<and> fails_as install_exn r"
proof -
  obtain r w' where run: "install_go x h build w = (r, w')" by (cases "install_go x h build w")
  have "\<exists>pre post. trace w' = trace w @ pre @ post \<and> \<not> list_ex as_root pre
        \<and> (post = [] \<or> verified_archive h build pre)"
    using install_go_cases[OF run]
  proof (elim disjE exE conjE)
    assume "emits (\<lambda>ev. \<not> as_root ev) w w'"
    then obtain pre where "trace w' = trace w @ pre" "\<not> list_ex as_root pre"
      by (auto simp: emits_def list_ex_iff list_all_iff)
    then show ?thesis by (intro exI[of _ pre] exI[of _ "[]"]) simp
  next
    fix tmp v pre
    assume v: "trace v = trace w @ pre" "list_all (\<lambda>ev. \<not> as_root ev) pre" "verified_archive h build pre"
      and u: "unpack_go x h build tmp v = (r, w')"
    from emits_trace[OF emit_host.ev_unpack_go u] obtain post where "trace w' = trace v @ post" by blast
    then show ?thesis using v by (intro exI[of _ pre] exI[of _ post]) (auto simp: list_ex_iff list_all_iff)
  qed
  moreover have "startswith v (strip (wanted_version build)) \<and> reported h v (trace w')" if "r = Inr v" for v
    using run unfolding that
    by (auto simp: install_go_def install_archive_def run_inv reports_version_def reported_def split: if_splits
        dest: unpack_go_reports dest!: run_event)
  moreover have "fails_as install_exn r" using throws_install_go run unfolding throws_def by (metis fst_conv)
  ultimately show ?thesis by (auto simp: run gives_def)
qed

text \<open>
  The comparison strips the blank that would end the version number: a later patch release whose
  number merely starts with the pinned one is taken for it.
\<close>

lemma install_go_accepts_prefix:
  "\<exists>x w. fst (install_go x quiet_host \<lparr>go_version = ''1.26.5'', go_sha256 = ''00''\<rparr> (w :: unit world))
     = Inr ''go version go1.26.50 linux/amd64''"
proof -
  let ?x = "quiet_env\<lparr>x_exec := \<lambda>_ _ _ _ _ e. (Some (ExecDone 0 ''go version go1.26.50 linux/amd64'' []), 0, e)\<rparr>"
  let ?w = "quiet_world\<lparr>clients := \<lambda>_. True\<rparr>"
  have "strip ''go version go1.26.50 linux/amd64'' = ''go version go1.26.50 linux/amd64''"
    "strip ''go version go1.26.5 '' = ''go version go1.26.5''"
    by (simp_all add: strip_def strip_by_def lstrip_by_def rstrip_by_def is_space_def)
  then have "fst (install_go ?x quiet_host \<lparr>go_version = ''1.26.5'', go_sha256 = ''00''\<rparr> ?w)
      = Inr ''go version go1.26.50 linux/amd64''"
    by (simp add: install_go_def run_simps run_run_for quiet_env_def quiet_world_def quiet_host_def Let_def
        reports_version_def wanted_version_def ok_def startswith_def)
  then show ?thesis by blast
qed

end
