(* ===== verification/GoBinary.thy ===== *)
theory GoBinary
  imports GoService
begin

text \<open>
  What the build and the deployment of the Go service guarantee: a binary that matches the local
  sources, the key and the unit delivered, and a service seen active. The operations are those of
  theory GoService.
\<close>

subsection \<open>The service binary\<close>

lemma sudo_result_event:
  "sudo_for x h cmd c t w = (Inr res, w') \<Longrightarrow> \<exists>es cc stdin. trace w' = trace w @ es
     @ [EvExec (address h) (ssh_user (host_ssh h)) cc stdin (Some (ExecDone (exit_status res) (stdout res) (stderr res)))]
     \<and> (cc = ''sudo -n '' @ cmd \<or> cc = escalated cmd)"
  by (auto simp: sudo_for_def run_run_for run_exec_command run_simps sudo_password_def Let_def ok_def
      split: prod.splits option.splits exec_outcome.splits if_splits)

text \<open>The guest answered the read of the recorded fingerprint with \<open>digest\<close>.\<close>

definition hash_read :: "remote_host \<Rightarrow> string \<Rightarrow> string \<Rightarrow> event list \<Rightarrow> bool" where
  "hash_read h remote digest es \<longleftrightarrow> (\<exists>c stdin status out err.
     EvExec (address h) (ssh_user (host_ssh h)) c stdin (Some (ExecDone status out err)) \<in> set es
     \<and> (let cmd = ''cat '' @ remote @ ''/'' @ SOURCE_HASH_FILE @ '' 2>/dev/null''
        in c = ''sudo -n '' @ cmd \<or> c = escalated cmd)
     \<and> strip out = digest)"

definition compiled :: "remote_host \<Rightarrow> event list \<Rightarrow> bool" where
  "compiled h es \<longleftrightarrow> (\<exists>out err. EvExec (address h) (ssh_user (host_ssh h)) compile_command None
     (Some (ExecDone 0 out err)) \<in> set es)"

lemma source_hash_cong:
  assumes "files w = files v" "denied w = denied v"
  shows "fst (source_hash d w) = fst (source_hash d v)"
proof -
  have step: "fst (absorb_source d n acc w) = fst (absorb_source d n acc v)
      \<and> snd (absorb_source d n acc w) = w \<and> snd (absorb_source d n acc v) = v" for n acc
    using assms by (auto simp: absorb_source_def run_simps read_bytes_def split: option.splits)
  have "fst (fold_prog (absorb_source d) ns acc w) = fst (fold_prog (absorb_source d) ns acc v)" for ns acc
  proof (induction ns arbitrary: acc)
    case Nil
    then show ?case by (simp add: run_simps)
  next
    case (Cons n ns)
    then show ?case using step[of n acc]
      by (cases "absorb_source d n acc w"; cases "absorb_source d n acc v") (auto simp: run_simps split: sum.splits)
  qed
  then show ?thesis
    by (auto simp: source_hash_def run_simps split: prod.splits sum.splits) (metis fst_conv sum.inject old.sum.distinct)+
qed

lemma keeps_all: "evolves (keeps_files (\<lambda>_. True)) m \<Longrightarrow> m w = (r, w') \<Longrightarrow> files w' = files w \<and> denied w' = denied w"
  by (drule evolvesD, assumption) (auto simp: keeps_files_def)

lemma emits_any_session:
  "evolves (emits (\<lambda>_. True)) (run_for x h cmd c t)" "evolves (emits (\<lambda>_. True)) (sudo_for x h cmd c t)"
  "evolves (emits (\<lambda>_. True)) (put_bytes x h b p m)" "evolves (emits (\<lambda>_. True)) (upload_source x h q p)"
  unfolding upload_source_def by (intro evolve_intros emit_session; simp)+

lemma compile_done:
  assumes "compile_service x h d template w = (Inr u, w')"
  shows "\<exists>es. trace w' = trace w @ es \<and> compiled h es"
proof -
  let ?before = "andthen (run x h (''rm -rf '' @ BUILD_DIR @ '' && mkdir -p '' @ BUILD_DIR @ ''/templates'') True)
     (andthen (for_each SOURCE_FILES (\<lambda>name.
        upload_source x h (path_join d name) (BUILD_DIR @ ''/'' @ name)))
     (andthen (upload_source x h template (BUILD_DIR @ ''/templates/clusterview.html''))
     (sudo x h (''chown -R $(id -un):$(id -gn) '' @ BUILD_DIR) False)))"
  from assms obtain a v res where b: "?before w = (Inr a, v)" "ok res"
    "run_for x h compile_command False (Some BUILD_TIMEOUT_SECONDS) v = (Inr res, w')"
    unfolding compile_service_def run_inv by (auto simp: run_inv split: if_splits)
  have "evolves (emits (\<lambda>_. True)) ?before" by (intro evolve_intros emits_any_session)
  from emits_trace[OF this b(1)] obtain es where "trace v = trace w @ es" by blast
  then show ?thesis using run_event[OF b(3,2)] by (auto simp: compiled_def)
qed

lemma missing_files_pure: "missing_files d ns w = (r, v) \<Longrightarrow> v = w"
proof -
  have "snd (fold_prog (\<lambda>name acc. bnd (is_file (path_join d name))
      (\<lambda>present. ret (if present then acc else acc @ [name]))) ns acc w) = w" for acc :: "string list"
    by (induction ns arbitrary: acc) (simp_all add: run_simps)
  then have "snd (missing_files d ns w) = w" by (simp add: missing_files_def)
  then show "missing_files d ns w = (r, v) \<Longrightarrow> v = w" by simp
qed

lemma build_service_parts:
  assumes "build_service x h d remote w = (Inr u, w')"
  shows "\<exists>u1 v1. compile_service x h d (path_join (path_join d ''templates'') ''clusterview.html'') w
     = (Inr (u1 :: unit), v1) \<and> install_binary x h d remote v1 = (Inr u, w')"
  using assms unfolding build_service_def Let_def
  by (auto simp: run_inv run_host_ops split: if_splits dest!: missing_files_pure)

lemma build_service_installs:
  assumes "build_service x h d remote w = (Inr u, w')"
  shows "\<exists>es digest. trace w' = trace w @ es \<and> fst (source_hash d w') = Inr digest \<and> compiled h es
    \<and> done_as_root h (binary_install_command remote) es \<and> done_as_root h (record_hash_command remote digest) es"
proof -
  from build_service_parts[OF assms] obtain u1 v1 where
    1: "compile_service x h d (path_join (path_join d ''templates'') ''clusterview.html'') w = (Inr u1, v1)"
    and i: "install_binary x h d remote v1 = (Inr u, w')" by blast
  from i obtain u2 v2 r3 v3 r4 v4 digest v5 r5 where
    2: "sudo x h (''mkdir -p '' @ remote) True v1 = (Inr u2, v2)"
    and 3: "sudo x h (binary_install_command remote) True v2 = (Inr r3, v3)"
    and 4: "run x h (''rm -rf '' @ BUILD_DIR) False v3 = (Inr r4, v4)"
    and 5: "source_hash d v4 = (Inr digest, v5)"
    and 6: "sudo x h (record_hash_command remote digest) True v5 = (Inr r5, w')"
    unfolding install_binary_def run_inv by blast
  have v5: "v5 = v4" using run_source_hash[OF 5] by blast
  note 6 = 6[unfolded v5]
  obtain es1 where e1: "trace v1 = trace w @ es1" "compiled h es1" using compile_done[OF 1] by blast
  obtain es2 where e2: "trace v2 = trace v1 @ es2" using sudo_done[OF 2] by blast
  obtain es3 where e3: "trace v3 = trace v2 @ es3" "done_as_root h (binary_install_command remote) es3"
    using sudo_done[OF 3] by blast
  obtain e4 where e4: "trace v4 = trace v3 @ [e4]" using run_False_trace[OF 4] by blast
  obtain es6 where e6: "trace w' = trace v4 @ es6" "done_as_root h (record_hash_command remote digest) es6"
    using sudo_done[OF 6] by blast
  have "fst (source_hash d w') = Inr digest"
    using source_hash_cong[of w' v4 d] keeps_all[OF keep_host_ops(4) 6] 5 by simp
  moreover have "trace w' = trace w @ (es1 @ es2 @ es3 @ [e4]) @ es6" using e1 e2 e3 e4 e6 by simp
  moreover have "compiled h ((es1 @ es2 @ es3 @ [e4]) @ es6)" using e1(2) by (auto simp: compiled_def)
  moreover have "done_as_root h (binary_install_command remote) ((es1 @ es2 @ es3 @ [e4]) @ es6)"
    "done_as_root h (record_hash_command remote digest) ((es1 @ es2 @ es3 @ [e4]) @ es6)"
    unfolding done_as_root_append using e3(2) e6(2) by blast+
  ultimately show ?thesis by blast
qed

lemma throws_hash_install [throws_intros]: "throws install_exn (source_hash d)"
proof -
  have "throws (\<lambda>e. is_VmDeployError e \<or> is_OSError e) (source_hash d)"
    by (rule throwsI) (drule run_source_hash, simp)
  then show ?thesis by (rule throws_mono) (auto simp: install_exn_def fetch_exn_def)
qed

lemma throws_missing [throws_intros]: "throws install_exn (missing_files d ns)"
proof -
  have "throws install_exn (fold_prog (\<lambda>name acc. bnd (is_file (path_join d name))
      (\<lambda>present. ret (if present then acc else acc @ [name]))) ns acc)" for acc :: "string list"
    by (induction ns arbitrary: acc) (auto intro!: throws_intros)
  then show ?thesis by (simp add: missing_files_def)
qed

lemma throws_build_service [throws_intros]: "throws install_exn (build_service x h d remote)"
  unfolding build_service_def compile_service_def install_binary_def upload_source_def Let_def
  by (intro throws_intros) simp_all

lemma throws_ensure_binary [throws_intros]: "throws install_exn (ensure_service_binary x h config d)"
  unfolding ensure_service_binary_def installed_source_hash_def Let_def by (intro throws_intros)

text \<open>The guest said that the binary is absent or not executable.\<close>

definition binary_absent :: "remote_host \<Rightarrow> string \<Rightarrow> event list \<Rightarrow> bool" where
  "binary_absent h remote es \<longleftrightarrow> (\<exists>c stdin status out err. status \<noteq> 0
     \<and> EvExec (address h) (ssh_user (host_ssh h)) c stdin (Some (ExecDone status out err)) \<in> set es
     \<and> (let cmd = ''test -x '' @ remote @ ''/'' @ SERVICE_NAME in c = ''sudo -n '' @ cmd \<or> c = escalated cmd))"

lemma ensure_parts:
  assumes "ensure_service_binary x h config d w = (Inr rebuilt, w')"
  defines "remote \<equiv> remote_dir (cfg_inventory config)"
  shows "\<exists>wanted res1 v1 res2 v2. source_hash d w = (Inr wanted, w)
    \<and> sudo x h (''cat '' @ remote @ ''/'' @ SOURCE_HASH_FILE @ '' 2>/dev/null'') False w = (Inr res1, v1)
    \<and> sudo x h (''test -x '' @ remote @ ''/'' @ SERVICE_NAME) False v1 = (Inr res2, v2)
    \<and> (if ok res2 \<and> strip (stdout res1) = wanted then \<not> rebuilt \<and> w' = v2
       else rebuilt \<and> (\<exists>ver v3 u. install_go x h (cfg_build config) v2 = (Inr ver, v3)
              \<and> build_service x h d remote v3 = (Inr (u :: unit), w')))"
proof -
  from assms(1) obtain wanted v0 installed v1 res2 v2 where
    0: "source_hash d w = (Inr wanted, v0)"
    and 1: "installed_source_hash x h remote v0 = (Inr installed, v1)"
    and 2: "sudo x h (''test -x '' @ remote @ ''/'' @ SERVICE_NAME) False v1 = (Inr res2, v2)"
    and 3: "(if ok res2 \<and> installed = wanted then ret False
       else andthen (install_go x h (cfg_build config)) (andthen (build_service x h d remote) (ret True))) v2
       = (Inr rebuilt, w')"
    unfolding ensure_service_binary_def Let_def remote_def run_inv by blast
  have v0: "v0 = w" using run_source_hash[OF 0] by blast
  from 1[unfolded v0] obtain res1 where
    "sudo x h (''cat '' @ remote @ ''/'' @ SOURCE_HASH_FILE @ '' 2>/dev/null'') False w = (Inr res1, v1)"
    "installed = strip (stdout res1)"
    unfolding installed_source_hash_def run_inv by blast
  then show ?thesis using 0[unfolded v0] 2 3 by (cases "ok res2 \<and> installed = wanted") (auto simp: run_inv)
qed

lemma ensure_binary_result:
  assumes run: "ensure_service_binary x h config d w = (Inr rebuilt, w')"
  defines "remote \<equiv> remote_dir (cfg_inventory config)"
  shows "\<exists>es wanted installed. trace w' = trace w @ es \<and> fst (source_hash d w) = Inr wanted
    \<and> hash_read h remote installed es
    \<and> (if rebuilt then (if installed = wanted then binary_absent h remote es else True)
         \<and> (\<exists>digest. fst (source_hash d w') = Inr digest \<and> compiled h es
            \<and> done_as_root h (binary_install_command remote) es
            \<and> done_as_root h (record_hash_command remote digest) es)
       else installed = wanted \<and> done_as_root h (''test -x '' @ remote @ ''/'' @ SERVICE_NAME) es
         \<and> files w' = files w)"
proof -
  let ?cat = "''cat '' @ remote @ ''/'' @ SOURCE_HASH_FILE @ '' 2>/dev/null''"
  let ?test = "''test -x '' @ remote @ ''/'' @ SERVICE_NAME"
  from ensure_parts[OF run] obtain wanted res1 v1 res2 v2 where
    0: "source_hash d w = (Inr wanted, w)" and 1: "sudo x h ?cat False w = (Inr res1, v1)"
    and 2: "sudo x h ?test False v1 = (Inr res2, v2)"
    and 3: "if ok res2 \<and> strip (stdout res1) = wanted then \<not> rebuilt \<and> w' = v2
     else rebuilt \<and> (\<exists>ver v3 u. install_go x h (cfg_build config) v2 = (Inr ver, v3)
            \<and> build_service x h d remote v3 = (Inr (u :: unit), w'))"
    unfolding remote_def by blast
  from sudo_result_event[OF 1] obtain es1 where e1: "trace v1 = trace w @ es1"
    "hash_read h remote (strip (stdout res1)) es1" by (fastforce simp: hash_read_def Let_def)
  from sudo_result_event[OF 2] obtain es2 where e2: "trace v2 = trace v1 @ es2"
    "\<not> ok res2 \<Longrightarrow> binary_absent h remote es2" by (fastforce simp: binary_absent_def ok_def Let_def)
  have read: "hash_read h remote (strip (stdout res1)) (es1 @ es)" for es
    using e1(2) unfolding hash_read_def set_append Un_iff by blast
  show ?thesis
  proof (cases "ok res2 \<and> strip (stdout res1) = wanted")
    case True
    obtain es2' where "trace v2 = trace v1 @ es2'" "done_as_root h ?test es2'"
      using sudo_ok_done[OF 2] True by blast
    moreover have "files v2 = files w" using keeps_all[OF keep_host_ops(4) 1] keeps_all[OF keep_host_ops(4) 2] by simp
    ultimately show ?thesis using 0 3 True e1(1) read
      by (intro exI[of _ "es1 @ es2'"] exI[of _ wanted]) auto
  next
    case False
    with 3 obtain ver v3 u where i: "install_go x h (cfg_build config) v2 = (Inr ver, v3)"
      and b: "build_service x h d remote v3 = (Inr (u :: unit), w')" and "rebuilt" by auto
    obtain es3 where e3: "trace v3 = trace v2 @ es3"
      using emits_trace[OF emit_host.ev_install_go i] by blast
    from build_service_installs[OF b] obtain es4 digest where e4: "trace w' = trace v3 @ es4"
      "fst (source_hash d w') = Inr digest" "compiled h es4"
      "done_as_root h (binary_install_command remote) es4" "done_as_root h (record_hash_command remote digest) es4"
      by blast
    have "trace w' = trace w @ es1 @ es2 @ es3 @ es4" using e1 e2 e3 e4 by simp
    moreover have "strip (stdout res1) \<noteq> wanted \<or> binary_absent h remote (es1 @ es2 @ es3 @ es4)"
      using False e2(2) unfolding binary_absent_def set_append Un_iff by blast
    moreover have "compiled h (es1 @ es2 @ es3 @ es4)" using e4(3) by (auto simp: compiled_def)
    moreover have "done_as_root h (binary_install_command remote) (es1 @ es2 @ es3 @ es4)"
      "done_as_root h (record_hash_command remote digest) (es1 @ es2 @ es3 @ es4)"
      unfolding done_as_root_append using e4(4,5) by blast+
    ultimately show ?thesis using 0 read e4(2) \<open>rebuilt\<close>
      by (intro exI[of _ "es1 @ es2 @ es3 @ es4"] exI[of _ wanted] exI[of _ "strip (stdout res1)"]) simp
  qed
qed

text \<open>
  C26: the service binary is current. It is reused only when the guest reported it executable and
  reported exactly the fingerprint of the local sources, and then no local file changed. It is
  rebuilt only when one of the two was not so, and then the sources were compiled with status zero,
  the binary was installed as root, and the fingerprint recorded beside it is that of the local
  sources, so that asking again finds it current.
\<close>

theorem ensure_service_binary_current:
  "case ensure_service_binary x h config d w of (r, w') \<Rightarrow>
     let remote = remote_dir (cfg_inventory config) in
     gives (\<lambda>rebuilt. \<exists>es wanted installed. trace w' = trace w @ es \<and> fst (source_hash d w) = Inr wanted
        \<and> hash_read h remote installed es
        \<and> (if rebuilt then (if installed = wanted then binary_absent h remote es else True)
             \<and> (\<exists>digest. fst (source_hash d w') = Inr digest \<and> compiled h es
                \<and> done_as_root h (binary_install_command remote) es
                \<and> done_as_root h (record_hash_command remote digest) es)
           else installed = wanted \<and> done_as_root h (''test -x '' @ remote @ ''/'' @ SERVICE_NAME) es
             \<and> files w' = files w)) r
     \<and> fails_as install_exn r"
proof -
  obtain r w' where run: "ensure_service_binary x h config d w = (r, w')"
    by (cases "ensure_service_binary x h config d w")
  have "fails_as install_exn r" using throws_ensure_binary run unfolding throws_def by (metis fst_conv)
  then show ?thesis
    unfolding run prod.case Let_def gives_def
    by (intro conjI allI impI ensure_binary_result[where x = x]) (simp_all add: run)
qed

subsection \<open>The deployed service\<close>

text \<open>Among the events, the payload was staged whole and installed as \<open>dest\<close> with its mode.\<close>

definition delivered :: "remote_host \<Rightarrow> bytes \<Rightarrow> string \<Rightarrow> nat \<Rightarrow> event list \<Rightarrow> bool" where
  "delivered h payload dest mode es \<longleftrightarrow> (\<exists>staging.
     EvSftpWrite (address h) staging payload (Some None) \<in> set es
     \<and> done_as_root h (''install -D -m '' @ show_octal mode @ '' '' @ staging @ '' '' @ dest) es)"

lemma delivered_append:
  "delivered h p d m xs \<Longrightarrow> delivered h p d m (xs @ ys)" "delivered h p d m ys \<Longrightarrow> delivered h p d m (xs @ ys)"
  unfolding delivered_def done_as_root_append set_append Un_iff by blast+

lemma put_bytes_delivered:
  "put_bytes x h p dest m w = (Inr u, w') \<Longrightarrow> \<exists>es. trace w' = trace w @ es \<and> delivered h p dest m es"
proof (drule put_bytes_trace, unfold Let_def, elim exE conjE)
  fix es es' c stdin out err out'
  let ?staging = "''/tmp/vmdeploy-'' @ hex_of (map (entropy w) [drawn w..<drawn w + 8])"
  let ?installing = "''install -D -m '' @ show_octal m @ '' '' @ ?staging @ '' '' @ dest"
  let ?ev = "EvExec (address h) (ssh_user (host_ssh h))"
  let ?es = "es @ [EvSftpWrite (address h) ?staging p (Some None)] @ es'
      @ [?ev c stdin (Some (ExecDone 0 out err)), ?ev (''rm -f '' @ ?staging) None out']"
  assume t: "trace w' = trace w @ ?es" and c: "c = ''sudo -n '' @ ?installing \<or> c = escalated ?installing"
  have "done_as_root h ?installing ?es" using c
    unfolding done_as_root_def by (intro exI[of _ c] exI[of _ stdin] exI[of _ out] exI[of _ err]) simp
  moreover have "EvSftpWrite (address h) ?staging p (Some None) \<in> set ?es" by simp
  ultimately have "delivered h p dest m ?es" unfolding delivered_def by blast
  with t show ?thesis by blast
qed

definition all_done :: "remote_host \<Rightarrow> string list \<Rightarrow> event list \<Rightarrow> bool" where
  "all_done h cmds es \<longleftrightarrow> list_all (\<lambda>cmd. done_as_root h cmd es) cmds"

lemma all_done_append:
  "all_done h cmds xs \<Longrightarrow> all_done h cmds (xs @ ys)" "all_done h cmds ys \<Longrightarrow> all_done h cmds (xs @ ys)"
  by (auto simp: all_done_def list_all_iff)

lemma for_each_all_done:
  "for_each cmds (\<lambda>cmd. andthen (sudo x h cmd True) (ret ())) w = (Inr u, w') \<Longrightarrow>
   \<exists>es. trace w' = trace w @ es \<and> all_done h cmds es"
  unfolding all_done_def by (rule for_each_sudo_done)

text \<open>The last event: the service reported itself active.\<close>

definition service_active :: "remote_host \<Rightarrow> event list \<Rightarrow> bool" where
  "service_active h es \<longleftrightarrow> (\<exists>before status out err. es = before @ [EvExec (address h) (ssh_user (host_ssh h))
     (''systemctl is-active '' @ SERVICE_NAME @ ''.service'') None (Some (ExecDone status out err))]
     \<and> strip out = ''active'')"

lemma check_service_active:
  "check_service x h w = (Inr u, w') \<Longrightarrow> \<exists>es. trace w' = trace w @ es \<and> service_active h es"
  by (auto simp: check_service_def run_inv service_active_def run_run_for Let_def
      split: if_splits prod.splits option.splits exec_outcome.splits)

definition start_commands :: "string list" where
  "start_commands = [''systemctl daemon-reload'', ''systemctl enable '' @ SERVICE_NAME @ ''.service'',
     ''systemctl restart '' @ SERVICE_NAME @ ''.service'']"

lemma install_key_delivers:
  assumes "install_key x h key dest w = (Inr u, w')"
  shows "\<exists>es. trace w' = trace w @ es \<and> delivered h (encode_key key) dest 416 es
    \<and> all_done h [''chgrp vmdeploy-inventory '' @ dest, ''chmod 0640 '' @ dest] es"
proof -
  from assms obtain a v where 1: "put_bytes x h (encode_key key) dest 416 w = (Inr a, v)"
    and 2: "for_each [''chgrp vmdeploy-inventory '' @ dest, ''chmod 0640 '' @ dest]
        (\<lambda>cmd. andthen (sudo x h cmd True) (ret ())) v = (Inr u, w')"
    unfolding install_key_def run_inv by blast
  obtain xs where xs: "trace v = trace w @ xs" "delivered h (encode_key key) dest 416 xs"
    using put_bytes_delivered[OF 1] by blast
  obtain ys where "trace w' = trace v @ ys"
    "all_done h [''chgrp vmdeploy-inventory '' @ dest, ''chmod 0640 '' @ dest] ys"
    using for_each_all_done[OF 2] by blast
  then show ?thesis using xs
    by (intro exI[of _ "xs @ ys"]) (simp add: delivered_append(1) all_done_append(2))
qed

lemma keep_install_key: "evolves (keeps_files (\<lambda>_. True)) (install_key x h key dest)"
  and keep_check_service: "evolves (keeps_files (\<lambda>_. True)) (check_service x h)"
  unfolding install_key_def check_service_def by (intro evolve_intros)+

lemma throws_key: "throws install_exn (load_or_create_key p)"
proof (rule throwsI)
  fix w e w'
  assume "load_or_create_key p w = (Inl e, w')"
  with load_or_create_key_run[of p w] have "is_InventoryError e" by simp
  then show "install_exn e" by (simp add: install_exn_def fetch_exn_def subclass_VmDeployError)
qed

lemma throws_deploy_service: "throws install_exn (deploy_service x h config d)"
  unfolding deploy_service_def install_key_def check_service_def Let_def
  by (intro throws_intros throws_key) simp_all

lemma load_key_Inr:
  "load_key p v = (Inr key, v') \<Longrightarrow> \<exists>b s. files v p = Some b \<and> \<not> denied v Opening p \<and> ascii_decode b = Some s
     \<and> b64decode (ascii_encode (strip s)) = Some key \<and> length key = KEY_BYTES \<and> v' = v"
  by (auto simp: load_key_def run_inv catch_Inr read_ascii_def read_bytes_def
      split: option.splits if_splits exn.splits) (case_tac e; simp)+

lemma load_key_cong:
  assumes "load_key p v = (Inr key, v')" and "files w p = files v p" "denied w Opening p = denied v Opening p"
  shows "load_key p w = (Inr key, w)"
  using load_key_Inr[OF assms(1)] assms(2,3)
  by (auto simp: run_simps load_key_def read_ascii_def read_bytes_def)

lemma key_on_disk:
  assumes "load_or_create_key p w = (Inr key, v)"
  shows "load_key p v = (Inr key, v) \<and> files v p \<noteq> None \<and> length key = 32"
proof -
  have again: "load_or_create_key p v = (Inr key, v)" and "length key = 32"
    using load_or_create_key_run[of p w] assms by simp_all
  moreover have "files v p \<noteq> None"
  proof
    assume n: "files v p = None"
    then have "drawn v = drawn v + 32" using load_or_create_key_run[of p v] again by simp
    then show False by simp
  qed
  ultimately show ?thesis by (auto simp: load_or_create_key_def run_simps)
qed

lemma load_key_again:
  assumes "load_or_create_key p w = (Inr key, v)" and "files w' = files v" "denied w' = denied v"
  shows "load_or_create_key p w' = (Inr key, w')"
  using key_on_disk[OF assms(1)] load_key_cong[of p v key v w'] assms(2,3)
  by (auto simp: load_or_create_key_def run_simps)

lemma silent_key: "evolves (emits (\<lambda>_. False)) (load_or_create_key p)"
  unfolding load_or_create_key_def generate_key_def write_key_file_def load_key_def
  by (intro evolve_intros) (auto intro!: evolve_intros split: exn.splits if_splits)

lemma deploy_parts:
  assumes "deploy_service x h config d w = (Inr u, w')"
  shows "\<exists>es key. trace w' = trace w @ es \<and> load_or_create_key (key_file (cfg_inventory config)) w' = (Inr key, w')
     \<and> delivered h (encode_key key) (remote_dir (cfg_inventory config) @ ''/'' @ path_name (key_file (cfg_inventory config))) 416 es
     \<and> delivered h (utf8_encode (render_unit config)) SERVICE_UNIT 420 es
     \<and> all_done h start_commands es \<and> service_active h es"
proof -
  let ?dest = "remote_dir (cfg_inventory config) @ ''/'' @ path_name (key_file (cfg_inventory config))"
  from assms(1) obtain u1 v1 u2 v2 key v3 u4 v4 u5 v5 u6 v6 where
    1: "for_each (group_commands (remote_dir (cfg_inventory config))) (\<lambda>cmd. andthen (sudo x h cmd True) (ret ())) w = (Inr u1, v1)"
    and 2: "ensure_service_binary x h config d v1 = (Inr u2, v2)"
    and 3: "load_or_create_key (key_file (cfg_inventory config)) v2 = (Inr key, v3)"
    and 4: "install_key x h key ?dest v3 = (Inr u4, v4)"
    and 5: "put_bytes x h (utf8_encode (render_unit config)) SERVICE_UNIT 420 v4 = (Inr u5, v5)"
    and 6: "for_each start_commands (\<lambda>cmd. andthen (sudo x h cmd True) (ret ())) v5 = (Inr u6, v6)"
    and 7: "check_service x h v6 = (Inr u, w')"
    unfolding deploy_service_def Let_def run_inv start_commands_def
    by blast
  have keep6: "evolves (keeps_files (\<lambda>_. True))
      (for_each start_commands (\<lambda>cmd. andthen (sudo x h cmd True) (ret ())))" by (intro evolve_intros)
  have files: "files w' = files v3 \<and> denied w' = denied v3"
    using keeps_all[OF keep_install_key 4] keeps_all[OF keep_host_ops(6) 5] keeps_all[OF keep6 6]
      keeps_all[OF keep_check_service 7] by simp
  have t3: "trace v3 = trace v2" using emits_trace[OF silent_key 3] by (auto simp: list_all_iff)
  obtain es1 where e1: "trace v1 = trace w @ es1" using for_each_all_done[OF 1] by blast
  obtain es2 where e2: "trace v2 = trace v1 @ es2"
    using emits_trace[OF emit_host.ev_ensure_binary 2] by blast
  obtain es4 where e4: "trace v4 = trace v3 @ es4" "delivered h (encode_key key) ?dest 416 es4"
    using install_key_delivers[OF 4] by blast
  obtain es5 where e5: "trace v5 = trace v4 @ es5" "delivered h (utf8_encode (render_unit config)) SERVICE_UNIT 420 es5"
    using put_bytes_delivered[OF 5] by blast
  obtain es6 where e6: "trace v6 = trace v5 @ es6" "all_done h start_commands es6"
    using for_each_all_done[OF 6] by blast
  obtain es7 where e7: "trace w' = trace v6 @ es7" "service_active h es7" using check_service_active[OF 7] by blast
  let ?es = "es1 @ es2 @ es4 @ es5 @ es6 @ es7"
  have "trace w' = trace w @ ?es" using e1 e2 t3 e4 e5 e6 e7 by simp
  moreover have "delivered h (encode_key key) ?dest 416 ?es"
    "delivered h (utf8_encode (render_unit config)) SERVICE_UNIT 420 ?es" "all_done h start_commands ?es"
    using e4(2) e5(2) e6(2) by (blast intro: delivered_append all_done_append)+
  moreover have "service_active h ?es" using e7(2) unfolding service_active_def by (metis append.assoc)
  ultimately show ?thesis
    using load_key_again[OF 3, of w'] files by blast
qed

text \<open>
  C21: deploying the service. When it returns: the key on disk, the same one that a later call reads,
  was delivered under mode 0640 and the unit file was delivered; after the daemon reload the unit was
  enabled and restarted as root with status zero; and the last thing seen was the service reporting
  itself active. Failures are those of the toolchain's installation.
\<close>

theorem deploy_service_ready:
  "case deploy_service x h config d w of (r, w') \<Rightarrow>
     let invc = cfg_inventory config in
     gives (\<lambda>_. \<exists>es key. trace w' = trace w @ es \<and> load_or_create_key (key_file invc) w' = (Inr key, w')
        \<and> delivered h (encode_key key) (remote_dir invc @ ''/'' @ path_name (key_file invc)) 416 es
        \<and> delivered h (utf8_encode (render_unit config)) SERVICE_UNIT 420 es
        \<and> all_done h start_commands es \<and> service_active h es) r
     \<and> fails_as install_exn r"
proof -
  obtain r w' where run: "deploy_service x h config d w = (r, w')" by (cases "deploy_service x h config d w")
  have "fails_as install_exn r" using throws_deploy_service run unfolding throws_def by (metis fst_conv)
  then show ?thesis
    unfolding run prod.case Let_def gives_def
    by (intro conjI allI impI deploy_parts[where x = x and d = d]) (simp_all add: run)
qed

text \<open>
  A guest with passwordless sudo and no binary yet, reached without a configured password: every
  command succeeds as root, but the two probes of \<open>ensure_service_binary\<close> end, as they must, with a
  non-zero status. \<open>sudo_for\<close> takes that for a refused escalation and asks for the password, so the
  call fails instead of compiling.
\<close>

definition bare_guest :: "unit env" where
  "bare_guest = quiet_env\<lparr>x_exec := \<lambda>_ _ cmd _ _ e.
     (Some (if startswith cmd ''sudo -n cat '' \<or> startswith cmd ''sudo -n test '' then ExecDone 1 [] []
            else ExecDone 0 [] []), 0, e)\<rparr>"

lemma ensure_binary_needs_password:
  "\<exists>msg. fst (ensure_service_binary bare_guest quiet_host sample_config d
       (quiet_world\<lparr>clients := \<lambda>_. True, files := \<lambda>_. Some []\<rparr>)) = Inl (SSHConnectionError msg)"
proof -
  let ?w = "quiet_world\<lparr>clients := \<lambda>_. True, files := \<lambda>_. Some []\<rparr>"
  have "\<exists>digest. source_hash d ?w = (Inr digest, ?w)"
    by (simp add: source_hash_def HASH_FILES_def SOURCE_FILES_def absorb_source_def run_simps read_bytes_def
        quiet_world_def)
  then show ?thesis
    by (auto simp: ensure_service_binary_def installed_source_hash_def sudo_for_def run_run_for run_simps
        sudo_password_def bare_guest_def quiet_env_def quiet_world_def quiet_host_def startswith_def Let_def ok_def)
qed

end
