(* ===== verification/Registry.thy ===== *)
theory Registry
  imports GoBinary
begin

text \<open>
  \<^verbatim>\<open>src/vmdeploy/inventory_service.py\<close>, second half: the records of the cluster, the datastore on the
  jump station, the durable manifest on the automation host, and the look-ups.

  The abstract registry is a map from host names to records. The list the code keeps refines it:
  looking a host up in the list is looking it up in the map, \<open>upsert\<close> is map update, and the
  manifest file is an encoding of the list.
\<close>

section \<open>Definitions\<close>

text \<open>The record of one host of the cluster.\<close>

definition deployed_record ::
  "string dict \<Rightarrow> string dict \<Rightarrow> string \<Rightarrow> host_config \<Rightarrow> inventory_record" where
  "deployed_record addresses ipv6_map timestamp host =
     (let address = (case dget addresses (hostname host) of Some a \<Rightarrow> a | None \<Rightarrow> []) in
      \<lparr>inv_hostname = hostname host, inv_role = role_value (role host), inv_ipv4 = address,
       inv_ipv6 = (case dget ipv6_map (hostname host) of Some a \<Rightarrow> a | None \<Rightarrow> []),
       inv_status = (if address \<noteq> [] then ''Deployed'' else ''Unreachable''),
       status_timestamp = timestamp,
       inv_state = (if address \<noteq> [] then ''Active'' else ''Inactive''),
       state_timestamp = timestamp\<rparr>)"

definition build_records ::
  "'e env \<Rightarrow> cluster_config \<Rightarrow> string dict \<Rightarrow> string dict option \<Rightarrow> ('e, inventory_record list) prog" where
  "build_records x config addresses ipv6_addresses =
     bnd (utc_timestamp x) (\<lambda>timestamp.
     let ipv6_map = (case ipv6_addresses of None \<Rightarrow> [] | Some d \<Rightarrow> d) in
     ret (foldl (\<lambda>records host. upsert records (deployed_record addresses ipv6_map timestamp host))
       [] (all_hosts config)))"

definition write_local_manifest ::
  "'e env \<Rightarrow> cluster_config \<Rightarrow> inventory_record list \<Rightarrow> ('e, unit) prog" where
  "write_local_manifest x config records =
     bnd (load_or_create_key (key_file (cfg_inventory config))) (\<lambda>key.
     bnd (encrypt_records x records key) (\<lambda>blob.
     let p = manifest_file (cfg_inventory config) in
     catch (andthen (mkdir (path_parent p)) (write_bytes p blob))
       (\<lambda>e. if is_OSError e
            then Some (raise (InventoryError (''Cannot write local manifest to '' @ path_str p
              @ '': '' @ exn_str e)))
            else None)))"

definition read_local_manifest :: "'e env \<Rightarrow> cluster_config \<Rightarrow> ('e, inventory_record list) prog" where
  "read_local_manifest x config =
     (let p = manifest_file (cfg_inventory config) in
     bnd (is_file p) (\<lambda>present.
     if \<not> present then ret []
     else bnd (load_key (key_file (cfg_inventory config))) (\<lambda>key.
       bnd (catch (read_bytes p)
              (\<lambda>e. if is_OSError e
                   then Some (raise (InventoryError (''Cannot read local manifest at '' @ path_str p
                     @ '': '' @ exn_str e)))
                   else None)) (\<lambda>blob.
       of_sum (decrypt_records x blob key)))))"

definition seed_inventory ::
  "'e env \<Rightarrow> remote_host \<Rightarrow> cluster_config \<Rightarrow> inventory_record list \<Rightarrow> ('e, unit) prog" where
  "seed_inventory x h config records =
     (let inventory = cfg_inventory config;
          remote_store = remote_dir inventory @ ''/'' @ datastore_name inventory in
     bnd (load_or_create_key (key_file inventory)) (\<lambda>key.
     bnd (encrypt_records x records key) (\<lambda>blob.
     andthen (put_bytes x h blob remote_store 432)
     (andthen
       (catch (andthen (sudo x h (''chgrp vmdeploy-inventory '' @ remote_store) True)
          (andthen (sudo x h (''chmod 0660 '' @ remote_store) True)
          (andthen (sudo x h (''systemctl restart '' @ SERVICE_NAME @ ''.service'') False) (ret ()))))
          (\<lambda>e. if is_RemoteCommandError e
               then Some (raise (VmDeployError (''Could not set ownership on '' @ remote_store @ '': ''
                 @ exn_str e)))
               else None))
     (write_local_manifest x config records)))))"

text \<open>The two kinds of record that \<open>mark_manifest_removed\<close> writes.\<close>

definition removed_record :: "string \<Rightarrow> inventory_record \<Rightarrow> inventory_record" where
  "removed_record timestamp r = r\<lparr>inv_status := ''Removed'', status_timestamp := timestamp,
     inv_state := ''Inactive'', state_timestamp := timestamp\<rparr>"

definition absent_record :: "string \<Rightarrow> host_config \<Rightarrow> inventory_record" where
  "absent_record timestamp host =
     \<lparr>inv_hostname = hostname host, inv_role = role_value (role host), inv_ipv4 = [], inv_ipv6 = [],
      inv_status = ''Removed'', status_timestamp = timestamp, inv_state = ''Inactive'',
      state_timestamp = timestamp\<rparr>"

definition removed_records ::
  "cluster_config \<Rightarrow> string \<Rightarrow> inventory_record list \<Rightarrow> inventory_record list" where
  "removed_records config timestamp records =
     (let seen = set (map inv_hostname records);
          updated = foldl (\<lambda>acc r. upsert acc (removed_record timestamp r)) [] records
      in foldl (\<lambda>acc host. if hostname host \<in> seen then acc else upsert acc (absent_record timestamp host))
           updated (all_hosts config))"

definition mark_manifest_removed :: "'e env \<Rightarrow> cluster_config \<Rightarrow> ('e, inventory_record list) prog" where
  "mark_manifest_removed x config =
     bnd (utc_timestamp x) (\<lambda>timestamp.
     bnd (read_local_manifest x config) (\<lambda>records.
     let updated = removed_records config timestamp records in
     andthen (write_local_manifest x config updated) (ret updated)))"

definition ipv6_command :: string where
  "ipv6_command = ''ip -6 addr show scope global | awk '' @ [c_sq] @ ''/inet6/ {print $2}'' @ [c_sq]
     @ '' | cut -d/ -f1 | head -n 1''"

definition read_ipv6 :: "'e env \<Rightarrow> remote_host \<Rightarrow> string \<Rightarrow> string dict \<Rightarrow> ('e, string dict) prog" where
  "read_ipv6 x guest host_name found =
     bnd (run x guest ipv6_command False) (\<lambda>result.
     ret (if strip (stdout result) \<noteq> [] then dset found host_name (strip (stdout result)) else found))"

definition enrich_with_ipv6 :: "'e env \<Rightarrow> cluster_config \<Rightarrow> string dict \<Rightarrow> ('e, string dict) prog" where
  "enrich_with_ipv6 x config addresses =
     fold_prog (\<lambda>host found.
       case dget addresses (hostname host) of
         None \<Rightarrow> ret found
       | Some addr \<Rightarrow>
           if addr = [] then ret found
           else catch (with_host x addr (cfg_ssh config) (\<lambda>guest. read_ipv6 x guest (hostname host) found))
             (\<lambda>e. if is_VmDeployError e then Some (ret found) else None))
       (all_hosts config) []"

definition resolve_host :: "cluster_config \<Rightarrow> string \<Rightarrow> exn + host_config" where
  "resolve_host config name = (case find (\<lambda>host. hostname host = name) (all_hosts config) of
       Some host \<Rightarrow> Inr host
     | None \<Rightarrow> Inl (VmDeployError ([c_sq] @ name @ [c_sq] @ '' is not a configured cluster host'')))"

section \<open>The registry as a map\<close>

text \<open>The abstraction: the record that looking a host name up finds.\<close>

definition registry_map :: "inventory_record list \<Rightarrow> string \<Rightarrow> inventory_record option" where
  "registry_map rs k = find (\<lambda>r. inv_hostname r = k) rs"

lemma registry_map_upsert: "registry_map (upsert rs r) = (registry_map rs)(inv_hostname r \<mapsto> r)"
  by (rule ext) (simp add: registry_map_def hosts.find_ins)

lemma registry_map_Nil [simp]: "registry_map [] = Map.empty"
  by (rule ext) (simp add: registry_map_def)

lemma registry_map_names: "dom (registry_map rs) = set (map inv_hostname rs)"
proof -
  have "registry_map rs k = None \<longleftrightarrow> k \<notin> set (map inv_hostname rs)" for k
    by (auto simp: registry_map_def find_None_iff)
  then show ?thesis by (simp add: dom_def set_eq_iff)
qed

text \<open>Registering the images of a list, one after the other.\<close>

lemma foldl_upsert_map:
  "foldl (\<lambda>acc a. upsert acc (f a)) rs xs = foldl upsert rs (map f xs)"
  by (induction xs arbitrary: rs) auto

lemma foldl_upsert_filter:
  "foldl (\<lambda>acc a. if P a then acc else upsert acc (f a)) rs xs
     = foldl upsert rs (map f (filter (\<lambda>a. \<not> P a) xs))"
  by (induction xs arbitrary: rs) auto

lemma registry_map_register:
  "registry_map (foldl upsert rs new) = registry_map rs ++ map_of (rev (map (\<lambda>r. (inv_hostname r, r)) new))"
proof (induction new rule: rev_induct)
  case Nil
  then show ?case by simp
next
  case (snoc r new)
  have "registry_map (foldl upsert rs (new @ [r])) = (registry_map (foldl upsert rs new))(inv_hostname r \<mapsto> r)"
    by (simp add: registry_map_upsert)
  also have "\<dots> = registry_map rs ++ map_of (rev (map (\<lambda>r. (inv_hostname r, r)) (new @ [r])))"
    by (simp add: snoc.IH)
  finally show ?case .
qed

lemma map_of_find: "map_of (map (\<lambda>a. (k a, f a)) xs) n = map_option f (find (\<lambda>a. k a = n) xs)"
  by (induction xs) auto

lemma map_of_rev_find:
  "map_of (rev (map (\<lambda>a. (k a, f a)) xs)) n = map_option f (find (\<lambda>a. k a = n) (rev xs))"
  unfolding rev_map by (rule map_of_find)

lemma run_utc: "\<exists>t. utc_timestamp x w = (Inr t, w)"
  by (cases "x_utc x (clock w)") (simp add: utc_timestamp_def run_simps)

lemma distinct_registered: "distinct (map inv_hostname (foldl upsert [] new))"
  by (rule hosts.distinct_register) simp

lemma registered_in_order:
  "distinct (map inv_hostname new) \<Longrightarrow> foldl upsert [] new = new"
proof (induction new rule: rev_induct)
  case Nil
  then show ?case by simp
next
  case (snoc r new)
  have app: "upsert rs r = rs @ [r]" if "inv_hostname r \<notin> set (map inv_hostname rs)" for rs
    using that by (induction rs) auto
  show ?case using snoc by (simp add: app)
qed

lemma build_records_result:
  "build_records x config addresses ipv6 w = (Inr rs, w') \<Longrightarrow> w' = w
   \<and> (\<exists>t. utc_timestamp x w = (Inr t, w) \<and> rs = foldl upsert []
        (map (deployed_record addresses (case ipv6 of None \<Rightarrow> [] | Some d \<Rightarrow> d) t) (all_hosts config)))"
proof -
  obtain t where t: "utc_timestamp x w = (Inr t, w)" using run_utc by blast
  assume "build_records x config addresses ipv6 w = (Inr rs, w')"
  then have "rs = foldl (\<lambda>acc host. upsert acc
       (deployed_record addresses (case ipv6 of None \<Rightarrow> [] | Some d \<Rightarrow> d) t host)) [] (all_hosts config)" "w' = w"
    by (simp_all add: build_records_def run_simps t Let_def)
  moreover have "foldl (\<lambda>acc host. upsert acc (f host)) [] hs = foldl upsert [] (map f hs)" for f :: "host_config \<Rightarrow> _" and hs
    by (rule foldl_upsert_map)
  ultimately show ?thesis using t by simp
qed

text \<open>
  Host names are the keys of the registry, but only machine names are checked to be distinct: two
  backends of one name pass the checks, and the registry holds one record for the two of them.
\<close>

definition twin_config :: cluster_config where
  "twin_config = sample_config\<lparr>cfg_backends := map (hostname_update (\<lambda>_. ''web'')) (cfg_backends sample_config)\<rparr>"

lemma twins_share_a_record:
  "validate_cross_references twin_config = Inr ()
   \<and> (case build_records x twin_config addresses ipv6 w of (r, _) \<Rightarrow>
        gives (\<lambda>rs. map inv_hostname rs = [''jump'', ''web'']) r)"
proof
  have "distinct_machines twin_config"
    by (simp add: distinct_machines_def twin_config_def sample_config_def all_hosts_def)
  then show "validate_cross_references twin_config = Inr ()" by (rule validate_complete)
  have [simp]: "inv_hostname (deployed_record a i t host) = hostname host" for a i t host
    by (simp add: deployed_record_def Let_def)
  have "map inv_hostname rs = [''jump'', ''web'']"
    if "build_records x twin_config addresses ipv6 w = (Inr rs, w')" for rs w'
    using build_records_result[OF that] by (auto simp: twin_config_def sample_config_def all_hosts_def)
  then show "case build_records x twin_config addresses ipv6 w of (r, _) \<Rightarrow>
      gives (\<lambda>rs. map inv_hostname rs = [''jump'', ''web'']) r"
    by (cases "build_records x twin_config addresses ipv6 w") (auto simp: gives_def)
qed

lemma removed_records_alt:
  "removed_records config t rs = foldl upsert [] (map (removed_record t) rs
     @ map (absent_record t) (filter (\<lambda>host. hostname host \<notin> set (map inv_hostname rs)) (all_hosts config)))"
  by (simp add: removed_records_def foldl_upsert_filter foldl_upsert_map[where f = "removed_record t", symmetric])

lemma find_append: "find P (xs @ ys) = (case find P xs of Some a \<Rightarrow> Some a | None \<Rightarrow> find P ys)"
  by (induction xs) auto

lemma find_map: "find P (map f xs) = map_option f (find (\<lambda>a. P (f a)) xs)"
  by (induction xs) auto

lemma find_filter: "find P (filter Q xs) = find (\<lambda>a. Q a \<and> P a) xs"
  by (induction xs) auto

lemma names_of_records [simp]:
  "inv_hostname (deployed_record a i t host) = hostname host"
  "inv_hostname (removed_record t r) = inv_hostname r" "inv_hostname (absent_record t host) = hostname host"
  by (simp_all add: deployed_record_def removed_record_def absent_record_def Let_def)

lemma find_unseen: "find (\<lambda>a. k a \<notin> S \<and> k a = n) xs = (if n \<in> S then None else find (\<lambda>a. k a = n) xs)"
  by (induction xs) auto

lemma registry_map_removed:
  "registry_map (removed_records config t rs) = (\<lambda>k.
     case find (\<lambda>r. inv_hostname r = k) (rev rs) of
       Some old \<Rightarrow> Some (removed_record t old)
     | None \<Rightarrow> map_option (absent_record t) (find (\<lambda>host. hostname host = k) (rev (all_hosts config))))"
proof (rule ext)
  fix k
  let ?unseen = "\<lambda>host. hostname host \<notin> set (map inv_hostname rs)"
  have "registry_map (removed_records config t rs) k =
     (case map_option (absent_record t) (find (\<lambda>host. ?unseen host \<and> hostname host = k) (rev (all_hosts config))) of
        Some r \<Rightarrow> Some r
      | None \<Rightarrow> map_option (removed_record t) (find (\<lambda>r. inv_hostname r = k) (rev rs)))"
    by (simp add: registry_map_def removed_records_alt hosts.find_register rev_map rev_filter find_append find_map
        find_filter split: option.splits)
  moreover have "find (\<lambda>host. ?unseen host \<and> hostname host = k) (rev (all_hosts config))
      = (if k \<in> set (map inv_hostname rs) then None else find (\<lambda>host. hostname host = k) (rev (all_hosts config)))"
    by (rule find_unseen)
  moreover have "find (\<lambda>r. inv_hostname r = k) (rev rs) = None \<longleftrightarrow> k \<notin> set (map inv_hostname rs)"
    by (auto simp: find_None_iff)
  ultimately show "registry_map (removed_records config t rs) k =
     (case find (\<lambda>r. inv_hostname r = k) (rev rs) of
        Some old \<Rightarrow> Some (removed_record t old)
      | None \<Rightarrow> map_option (absent_record t) (find (\<lambda>host. hostname host = k) (rev (all_hosts config))))"
    by (cases "k \<in> set (map inv_hostname rs)") (simp_all only: if_True if_False option.map option.case, auto split: option.split)
qed

text \<open>
  C11: the list of records refines a map from host names to records. \<open>upsert\<close> is map update. A
  freshly built registry maps each configured host to its record, the last one when a name is
  configured twice, and nothing else. Marking the registry removed maps every host that had a record to
  the marked record and every other configured host to a new one, and nothing else. Both lists
  hold each name once.
\<close>

theorem registry_refines_map:
  "registry_map (upsert rs r) = (registry_map rs)(inv_hostname r \<mapsto> r)
   \<and> gives (\<lambda>built. distinct (map inv_hostname built) \<and> (\<exists>t. registry_map built = (\<lambda>k.
        map_option (deployed_record addresses (case ipv6 of None \<Rightarrow> [] | Some d \<Rightarrow> d) t)
          (find (\<lambda>host. hostname host = k) (rev (all_hosts config))))))
       (fst (build_records x config addresses ipv6 w))
   \<and> distinct (map inv_hostname (removed_records config t rs))
   \<and> registry_map (removed_records config t rs) = (\<lambda>k.
       case find (\<lambda>r. inv_hostname r = k) (rev rs) of
         Some old \<Rightarrow> Some (removed_record t old)
       | None \<Rightarrow> map_option (absent_record t) (find (\<lambda>host. hostname host = k) (rev (all_hosts config))))"
proof (intro conjI)
  show "registry_map (upsert rs r) = (registry_map rs)(inv_hostname r \<mapsto> r)" by (rule registry_map_upsert)
next
  show "gives (\<lambda>built. distinct (map inv_hostname built) \<and> (\<exists>t. registry_map built = (\<lambda>k.
        map_option (deployed_record addresses (case ipv6 of None \<Rightarrow> [] | Some d \<Rightarrow> d) t)
          (find (\<lambda>host. hostname host = k) (rev (all_hosts config))))))
       (fst (build_records x config addresses ipv6 w))"
    unfolding gives_def
  proof (intro allI impI)
    fix built
    assume "fst (build_records x config addresses ipv6 w) = Inr built"
    then obtain w' where "build_records x config addresses ipv6 w = (Inr built, w')"
      by (metis prod.collapse)
    from build_records_result[OF this] obtain t where
      "built = foldl upsert [] (map (deployed_record addresses (case ipv6 of None \<Rightarrow> [] | Some d \<Rightarrow> d) t)
         (all_hosts config))" by blast
    then show "distinct (map inv_hostname built) \<and> (\<exists>t. registry_map built = (\<lambda>k.
        map_option (deployed_record addresses (case ipv6 of None \<Rightarrow> [] | Some d \<Rightarrow> d) t)
          (find (\<lambda>host. hostname host = k) (rev (all_hosts config)))))"
      by (auto simp: distinct_registered registry_map_register map_of_rev_find comp_def
          simp del: distinct_map intro!: exI[of _ t] ext)
  qed
next
  show "distinct (map inv_hostname (removed_records config t rs))"
    unfolding removed_records_alt by (rule distinct_registered)
next
  show "registry_map (removed_records config t rs) = (\<lambda>k.
       case find (\<lambda>r. inv_hostname r = k) (rev rs) of
         Some old \<Rightarrow> Some (removed_record t old)
       | None \<Rightarrow> map_option (absent_record t) (find (\<lambda>host. hostname host = k) (rev (all_hosts config))))"
    by (rule registry_map_removed)
qed

section \<open>The manifest\<close>

lemma write_manifest_result:
  assumes "write_local_manifest x config rs w = (Inr u, w')"
  defines "kf \<equiv> key_file (cfg_inventory config)" and "mf \<equiv> manifest_file (cfg_inventory config)"
  shows "\<exists>key v blob v'. load_or_create_key kf w = (Inr key, v) \<and> encrypt_records x rs key v = (Inr blob, v')
     \<and> files v' = files v \<and> denied v' = denied v \<and> \<not> denied v Opening mf \<and> w' = v'\<lparr>files := (files v')(mf \<mapsto> blob)\<rparr>"
proof -
  from assms(1) obtain key v blob v' u' where
    1: "load_or_create_key kf w = (Inr key, v)" and 2: "encrypt_records x rs key v = (Inr blob, v')"
    and 3: "andthen (mkdir (path_parent mf)) (write_bytes mf blob) v' = (Inr u', w')"
    by (auto simp: write_local_manifest_def run_inv catch_Inr Let_def kf_def mf_def split: if_splits)
  have "files v' = files v" "denied v' = denied v"
    using 2 by (auto simp: encrypt_records_def run_simps Let_def split: if_splits)
  with 1 2 3 show ?thesis by (auto simp: run_inv mkdir_def write_bytes_def split: if_splits)
qed

lemma manifest_written:
  assumes "aead x" and "key_file (cfg_inventory config) \<noteq> manifest_file (cfg_inventory config)"
    and "write_local_manifest x config rs w = (Inr u, w')"
  shows "read_local_manifest x config w' = (Inr rs, w')"
proof -
  let ?kf = "key_file (cfg_inventory config)" and ?mf = "manifest_file (cfg_inventory config)"
  from write_manifest_result[OF assms(3)] obtain key v blob v' where
    1: "load_or_create_key ?kf w = (Inr key, v)" and 2: "encrypt_records x rs key v = (Inr blob, v')"
    and v': "files v' = files v" "denied v' = denied v" "\<not> denied v Opening ?mf"
    and w': "w' = v'\<lparr>files := (files v')(?mf \<mapsto> blob)\<rparr>" by blast
  note key = key_on_disk[OF 1]
  have "load_key ?kf w' = (Inr key, w')"
    by (rule load_key_cong[of _ v key v]) (use key w' v' assms(2) in auto)
  moreover have "decrypt_records x blob key = Inr rs"
    using encrypt_decrypt[OF assms(1), of key rs v] key 2 by auto
  ultimately show ?thesis using w' v'
    by (simp add: read_local_manifest_def run_simps read_bytes_def Let_def)
qed

text \<open>
  C29: the manifest survives. Whatever the records, once they were written the manifest reads back as
  exactly those records in the same order, with the key then on disk, provided the cipher keeps its
  laws and the key and the manifest are different files.
\<close>

theorem manifest_roundtrip:
  assumes "aead x" and "key_file (cfg_inventory config) \<noteq> manifest_file (cfg_inventory config)"
    and "write_local_manifest x config rs w = (Inr u, w')"
  shows "read_local_manifest x config w' = (Inr rs, w')"
  using assms by (rule manifest_written)

theorem manifest_roundtrip_witness:
  "\<exists>w'. write_local_manifest quiet_env sample_config [quiet_record] quiet_world = (Inr (), w')
     \<and> read_local_manifest quiet_env sample_config w' = (Inr [quiet_record], w')"
proof -
  let ?kf = "key_file (cfg_inventory sample_config)" and ?mf = "manifest_file (cfg_inventory sample_config)"
  have ne: "?kf \<noteq> ?mf" "?kf \<noteq> quiet_key"
    by (simp_all add: sample_config_def path_of_def quiet_key_def startswith_def)
  let ?k = "replicate 32 (0 :: byte)"
  obtain v where k: "load_or_create_key ?kf quiet_world = (Inr ?k, v)" and d: "denied v = (\<lambda>_ _. False)" "room v = (\<lambda>_. None)"
    using ne(2) by (simp add: load_or_create_key_def run_simps generate_key_def run_write_key_file
        quiet_world_def KEY_BYTES_def map_replicate_const)
  obtain blob where b: "encrypt_records quiet_env [quiet_record] ?k v = (Inr blob, v\<lparr>drawn := drawn v + 12\<rparr>)"
    using encrypt_decrypt[OF quiet_aead, of ?k "[quiet_record]" v] by auto
  have "\<exists>w'. write_local_manifest quiet_env sample_config [quiet_record] quiet_world = (Inr (), w')"
    using d by (simp add: write_local_manifest_def run_simps k b Let_def mkdir_def write_bytes_def)
  then show ?thesis using manifest_roundtrip[OF quiet_aead ne(1)] by blast
qed

lemma read_manifest_pure:
  "read_local_manifest x config w = (r, w') \<Longrightarrow> w' = w \<and> fails_as is_InventoryError r"
proof -
  assume run: "read_local_manifest x config w = (r, w')"
  obtain q v where k: "load_key (key_file (cfg_inventory config)) w = (q, v)"
    by (cases "load_key (key_file (cfg_inventory config)) w")
  note load_key_result[OF k]
  moreover have "fails_as is_InventoryError (decrypt_records x b key)" for b key
    using parse_plaintext_fails
    by (auto simp: decrypt_records_def Let_def key_length_error_def split: option.splits)
  ultimately show ?thesis using run k
    by (auto simp: read_local_manifest_def run_simps read_bytes_def no_such_file_def permission_denied_def Let_def
        split: sum.splits option.splits if_splits)
qed

lemma set_foldl_upsert: "set (foldl upsert rs new) \<subseteq> set rs \<union> set new"
proof (induction new arbitrary: rs)
  case Nil
  then show ?case by simp
next
  case (Cons r new)
  have "set (upsert rs r) \<subseteq> insert r (set rs)" by (induction rs) auto
  then show ?case using Cons.IH[of "upsert rs r"] by auto
qed

lemma removed_status:
  "list_all (\<lambda>r. inv_status r = ''Removed'' \<and> inv_state r = ''Inactive'') (removed_records config t rs)"
  using set_foldl_upsert[of "[]"]
  unfolding list_all_iff removed_records_alt
  by (fastforce simp: removed_record_def absent_record_def)

lemma names_foldl_upsert:
  "inv_hostname ` set (foldl upsert rs new) = inv_hostname ` set rs \<union> inv_hostname ` set new"
proof (induction new arbitrary: rs)
  case Nil
  then show ?case by simp
next
  case (Cons r new)
  have "inv_hostname ` set (upsert rs r) = insert (inv_hostname r) (inv_hostname ` set rs)"
    by (induction rs) auto
  then show ?case using Cons.IH[of "upsert rs r"] by auto
qed

lemma removed_names:
  "set (map inv_hostname (removed_records config t rs)) = set (map hostname (all_hosts config)) \<union> set (map inv_hostname rs)"
  unfolding removed_records_alt by (auto simp: names_foldl_upsert image_image)

lemma throws_write_manifest: "throws is_InventoryError (write_local_manifest x config rs)"
proof (rule throwsI)
  fix w e w'
  assume run: "write_local_manifest x config rs w = (Inl e, w')"
  let ?kf = "key_file (cfg_inventory config)" and ?mf = "manifest_file (cfg_inventory config)"
  obtain q v where k: "load_or_create_key ?kf w = (q, v)" by (cases "load_or_create_key ?kf w")
  show "is_InventoryError e"
  proof (cases q)
    case (Inl e')
    then show ?thesis using load_or_create_key_run[of ?kf w] run k
      by (simp add: write_local_manifest_def run_simps)
  next
    case (Inr key)
    then have "length key = 32" using key_on_disk k by blast
    then show ?thesis using run k Inr
      by (auto simp: write_local_manifest_def run_simps encrypt_records_def Let_def KEY_BYTES_def mkdir_def
          write_bytes_def permission_denied_def split: if_splits)
  qed
qed

lemma keep_write_manifest:
  "evolves (keeps_files (\<lambda>q. \<not> (q = key_file (cfg_inventory config) \<or> q = manifest_file (cfg_inventory config))))
     (write_local_manifest x config rs)"
proof -
  have "evolves (keeps_files (\<lambda>q. \<not> (q = key_file (cfg_inventory config) \<or> q = manifest_file (cfg_inventory config))))
      (load_or_create_key (key_file (cfg_inventory config)))"
    by (rule keep_host.ev_key[where W = "\<lambda>q. q = key_file (cfg_inventory config) \<or> q = manifest_file (cfg_inventory config)"]) simp
  then show ?thesis
    unfolding write_local_manifest_def encrypt_records_def Let_def
    by (intro evolve_intros keep_write) (auto intro!: evolve_intros keep_write split: if_splits)
qed

text \<open>
  C28: marking the cluster removed. When it returns, the manifest reads back as the records returned,
  which are the marked records of what the manifest held before (nothing, if there was none): every
  host of the configuration and every host recorded before is there, and all of them are removed and
  inactive. Only the key and the manifest can change; when the manifest cannot be read or decrypted
  nothing changes at all. Every failure is an \<open>InventoryError\<close>.
\<close>

theorem mark_manifest_removed_spec:
  assumes "aead x" and "key_file (cfg_inventory config) \<noteq> manifest_file (cfg_inventory config)"
  shows "case mark_manifest_removed x config w of (r, w') \<Rightarrow>
     gives (\<lambda>updated. \<exists>old t. read_local_manifest x config w = (Inr old, w)
        \<and> updated = removed_records config t old \<and> read_local_manifest x config w' = (Inr updated, w')
        \<and> list_all (\<lambda>r. inv_status r = ''Removed'' \<and> inv_state r = ''Inactive'') updated
        \<and> set (map inv_hostname updated) = set (map hostname (all_hosts config)) \<union> set (map inv_hostname old)) r
     \<and> (\<forall>q. q = key_file (cfg_inventory config) \<or> q = manifest_file (cfg_inventory config) \<or> files w' q = files w q)
     \<and> (if \<exists>e. fst (read_local_manifest x config w) = Inl e then w' = w else True)
     \<and> fails_as is_InventoryError r"
proof -
  obtain t where t: "utc_timestamp x w = (Inr t, w)" using run_utc by blast
  obtain q v where "read_local_manifest x config w = (q, v)" by (cases "read_local_manifest x config w")
  with read_manifest_pure[OF this] have q: "read_local_manifest x config w = (q, w)" "fails_as is_InventoryError q"
    by simp_all
  show ?thesis
  proof (cases q)
    case (Inl e)
    then show ?thesis using q by (simp add: mark_manifest_removed_def run_simps t)
  next
    case (Inr old)
    let ?new = "removed_records config t old"
    obtain s w' where s: "write_local_manifest x config ?new w = (s, w')"
      by (cases "write_local_manifest x config ?new w")
    have run: "mark_manifest_removed x config w = (map_sum id (\<lambda>_. ?new) s, w')"
      using q Inr s by (simp add: mark_manifest_removed_def run_simps t Let_def split: sum.splits)
    have "fails_as is_InventoryError s" using throws_write_manifest s unfolding throws_def by (metis fst_conv)
    moreover have "keeps_files (\<lambda>q. \<not> (q = key_file (cfg_inventory config) \<or> q = manifest_file (cfg_inventory config))) w w'"
      by (rule evolvesD[OF keep_write_manifest s])
    moreover have "read_local_manifest x config w' = (Inr ?new, w')" if "s = Inr u" for u
      using manifest_written[OF assms s[unfolded that]] .
    ultimately show ?thesis using q Inr removed_status removed_names
      by (cases s) (auto simp: run keeps_files_def simp del: set_map)
  qed
qed

lemma quiet_files:
  "key_file (cfg_inventory sample_config) \<noteq> manifest_file (cfg_inventory sample_config)"
  "files quiet_world (key_file (cfg_inventory sample_config)) = None"
  "files quiet_world (manifest_file (cfg_inventory sample_config)) = None"
  by (simp_all add: sample_config_def path_of_def quiet_key_def startswith_def quiet_world_def)

lemma quiet_write_manifest:
  "\<exists>w'. write_local_manifest quiet_env sample_config rs quiet_world = (Inr (), w')"
proof -
  let ?k = "replicate 32 (0 :: byte)"
  obtain v where k: "load_or_create_key (key_file (cfg_inventory sample_config)) quiet_world = (Inr ?k, v)"
    and d: "denied v = (\<lambda>_ _. False)" "room v = (\<lambda>_. None)"
    using quiet_files(2) by (simp add: load_or_create_key_def run_simps generate_key_def run_write_key_file
        quiet_world_def KEY_BYTES_def map_replicate_const)
  obtain blob where b: "encrypt_records quiet_env rs ?k v = (Inr blob, v\<lparr>drawn := drawn v + 12\<rparr>)"
    using encrypt_decrypt[OF quiet_aead, of ?k rs v] by auto
  show ?thesis using d by (simp add: write_local_manifest_def run_simps k b Let_def mkdir_def write_bytes_def)
qed

theorem mark_manifest_removed_spec_witness:
  "\<exists>updated w'. mark_manifest_removed quiet_env sample_config quiet_world = (Inr updated, w')
     \<and> read_local_manifest quiet_env sample_config w' = (Inr updated, w')
     \<and> set (map inv_hostname updated) = {''jump'', ''web1'', ''web2''}"
proof -
  obtain t where t: "utc_timestamp quiet_env quiet_world = (Inr t, quiet_world)" using run_utc by blast
  have r: "read_local_manifest quiet_env sample_config quiet_world = (Inr [], quiet_world)"
    by (simp add: read_local_manifest_def run_simps quiet_files Let_def)
  let ?new = "removed_records sample_config t []"
  obtain w' where "write_local_manifest quiet_env sample_config ?new quiet_world = (Inr (), w')"
    using quiet_write_manifest by blast
  then have "mark_manifest_removed quiet_env sample_config quiet_world = (Inr ?new, w')"
    by (simp add: mark_manifest_removed_def run_simps t r Let_def)
  then show ?thesis
    using mark_manifest_removed_spec[OF quiet_aead quiet_files(1), of quiet_world] r
    by (auto simp: all_hosts_def sample_config_def)
qed

section \<open>The datastore\<close>

lemma throws_seed: "throws apache_exn (seed_inventory x h config rs)"
proof -
  have e: "apache_exn e" if "is_InventoryError e" for e using that by (simp add: apache_exn_def subclass_VmDeployError)
  have k: "throws apache_exn (bnd (load_or_create_key p) (\<lambda>key. bnd (encrypt_records x rs key) m))"
    if "\<And>b. throws apache_exn (m b)" for p and m :: "bytes \<Rightarrow> ('a, unit) prog"
  proof (rule throwsI)
    fix w e' w'
    assume run: "bnd (load_or_create_key p) (\<lambda>key. bnd (encrypt_records x rs key) m) w = (Inl e', w')"
    obtain q v where k: "load_or_create_key p w = (q, v)" by (cases "load_or_create_key p w")
    show "apache_exn e'"
    proof (cases q)
      case (Inl f)
      then show ?thesis using load_or_create_key_run[of p w] run k e by (simp add: run_simps)
    next
      case (Inr key)
      then have "length key = 32" using key_on_disk k by blast
      then show ?thesis using run k Inr that throwsD
        by (fastforce simp: run_simps encrypt_records_def Let_def KEY_BYTES_def)
    qed
  qed
  show ?thesis
    unfolding seed_inventory_def Let_def
    by (intro k throws_intros throws_catch[where Q = apache_exn] throws_mono[OF throws_write_manifest e])
      (auto simp: apache_exn_def intro!: throws_intros split: if_splits)
qed

lemma encrypt_trace: "encrypt_records x rs key w = (Inr b, v) \<Longrightarrow> trace v = trace w \<and> files v = files w \<and> denied v = denied w"
  by (auto simp: encrypt_records_def run_simps Let_def split: if_splits)

lemma silent_manifest: "evolves (emits (\<lambda>_. False)) (write_local_manifest x config rs)"
  unfolding write_local_manifest_def encrypt_records_def Let_def
  by (intro evolve_intros silent_key) (auto intro!: evolve_intros split: if_splits)

lemma silentD: "evolves (emits (\<lambda>_. False)) m \<Longrightarrow> m w = (r, w') \<Longrightarrow> trace w' = trace w"
  by (drule emits_trace, assumption) (auto simp: list_all_iff)

lemma seed_inventory_result:
  assumes "aead x" and "key_file (cfg_inventory config) \<noteq> manifest_file (cfg_inventory config)"
  shows "case seed_inventory x h config rs w of (r, w') \<Rightarrow>
     gives (\<lambda>_. \<exists>es key blob. trace w' = trace w @ es
        \<and> delivered h blob (remote_dir (cfg_inventory config) @ ''/'' @ datastore_name (cfg_inventory config)) 432 es
        \<and> decrypt_records x blob key = Inr rs
        \<and> load_or_create_key (key_file (cfg_inventory config)) w' = (Inr key, w')
        \<and> read_local_manifest x config w' = (Inr rs, w')) r
     \<and> fails_as apache_exn r"
proof -
  let ?kf = "key_file (cfg_inventory config)" and ?mf = "manifest_file (cfg_inventory config)"
  let ?store = "remote_dir (cfg_inventory config) @ ''/'' @ datastore_name (cfg_inventory config)"
  obtain r w' where run: "seed_inventory x h config rs w = (r, w')" by (cases "seed_inventory x h config rs w")
  have "\<exists>es key blob. trace w' = trace w @ es \<and> delivered h blob ?store 432 es
        \<and> decrypt_records x blob key = Inr rs \<and> load_or_create_key ?kf w' = (Inr key, w')
        \<and> read_local_manifest x config w' = (Inr rs, w')" if r: "r = Inr u" for u
  proof -
    let ?own = "catch (andthen (sudo x h (''chgrp vmdeploy-inventory '' @ ?store) True)
          (andthen (sudo x h (''chmod 0660 '' @ ?store) True)
          (andthen (sudo x h (''systemctl restart '' @ SERVICE_NAME @ ''.service'') False) (ret ()))))
          (\<lambda>e. if is_RemoteCommandError e
               then Some (raise (VmDeployError (''Could not set ownership on '' @ ?store @ '': '' @ exn_str e)))
               else None)"
    from run[unfolded r] obtain key v1 blob v2 u3 v3 u4 v4 where
      1: "load_or_create_key ?kf w = (Inr key, v1)" and 2: "encrypt_records x rs key v1 = (Inr blob, v2)"
      and 3: "put_bytes x h blob ?store 432 v2 = (Inr u3, v3)" and 4: "?own v3 = (Inr u4, v4)"
      and 5: "write_local_manifest x config rs v4 = (Inr u, w')"
      unfolding seed_inventory_def Let_def run_inv by blast
    have own: "evolves (keeps_files (\<lambda>_. True)) ?own" "evolves (emits (\<lambda>_. True)) ?own"
      by (intro evolve_intros emits_any_session; auto intro: evolve_intros split: if_splits)+
    obtain es where es: "trace v3 = trace v2 @ es" "delivered h blob ?store 432 es"
      using put_bytes_delivered[OF 3] by blast
    obtain fs where fs: "trace v4 = trace v3 @ fs" using emits_trace[OF own(2) 4] by blast
    have "trace v1 = trace w" "trace w' = trace v4"
      using silentD[OF silent_key 1] silentD[OF silent_manifest 5] by simp_all
    with es fs have "trace w' = trace w @ es @ fs" "delivered h blob ?store 432 (es @ fs)"
      using encrypt_trace[OF 2] by (simp_all add: delivered_append)
    moreover have "decrypt_records x blob key = Inr rs"
      using encrypt_decrypt[OF assms(1), of key rs v1] key_on_disk[OF 1] 2 by auto
    moreover have "load_or_create_key ?kf w' = (Inr key, w')"
    proof -
      have "files v4 = files v1 \<and> denied v4 = denied v1"
        using encrypt_trace[OF 2] keeps_all[OF keep_host_ops(6) 3] keeps_all[OF own(1) 4] by simp
      then have again: "load_or_create_key ?kf v4 = (Inr key, v4)" by (intro load_key_again[OF 1]) simp_all
      with write_manifest_result[OF 5] assms(2) have "files w' ?kf = files v4 ?kf" "denied w' = denied v4" by auto
      with key_on_disk[OF again] load_key_cong[of ?kf v4 key v4 w']
      show ?thesis by (auto simp: load_or_create_key_def run_simps)
    qed
    ultimately show ?thesis using manifest_written[OF assms 5] by blast
  qed
  moreover have "fails_as apache_exn r" using throws_seed run unfolding throws_def by (metis fst_conv)
  ultimately show ?thesis unfolding run prod.case gives_def by blast
qed

text \<open>
  C10: seeding the registry leaves its two copies equal, for a cipher that keeps its laws and a key file
  that is not the manifest. When it returns, the datastore was delivered
  to the jump station under mode 0660, and both what was delivered, decrypted under the key on disk,
  and the local manifest are exactly the records given. It fails only with program errors and
  interrupts.
\<close>

theorem seed_inventory_consistent:
  assumes "aead x" and "key_file (cfg_inventory config) \<noteq> manifest_file (cfg_inventory config)"
  shows "case seed_inventory x h config rs w of (r, w') \<Rightarrow>
     gives (\<lambda>_. \<exists>es key blob. trace w' = trace w @ es
        \<and> delivered h blob (remote_dir (cfg_inventory config) @ ''/'' @ datastore_name (cfg_inventory config)) 432 es
        \<and> decrypt_records x blob key = Inr rs
        \<and> load_or_create_key (key_file (cfg_inventory config)) w' = (Inr key, w')
        \<and> read_local_manifest x config w' = (Inr rs, w')) r
     \<and> fails_as apache_exn r"
  using assms by (rule seed_inventory_result)

section \<open>IPv6 addresses\<close>

lemma fold_prog_inv:
  assumes "\<And>b a v a' v'. b \<in> set bs \<Longrightarrow> I a \<Longrightarrow> f b a v = (Inr a', v') \<Longrightarrow> I a'"
    and "I a" and "fold_prog f bs a w = (Inr r, w')"
  shows "I r"
  using assms
proof (induction bs arbitrary: a w)
  case Nil
  then show ?case by (simp add: run_inv)
next
  case (Cons b bs)
  from Cons.prems(3) obtain a' v where f: "f b a w = (Inr a', v)" and rest: "fold_prog f bs a' v = (Inr r, w')"
    by (auto simp: run_inv)
  have "I a'" using Cons.prems(1)[OF _ Cons.prems(2) f] by simp
  show ?case
  proof (rule Cons.IH[OF _ \<open>I a'\<close> rest])
    show "I a''" if "c \<in> set bs" "I a0" "f c a0 v0 = (Inr a'', v1)" for c a0 v0 a'' v1
      using Cons.prems(1)[OF _ that(2,3)] that(1) by simp
  qed
qed

lemma throws_fold_prog:
  "(\<And>b a. b \<in> set bs \<Longrightarrow> throws P (f b a)) \<Longrightarrow> throws P (fold_prog f bs a)"
  by (induction bs arbitrary: a) (auto intro: throws_ret throws_bnd)

lemma with_host_Inr: "with_host x a cfg body w = (Inr r, w') \<Longrightarrow> \<exists>h v v'. body h v = (Inr r, v')"
proof -
  assume "with_host x a cfg body w = (Inr r, w')"
  then obtain h v where "always (body h) (close h) v = (Inr r, w')" by (auto simp: with_host_def run_inv)
  then show ?thesis by (cases "body h v") (auto simp: run_simps split: prod.splits sum.splits)
qed

lemma enrich_step_events:
  assumes "a \<in> set (map snd addresses)"
  shows "evolves (emits (\<lambda>ev. list_ex (\<lambda>a. at_address a ev) (map snd addresses)))
    (with_host x a cfg (\<lambda>guest. read_ipv6 x guest n found))"
proof (rule emit_with_host)
  show "list_ex (\<lambda>a. at_address a ev) (map snd addresses)" if "at_address a ev" for ev
    using assms that unfolding list_ex_iff by blast
  show "evolves (emits (\<lambda>ev. list_ex (\<lambda>a. at_address a ev) (map snd addresses))) (read_ipv6 x h n found)"
    if "address h = a" for h :: remote_host
    unfolding read_ipv6_def
    by (intro evolve_intros emit_session) (use assms that in \<open>auto simp only: list_ex_iff\<close>)
qed

lemma enrich_evolves:
  assumes R: "evolution R"
    and step: "\<And>a n found. a \<in> set (map snd addresses) \<Longrightarrow>
      evolves R (with_host x a (cfg_ssh config) (\<lambda>guest. read_ipv6 x guest n found))"
  shows "evolves R (enrich_with_ipv6 x config addresses)"
  unfolding enrich_with_ipv6_def
proof (rule evolution.ev_fold_prog[OF R])
  fix host found
  show "evolves R (case dget addresses (hostname host) of None \<Rightarrow> ret found
     | Some addr \<Rightarrow> if addr = [] then ret found
         else catch (with_host x addr (cfg_ssh config) (\<lambda>guest. read_ipv6 x guest (hostname host) found))
           (\<lambda>e. if is_VmDeployError e then Some (ret found) else None))"
  proof (intro evolves_option evolves_if evolution.ev_catch[OF R] evolution.ev_ret[OF R] step)
    fix addr
    assume "dget addresses (hostname host) = Some addr"
    then show "addr \<in> set (map snd addresses)" by (force dest: map_of_SomeD)
  qed (auto intro: evolution.ev_ret[OF R] split: if_splits)
qed

definition reachable_hosts :: "cluster_config \<Rightarrow> string dict \<Rightarrow> string list" where
  "reachable_hosts config addresses = map hostname (filter (\<lambda>host.
     case dget addresses (hostname host) of None \<Rightarrow> False | Some a \<Rightarrow> a \<noteq> []) (all_hosts config))"

lemma enrich_found:
  assumes "enrich_with_ipv6 x config addresses w = (Inr found, w')"
  shows "distinct (dkeys found) \<and> set (dkeys found) \<subseteq> set (reachable_hosts config addresses)
     \<and> list_all (\<lambda>a. a \<noteq> []) (map snd found)"
  using assms unfolding enrich_with_ipv6_def
proof (rule fold_prog_inv[rotated 2])
  fix host found v found' v'
  assume h: "host \<in> set (all_hosts config)"
    and I: "distinct (dkeys found) \<and> set (dkeys found) \<subseteq> set (reachable_hosts config addresses)
      \<and> list_all (\<lambda>a. a \<noteq> []) (map snd found)"
    and run: "(case dget addresses (hostname host) of None \<Rightarrow> ret found
     | Some addr \<Rightarrow> if addr = [] then ret found
         else catch (with_host x addr (cfg_ssh config) (\<lambda>guest. read_ipv6 x guest (hostname host) found))
           (\<lambda>e. if is_VmDeployError e then Some (ret found) else None)) v = (Inr found', v')"
  have "found' = found \<or> (\<exists>a. a \<noteq> [] \<and> found' = dset found (hostname host) a
      \<and> hostname host \<in> set (reachable_hosts config addresses))"
    using run h
    by (fastforce simp: run_inv catch_Inr read_ipv6_def reachable_hosts_def split: option.splits if_splits
        dest!: with_host_Inr)
  then show "distinct (dkeys found') \<and> set (dkeys found') \<subseteq> set (reachable_hosts config addresses)
      \<and> list_all (\<lambda>a. a \<noteq> []) (map snd found')"
  proof (elim disjE exE conjE)
    fix a
    assume a: "a \<noteq> []" "found' = dset found (hostname host) a" "hostname host \<in> set (reachable_hosts config addresses)"
    moreover have "set (map snd (dset found (hostname host) a)) \<subseteq> insert a (set (map snd found))"
      by (induction found) auto
    ultimately show ?thesis using I
      by (auto simp: dkeys_dset list_all_iff simp del: set_map dest: subsetD)
  qed (use I in simp)
qed simp

text \<open>
  Collecting IPv6 addresses never fails the run: nothing but an interrupt escapes, whatever the
  guests do. It speaks only to the addresses given, leaves no session open and changes no file. The
  result holds a host at most once, only hosts of the cluster with an address, and no empty address.
\<close>

theorem enrich_with_ipv6_harmless:
  "case enrich_with_ipv6 x config addresses w of (r, w') \<Rightarrow>
     gives (\<lambda>found. distinct (dkeys found) \<and> set (dkeys found) \<subseteq> set (reachable_hosts config addresses)
        \<and> list_all (\<lambda>a. a \<noteq> []) (map snd found)) r
     \<and> fails_as (\<lambda>e. e = KeyboardInterrupt) r
     \<and> emits (\<lambda>ev. list_ex (\<lambda>a. at_address a ev) (map snd addresses)) w w'
     \<and> no_leak w w' \<and> files w' = files w"
proof -
  obtain r w' where run: "enrich_with_ipv6 x config addresses w = (r, w')"
    by (cases "enrich_with_ipv6 x config addresses w")
  have "evolves (keeps_files (\<lambda>_. True)) (enrich_with_ipv6 x config addresses)"
    by (rule enrich_evolves) (auto simp: read_ipv6_def intro!: evolve_intros)
  then have "files w' = files w" using run by (simp add: keeps_all)
  moreover have "no_leak w w'"
    by (rule evolvesD[OF enrich_evolves run]) (auto simp: read_ipv6_def intro!: evolve_intros)
  moreover have "emits (\<lambda>ev. list_ex (\<lambda>a. at_address a ev) (map snd addresses)) w w'"
    by (rule evolvesD[OF enrich_evolves run], rule evolve_intros, rule enrich_step_events)
  moreover have "throws (\<lambda>e. e = KeyboardInterrupt) (enrich_with_ipv6 x config addresses)"
    unfolding enrich_with_ipv6_def
    by (rule throws_fold_prog, intro throws_intros throws_catch[where Q = ssh_exn] throws_with_host)
      (auto simp: read_ipv6_def ssh_exn_def subclass_VmDeployError intro!: throws_intros split: if_splits)
  then have "fails_as (\<lambda>e. e = KeyboardInterrupt) r" using run unfolding throws_def by (metis fst_conv)
  moreover have "distinct (dkeys found) \<and> set (dkeys found) \<subseteq> set (reachable_hosts config addresses)
      \<and> list_all (\<lambda>a. a \<noteq> []) (map snd found)" if "r = Inr found" for found
    using enrich_found[of x config addresses w found w'] run that by simp
  ultimately show ?thesis unfolding run prod.case gives_def by blast
qed

lemma quiet_sudo:
  "clients v (host_id h) \<Longrightarrow> sudo_for quiet_env h cmd c t v =
    (Inr \<lparr>command = ''sudo -n '' @ cmd, exit_status = 0, stdout = [], stderr = []\<rparr>,
     v\<lparr>trace := trace v @ [EvExec (address h) (ssh_user (host_ssh h)) (''sudo -n '' @ cmd) None (Some (ExecDone 0 [] []))]\<rparr>)"
  by (simp add: sudo_for_def run_run_for run_simps quiet_env_def Let_def ok_def)

lemma quiet_calls:
  "x_exec quiet_env a b c i t = (\<lambda>e. (Some (ExecDone 0 [] []), 0, e))"
  "x_sftp_open quiet_env a = (\<lambda>e. (Some None, 0, e))"
  "x_sftp_write quiet_env a q d = (\<lambda>e. (Some None, 0, e))"
  by (simp_all add: quiet_env_def)

lemma quiet_put_bytes:
  assumes "clients v (host_id h)"
  shows "\<exists>v'. put_bytes quiet_env h b p m v = (Inr (), v') \<and> clients v' = clients v \<and> files v' = files v
    \<and> denied v' = denied v \<and> entropy v' = entropy v \<and> room v' = room v"
  using assms
  by (auto simp: put_bytes_def sftp_def run_run_for run_simps client_def is_connected_def has_sftp_def set_sftp_def
      Let_def quiet_sudo quiet_calls)

lemma quiet_write_manifest_at:
  assumes "load_or_create_key (key_file (cfg_inventory sample_config)) u = (Inr (replicate 32 0), u)"
    and "denied u = (\<lambda>_ _. False)" and "room u = (\<lambda>_. None)"
  shows "\<exists>w'. write_local_manifest quiet_env sample_config rs u = (Inr (), w')"
proof -
  obtain blob where "encrypt_records quiet_env rs (replicate 32 0) u = (Inr blob, u\<lparr>drawn := drawn u + 12\<rparr>)"
    using encrypt_decrypt[OF quiet_aead, of "replicate 32 0" rs u] by auto
  then show ?thesis
    using assms by (simp add: write_local_manifest_def run_simps Let_def mkdir_def write_bytes_def)
qed

theorem seed_inventory_consistent_witness:
  "\<exists>w' blob. seed_inventory quiet_env quiet_host sample_config [quiet_record] (quiet_world\<lparr>clients := \<lambda>_. True\<rparr>) = (Inr (), w')
     \<and> delivered quiet_host blob ''/opt/inventory/inventory.enc'' 432 (trace w')
     \<and> read_local_manifest quiet_env sample_config w' = (Inr [quiet_record], w')"
proof -
  let ?w = "quiet_world\<lparr>clients := \<lambda>_. True\<rparr>" and ?kf = "key_file (cfg_inventory sample_config)"
  let ?k = "replicate 32 (0 :: byte)"
  obtain v where k: "load_or_create_key ?kf ?w = (Inr ?k, v)" and d: "denied v = (\<lambda>_ _. False)" "clients v = (\<lambda>_. True)" "room v = (\<lambda>_. None)"
    using quiet_files(2) by (simp add: load_or_create_key_def run_simps generate_key_def run_write_key_file
        quiet_world_def KEY_BYTES_def map_replicate_const)
  obtain blob where b: "encrypt_records quiet_env [quiet_record] ?k v = (Inr blob, v\<lparr>drawn := drawn v + 12\<rparr>)"
    using encrypt_decrypt[OF quiet_aead, of ?k "[quiet_record]" v] by auto
  let ?store = "remote_dir (cfg_inventory sample_config) @ ''/'' @ datastore_name (cfg_inventory sample_config)"
  obtain v' where p: "put_bytes quiet_env quiet_host blob ?store 432 (v\<lparr>drawn := drawn v + 12\<rparr>) = (Inr (), v')"
    and v': "clients v' = (\<lambda>_. True)" "files v' = files v" "denied v' = denied v" "room v' = room v"
    using quiet_put_bytes[of "v\<lparr>drawn := drawn v + 12\<rparr>" quiet_host blob ?store 432] d by auto
  have k': "load_or_create_key ?kf u = (Inr ?k, u)" if "files u = files v'" "denied u = denied v'" for u
    using load_key_again[OF k, of u] v' that by simp
  let ?own = "catch (andthen (sudo quiet_env quiet_host (''chgrp vmdeploy-inventory '' @ ?store) True)
        (andthen (sudo quiet_env quiet_host (''chmod 0660 '' @ ?store) True)
        (andthen (sudo quiet_env quiet_host (''systemctl restart '' @ SERVICE_NAME @ ''.service'') False) (ret ()))))
        (\<lambda>e. if is_RemoteCommandError e
             then Some (raise (VmDeployError (''Could not set ownership on '' @ ?store @ '': '' @ exn_str e)))
             else None)"
  obtain u where o: "?own v' = (Inr (), u)" "files u = files v'" "denied u = denied v'" "room u = room v'"
    using v'(1) by (simp add: run_simps quiet_sudo)
  obtain w' where m: "write_local_manifest quiet_env sample_config [quiet_record] u = (Inr (), w')"
    using quiet_write_manifest_at[OF k'[OF o(2,3)]] d v' o by auto
  have s: "seed_inventory quiet_env quiet_host sample_config [quiet_record] ?w = (Inr (), w')"
    by (simp only: seed_inventory_def Let_def run_simps(3,4) k b p o(1) m prod.case sum.case)
  have st: "?store = ''/opt/inventory/inventory.enc''" by (simp add: sample_config_def)
  show ?thesis
    using seed_inventory_consistent[OF quiet_aead quiet_files(1), where h = quiet_host and rs = "[quiet_record]" and w = ?w] s
    unfolding st by (auto simp: quiet_world_def)
qed

end
