(* ===== verification/Accounts.thy ===== *)
theory Accounts
  imports Registry
begin

text \<open>
  \<^verbatim>\<open>src/vmdeploy/setup.py\<close>, first part: the local key pair, and the accounts of a guest. Making a
  key pair is \<open>x_keypair\<close> of the environment, applied to fresh entropy; it gives the private key file
  and the public key line without its comment.
\<close>

definition DEFAULT_ADMIN_USER :: string where
  "DEFAULT_ADMIN_USER = ''vmadmin''"

definition setup_quote :: "string \<Rightarrow> string" where
  "setup_quote value = [c_sq] @ replace_char c_sq [c_sq, c_bs, c_sq, c_sq] value @ [c_sq]"

lemma setup_quote_shell [simp]: "setup_quote = shell_quote"
  by (rule ext) (simp add: setup_quote_def shell_quote_def)

definition public_half :: "path \<Rightarrow> path" where
  "public_half p = with_suffix p (path_suffix p @ ''.pub'')"

definition restrict_modes :: "path list \<Rightarrow> ('e, unit) prog" where
  "restrict_modes paths =
     for_each paths (\<lambda>p. catch (chmod p 384) (\<lambda>e. if is_OSError e then Some (ret ()) else None))"

text \<open>The generation of a new pair, and the restriction of the permissions of both files.\<close>

definition new_keypair :: "'e env \<Rightarrow> path \<Rightarrow> path \<Rightarrow> string \<Rightarrow> ('e, string) prog" where
  "new_keypair x private_path public_path comment =
     bnd (urandom 32) (\<lambda>seed.
     let private_bytes = fst (x_keypair x seed);
         public_line = snd (x_keypair x seed) @ '' '' @ comment
     in andthen
       (catch (andthen (mkdir (path_parent private_path))
          (andthen (write_bytes private_path private_bytes)
             (write_text_ascii public_path (public_line @ [c_nl]))))
          (\<lambda>e. if is_OSError e
               then Some (raise (VmDeployError (''Cannot write generated keypair to ''
                      @ path_str private_path @ '': '' @ exn_str e)))
               else None))
     (andthen (restrict_modes [private_path, public_path]) (ret public_line)))"

definition generate_ssh_keypair :: "'e env \<Rightarrow> path \<Rightarrow> string \<Rightarrow> ('e, string) prog" where
  "generate_ssh_keypair x private_path comment =
     (if path_name private_path = []
      then raise (ValueError (''PosixPath('' @ py_repr (path_str private_path) @ '') has an empty name''))
      else let public_path = public_half private_path in
        bnd (is_file private_path) (\<lambda>private_there.
        bnd (is_file public_path) (\<lambda>public_there.
        if private_there \<and> public_there
        then bnd (read_text_ascii public_path) (\<lambda>t. ret (strip t))
        else new_keypair x private_path public_path comment)))"

subsection \<open>Accounts of a guest\<close>

definition ssh_dir :: "string \<Rightarrow> string" where
  "ssh_dir username = ''/home/'' @ username @ ''/.ssh''"

definition authorized :: "string \<Rightarrow> string" where
  "authorized username = ssh_dir username @ ''/authorized_keys''"

definition sudoers :: "string \<Rightarrow> string" where
  "sudoers username = ''/etc/sudoers.d/90-'' @ username"

definition sudoers_rule :: "string \<Rightarrow> string" where
  "sudoers_rule username = username @ '' ALL=(ALL) NOPASSWD:ALL'' @ [c_nl]"

text \<open>The key file of an account: its directory, the key staged and installed, its owner and mode.\<close>

definition authorize_key :: "'e env \<Rightarrow> remote_host \<Rightarrow> string \<Rightarrow> string \<Rightarrow> ('e, unit) prog" where
  "authorize_key x h username key =
     andthen (sudo x h (''install -d -m 700 -o '' @ username @ '' -g '' @ username @ '' ''
        @ ssh_dir username) True)
     (bnd (encode_ascii (key @ [c_nl])) (\<lambda>payload.
      andthen (put_bytes x h payload (authorized username) 384)
     (for_each [''chown '' @ username @ '':'' @ username @ '' '' @ authorized username,
                ''chmod 600 '' @ authorized username]
        (\<lambda>cmd. andthen (sudo x h cmd True) (ret ())))))"

text \<open>The sudo rule, which is removed again when \<open>visudo\<close> refuses it.\<close>

definition grant_sudo ::
  "'e env \<Rightarrow> remote_host \<Rightarrow> string \<Rightarrow> (command_result \<Rightarrow> string) \<Rightarrow> ('e, unit) prog" where
  "grant_sudo x h username message =
     bnd (encode_ascii (sudoers_rule username)) (\<lambda>payload.
     andthen (put_bytes x h payload (sudoers username) 288)
     (bnd (sudo x h (''visudo -cf '' @ sudoers username) False) (\<lambda>check.
      only_if (\<not> ok check)
        (andthen (sudo x h (''rm -f '' @ sudoers username) False)
           (raise (VmDeployError (message check)))))))"

definition create_admin_user :: "'e env \<Rightarrow> remote_host \<Rightarrow> string \<Rightarrow> string \<Rightarrow> ('e, unit) prog" where
  "create_admin_user x h username public_key =
     bnd (run x h (''id -u '' @ username) False) (\<lambda>present.
     andthen (only_if (\<not> ok present)
        (andthen (sudo x h (''useradd --create-home --shell /bin/bash '' @ username) True) (ret ())))
     (andthen (sudo x h (''usermod -aG sudo '' @ username) True)
     (andthen (authorize_key x h username public_key)
     (grant_sudo x h username (\<lambda>check. ''Generated sudoers file for '' @ username
        @ '' failed validation: '' @ or_else (strip (stderr check)) (strip (stdout check)))))))"

definition verify_admin_access :: "'e env \<Rightarrow> string \<Rightarrow> ssh_config \<Rightarrow> ('e, bool) prog" where
  "verify_admin_access x addr cfg =
     catch (with_host x addr cfg (\<lambda>h.
        bnd (sudo x h ''id -u'' False) (\<lambda>result. ret (ok result \<and> strip (stdout result) = ''0''))))
       (\<lambda>e. if is_SSHConnectionError e \<or> is_VmDeployError e then Some (ret False) else None)"

definition disable_commands :: "string \<Rightarrow> string list" where
  "disable_commands username =
     [''usermod -L '' @ username,
      ''usermod -s /usr/sbin/nologin '' @ username,
      ''gpasswd -d '' @ username @ '' sudo'',
      ''rm -f /etc/sudoers.d/90-'' @ username,
      ''rm -f /home/'' @ username @ ''/.ssh/authorized_keys'']"

definition disable_bootstrap_account :: "'e env \<Rightarrow> remote_host \<Rightarrow> string \<Rightarrow> ('e, unit) prog" where
  "disable_bootstrap_account x h username =
     for_each (disable_commands username) (\<lambda>cmd. andthen (sudo x h cmd False) (ret ()))"

definition enable_account :: "'e env \<Rightarrow> remote_host \<Rightarrow> string \<Rightarrow> string \<Rightarrow> ('e, unit) prog" where
  "enable_account x h username public_key =
     bnd (run x h (''id -u '' @ username) False) (\<lambda>present.
     if \<not> ok present
     then raise (VmDeployError (''Account '' @ quoted username @ '' does not exist on '' @ address h))
     else andthen (sudo x h (''usermod -U '' @ username) False)
     (andthen (sudo x h (''usermod -s /bin/bash '' @ username) True)
     (andthen (sudo x h (''usermod -aG sudo '' @ username) True)
     (andthen (authorize_key x h username (strip public_key))
     (grant_sudo x h username (\<lambda>_. ''Restored sudoers for '' @ username @ '' failed validation''))))))"

section \<open>Effects\<close>

context guest_session begin

lemma ev_authorize_key [evolve_intros]: "evolves R (authorize_key x h u key)"
  unfolding authorize_key_def by (intro evolve_intros evolution_axioms)

lemma ev_grant_sudo [evolve_intros]: "evolves R (grant_sudo x h u f)"
  unfolding grant_sudo_def by (intro evolve_intros evolution_axioms)

lemma ev_create_admin_user [evolve_intros]: "evolves R (create_admin_user x h u key)"
  unfolding create_admin_user_def by (intro evolve_intros)

lemma ev_enable_account [evolve_intros]: "evolves R (enable_account x h u key)"
  unfolding enable_account_def by (intro evolve_intros)

lemma ev_disable_account [evolve_intros]: "evolves R (disable_bootstrap_account x h u)"
  unfolding disable_bootstrap_account_def by (intro evolve_intros)

end

text \<open>What a run that connects may raise on a guest, and what encoding a name may.\<close>

definition account_exn :: "exn \<Rightarrow> bool" where
  "account_exn e \<longleftrightarrow> is_VmDeployError e \<or> e = KeyboardInterrupt \<or> (\<exists>s. e = UnicodeEncodeError s)"

lemma account_exn_simps [simp]:
  "account_exn (VmDeployError s)" "account_exn KeyboardInterrupt" "account_exn (UnicodeEncodeError s)"
  by (simp_all add: account_exn_def)

lemma ssh_account_exn: "ssh_exn e \<Longrightarrow> account_exn e"
  by (auto simp: ssh_exn_def account_exn_def subclass_VmDeployError)

lemma throws_account_host [throws_intros]:
  "throws account_exn (run_for x h cmd c t)" "throws account_exn (sudo_for x h cmd c t)"
  "throws account_exn (put_bytes x h b p m)" "throws account_exn (encode_ascii s)"
  by ((rule throws_mono[OF throws_host_ops(2)] throws_mono[OF throws_host_ops(3)]
      throws_mono[OF throws_host_ops(5)], rule ssh_account_exn, assumption)+,
     simp add: encode_ascii_def throws_ret throws_raise)

lemma throws_accounts [throws_intros]:
  "throws account_exn (authorize_key x h u key)" "throws account_exn (grant_sudo x h u f)"
  "throws account_exn (create_admin_user x h u key)" "throws account_exn (enable_account x h u key)"
  "throws account_exn (disable_bootstrap_account x h u)"
  unfolding create_admin_user_def enable_account_def disable_bootstrap_account_def authorize_key_def grant_sudo_def
  by (intro throws_intros; simp)+

section \<open>Properties\<close>

subsection \<open>Sessions taken apart\<close>

lemma with_host_trace:
  assumes "with_host x a cfg body w = (Inr r, w')"
  shows "\<exists>h v v' es. address h = a \<and> host_ssh h = cfg \<and> body h v = (Inr r, v')
    \<and> trace v = trace w @ [EvConnect a (ssh_user cfg) (Some Connected)] \<and> files v = files w \<and> denied v = denied w
    \<and> trace w' = trace v' @ es \<and> list_all (at_address a) es \<and> files w' = files v' \<and> denied w' = denied v'"
proof -
  define h where "h = \<lparr>address = a, host_ssh = cfg, host_id = next_host w\<rparr>"
  define u where "u = snd (new_host a cfg w)"
  have hu: "new_host a cfg w = (Inr h, u)" "address h = a" "host_ssh h = cfg" "\<not> clients u (host_id h)"
    "trace u = trace w" "files u = files w" "denied u = denied w" by (simp_all add: h_def u_def new_host_def)
  from assms hu(1) obtain k v where c: "connect x h u = (Inr k, v)"
    and b: "always (body h) (close h) v = (Inr r, w')"
    by (auto simp: with_host_def run_inv)
  have v: "trace v = trace w @ [EvConnect a (ssh_user cfg) (Some Connected)]" "files v = files w" "denied v = denied w"
    using c hu by (auto simp: connect_def is_connected_def set_client_def run_simps Let_def
        split: prod.splits option.splits connect_outcome.splits if_splits)
  obtain s v' where bb: "body h v = (s, v')" by (cases "body h v")
  have "s = Inr r" "w' = snd (close h v')"
    using b bb close_world(2)[of h v'] by (cases "close h v'"; simp add: run_simps split: sum.splits)+
  then show ?thesis using v bb hu
    by (intro exI[of _ h] exI[of _ v] exI[of _ v'] exI[of _ "if clients v' (host_id h) then [EvClose a] else []"])
      (simp add: close_world at_address_def)
qed

text \<open>Among the events, the command was answered as root, or under the password, with some status.\<close>

definition answered :: "remote_host \<Rightarrow> string \<Rightarrow> event list \<Rightarrow> bool" where
  "answered h cmd es \<longleftrightarrow> (\<exists>c stdin status out err.
     EvExec (address h) (ssh_user (host_ssh h)) c stdin (Some (ExecDone status out err)) \<in> set es
     \<and> (c = ''sudo -n '' @ cmd \<and> status = 0 \<or> c = escalated cmd))"

lemma answered_append [simp]: "answered h cmd (xs @ ys) \<longleftrightarrow> answered h cmd xs \<or> answered h cmd ys"
  unfolding answered_def set_append Un_iff by blast

lemma sudo_answer:
  "sudo_for x h cmd c t w = (Inr res, w') \<Longrightarrow> \<exists>es cc stdin. trace w' = trace w @ es
     @ [EvExec (address h) (ssh_user (host_ssh h)) cc stdin (Some (ExecDone (exit_status res) (stdout res) (stderr res)))]
     \<and> (cc = ''sudo -n '' @ cmd \<and> exit_status res = 0 \<or> cc = escalated cmd)"
  by (auto simp: sudo_for_def run_run_for run_exec_command run_simps sudo_password_def Let_def ok_def
      split: prod.splits option.splits exec_outcome.splits if_splits)

lemma sudo_answered: "sudo_for x h cmd c t w = (Inr res, w') \<Longrightarrow> \<exists>es. trace w' = trace w @ es \<and> answered h cmd es"
  by (drule sudo_answer) (fastforce simp: answered_def)

lemma for_each_answered:
  "for_each cmds (\<lambda>cmd. andthen (sudo x h cmd False) (ret ())) w = (Inr u, w') \<Longrightarrow>
   \<exists>es. trace w' = trace w @ es \<and> list_all (\<lambda>cmd. answered h cmd es) cmds"
proof (induction cmds arbitrary: w)
  case Nil
  then show ?case by (simp add: run_inv)
next
  case (Cons c cmds)
  then obtain res v where s: "sudo x h c False w = (Inr res, v)"
    and f: "for_each cmds (\<lambda>cmd. andthen (sudo x h cmd False) (ret ())) v = (Inr u, w')"
    by (auto simp: run_inv)
  obtain es fs where "trace v = trace w @ es" "answered h c es" "trace w' = trace v @ fs"
    "list_all (\<lambda>cmd. answered h cmd fs) cmds" using sudo_answered[OF s] Cons.IH[OF f] by blast
  then show ?case by (intro exI[of _ "es @ fs"]) (simp add: list_all_iff)
qed

subsection \<open>Accounts\<close>

text \<open>The last event: \<open>visudo\<close> accepted the account's rule.\<close>

definition rule_accepted :: "remote_host \<Rightarrow> string \<Rightarrow> event list \<Rightarrow> bool" where
  "rule_accepted h u es \<longleftrightarrow> (\<exists>before c stdin out err. es = before
     @ [EvExec (address h) (ssh_user (host_ssh h)) c stdin (Some (ExecDone 0 out err))]
     \<and> (c = ''sudo -n '' @ ''visudo -cf '' @ sudoers u \<or> c = escalated (''visudo -cf '' @ sudoers u)))"

lemma rule_accepted_append: "rule_accepted h u ys \<Longrightarrow> rule_accepted h u (xs @ ys)"
  unfolding rule_accepted_def by (metis append.assoc)

text \<open>The account has the key and the passwordless rule, and the rule was accepted last.\<close>

definition account_granted :: "remote_host \<Rightarrow> string \<Rightarrow> string \<Rightarrow> event list \<Rightarrow> bool" where
  "account_granted h u key es \<longleftrightarrow> is_ascii key \<and> is_ascii u
     \<and> done_as_root h (''usermod -aG sudo '' @ u) es
     \<and> delivered h (ascii_encode (key @ [c_nl])) (authorized u) 384 es
     \<and> done_as_root h (''chown '' @ u @ '':'' @ u @ '' '' @ authorized u) es
     \<and> delivered h (ascii_encode (sudoers_rule u)) (sudoers u) 288 es
     \<and> rule_accepted h u es"

lemma encode_ascii_Inr: "encode_ascii s w = (Inr b, w') \<Longrightarrow> is_ascii s \<and> b = ascii_encode s \<and> w' = w"
  by (auto simp: encode_ascii_def run_inv split: if_splits)

lemma is_ascii_append: "is_ascii (s @ t) \<longleftrightarrow> is_ascii s \<and> is_ascii t"
  by (simp add: is_ascii_def)

lemma authorize_key_delivers:
  assumes "authorize_key x h u key w = (Inr r, w')"
  shows "\<exists>es. trace w' = trace w @ es \<and> is_ascii key
    \<and> delivered h (ascii_encode (key @ [c_nl])) (authorized u) 384 es
    \<and> done_as_root h (''chown '' @ u @ '':'' @ u @ '' '' @ authorized u) es"
proof -
  let ?cmds = "[''chown '' @ u @ '':'' @ u @ '' '' @ authorized u, ''chmod 600 '' @ authorized u]"
  from assms obtain r1 v1 b v2 r3 v3 where
    1: "sudo x h (''install -d -m 700 -o '' @ u @ '' -g '' @ u @ '' '' @ ssh_dir u) True w = (Inr r1, v1)"
    and 2: "encode_ascii (key @ [c_nl]) v1 = (Inr b, v2)"
    and 3: "put_bytes x h b (authorized u) 384 v2 = (Inr r3, v3)"
    and 4: "for_each ?cmds (\<lambda>cmd. andthen (sudo x h cmd True) (ret ())) v3 = (Inr r, w')"
    unfolding authorize_key_def run_inv by blast
  note e = encode_ascii_Inr[OF 2]
  obtain es1 where 5: "trace v1 = trace w @ es1" using sudo_done[OF 1] by blast
  obtain es3 where 6: "trace v3 = trace v2 @ es3" "delivered h b (authorized u) 384 es3"
    using put_bytes_delivered[OF 3] by blast
  obtain es4 where 7: "trace w' = trace v3 @ es4" "all_done h ?cmds es4" using for_each_all_done[OF 4] by blast
  show ?thesis using 5 6 7 e
    by (intro exI[of _ "es1 @ es3 @ es4"])
      (simp add: delivered_append is_ascii_append all_done_def)
qed

lemma grant_sudo_accepts:
  assumes "grant_sudo x h u f w = (Inr r, w')"
  shows "\<exists>es. trace w' = trace w @ es \<and> is_ascii u
    \<and> delivered h (ascii_encode (sudoers_rule u)) (sudoers u) 288 es \<and> rule_accepted h u es"
proof -
  from assms obtain b v1 r2 v2 check v3 where
    1: "encode_ascii (sudoers_rule u) w = (Inr b, v1)"
    and 2: "put_bytes x h b (sudoers u) 288 v1 = (Inr r2, v2)"
    and 3: "sudo x h (''visudo -cf '' @ sudoers u) False v2 = (Inr check, v3)"
    and 4: "ok check \<and> w' = v3"
    unfolding grant_sudo_def run_inv by (auto simp: only_if_def run_inv split: if_splits)
  note e = encode_ascii_Inr[OF 1]
  obtain es2 where 6: "trace v2 = trace v1 @ es2" "delivered h b (sudoers u) 288 es2"
    using put_bytes_delivered[OF 2] by blast
  obtain es3 cc stdin where 7: "trace v3 = trace v2 @ es3
     @ [EvExec (address h) (ssh_user (host_ssh h)) cc stdin (Some (ExecDone (exit_status check) (stdout check) (stderr check)))]"
     "cc = ''sudo -n '' @ ''visudo -cf '' @ sudoers u \<or> cc = escalated (''visudo -cf '' @ sudoers u)"
    using sudo_answer[OF 3] by auto
  have "rule_accepted h u (es2 @ es3 @ [EvExec (address h) (ssh_user (host_ssh h)) cc stdin
      (Some (ExecDone (exit_status check) (stdout check) (stderr check)))])"
    using 4 7(2) unfolding rule_accepted_def ok_def by (metis append.assoc)
  then show ?thesis using 4 6 7 e
    by (intro exI[of _ "es2 @ es3 @ [EvExec (address h) (ssh_user (host_ssh h)) cc stdin
      (Some (ExecDone (exit_status check) (stdout check) (stderr check)))]"])
      (simp add: delivered_append is_ascii_append sudoers_rule_def)
qed

lemma account_granted_by:
  assumes "sudo x h (''usermod -aG sudo '' @ u) True w = (Inr r1, v1)"
    and "authorize_key x h u key v1 = (Inr r2, v2)" and "grant_sudo x h u f v2 = (Inr r3, v3)"
  shows "\<exists>es. trace v3 = trace w @ es \<and> account_granted h u key es"
proof -
  obtain es1 where 1: "trace v1 = trace w @ es1" "done_as_root h (''usermod -aG sudo '' @ u) es1"
    using sudo_done[OF assms(1)] by blast
  obtain es2 where 2: "trace v2 = trace v1 @ es2" "is_ascii key"
    "delivered h (ascii_encode (key @ [c_nl])) (authorized u) 384 es2"
    "done_as_root h (''chown '' @ u @ '':'' @ u @ '' '' @ authorized u) es2"
    using authorize_key_delivers[OF assms(2)] by blast
  obtain es3 where 3: "trace v3 = trace v2 @ es3" "is_ascii u"
    "delivered h (ascii_encode (sudoers_rule u)) (sudoers u) 288 es3" "rule_accepted h u es3"
    using grant_sudo_accepts[OF assms(3)] by blast
  from 1 2 3 show ?thesis
    by (intro exI[of _ "es1 @ es2 @ es3"])
      (simp add: account_granted_def delivered_append rule_accepted_append del: append_assoc add: append_assoc[symmetric])
qed

lemma account_granted_append: "account_granted h u key ys \<Longrightarrow> account_granted h u key (xs @ ys)"
  by (simp add: account_granted_def delivered_append rule_accepted_append)

lemma created_account:
  assumes "create_admin_user x h u key w = (Inr r, w')"
  shows "\<exists>es. trace w' = trace w @ es \<and> account_granted h u key es"
proof -
  from assms obtain r1 v1 r2 v2 r3 v3 r4 v4 f where
    1: "run x h (''id -u '' @ u) False w = (Inr r1, v1)"
    and 2: "only_if (\<not> ok r1) (andthen (sudo x h (''useradd --create-home --shell /bin/bash '' @ u) True) (ret ())) v1
       = (Inr r2, v2)"
    and 3: "sudo x h (''usermod -aG sudo '' @ u) True v2 = (Inr r3, v3)"
    and 4: "authorize_key x h u key v3 = (Inr r4, v4)" "grant_sudo x h u f v4 = (Inr r, w')"
    unfolding create_admin_user_def run_inv by blast
  obtain es1 where "trace v1 = trace w @ es1" using emits_trace[OF emits_any_session(1) 1] by blast
  moreover have "evolves (emits (\<lambda>_. True)) (only_if (\<not> ok r1)
      (andthen (sudo x h (''useradd --create-home --shell /bin/bash '' @ u) True) (ret ())))"
    by (intro evolve_intros emits_any_session)
  then obtain es2 where "trace v2 = trace v1 @ es2" using 2 by (metis emits_trace)
  moreover obtain es3 where "trace w' = trace v2 @ es3" "account_granted h u key es3"
    using account_granted_by[OF 3 4] by blast
  ultimately show ?thesis
    by (intro exI[of _ "es1 @ es2 @ es3"]) (simp add: account_granted_append)
qed

lemma enabled_account:
  assumes "enable_account x h u key w = (Inr r, w')"
  shows "\<exists>es. trace w' = trace w @ es \<and> account_granted h u (strip key) es
    \<and> answered h (''usermod -U '' @ u) es \<and> done_as_root h (''usermod -s /bin/bash '' @ u) es"
proof -
  from assms obtain r1 v1 r2 v2 r3 v3 r4 v4 r5 v5 f where
    1: "run x h (''id -u '' @ u) False w = (Inr r1, v1)"
    and 2: "sudo x h (''usermod -U '' @ u) False v1 = (Inr r2, v2)"
    and 3: "sudo x h (''usermod -s /bin/bash '' @ u) True v2 = (Inr r3, v3)"
    and 4: "sudo x h (''usermod -aG sudo '' @ u) True v3 = (Inr r4, v4)"
    "authorize_key x h u (strip key) v4 = (Inr r5, v5)" "grant_sudo x h u f v5 = (Inr r, w')"
    unfolding enable_account_def run_inv by (auto simp: run_inv split: if_splits)
  obtain es1 where 5: "trace v1 = trace w @ es1" using emits_trace[OF emits_any_session(1) 1] by blast
  obtain es2 where 6: "trace v2 = trace v1 @ es2" "answered h (''usermod -U '' @ u) es2" using sudo_answered[OF 2] by blast
  obtain es3 where 7: "trace v3 = trace v2 @ es3" "done_as_root h (''usermod -s /bin/bash '' @ u) es3"
    using sudo_done[OF 3] by blast
  obtain es4 where "trace w' = trace v3 @ es4" "account_granted h u (strip key) es4"
    using account_granted_by[OF 4] by blast
  then show ?thesis using 5 6 7
    by (intro exI[of _ "es1 @ es2 @ es3 @ es4"]) (simp add: account_granted_append)
qed

text \<open>
  Giving an account access. When the operational user was created, or a disabled account was
  enabled again, the guest holds the account's key under mode 0600 and its sudo rule under mode
  0440, both delivered whole; the account is in the sudo group; and the last thing seen was
  \<open>visudo\<close> accepting the rule, so a malformed rule never counts as success. Failures are program
  errors, interrupts, or a key or name that is not ASCII.
\<close>

theorem account_access_granted:
  "(case create_admin_user x h u key w of (r, w') \<Rightarrow>
      gives (\<lambda>_. \<exists>es. trace w' = trace w @ es \<and> account_granted h u key es) r \<and> fails_as account_exn r)
   \<and> (case enable_account x h u key w of (r, w') \<Rightarrow>
      gives (\<lambda>_. \<exists>es. trace w' = trace w @ es \<and> account_granted h u (strip key) es
         \<and> answered h (''usermod -U '' @ u) es \<and> done_as_root h (''usermod -s /bin/bash '' @ u) es) r
      \<and> fails_as account_exn r)"
proof -
  have "fails_as account_exn (fst (create_admin_user x h u key w))" "fails_as account_exn (fst (enable_account x h u key w))"
    using throws_accounts(3,4) unfolding throws_def by blast+
  then show ?thesis
    using created_account[of x h u key w] enabled_account[of x h u key w]
    by (cases "create_admin_user x h u key w"; cases "enable_account x h u key w") (simp add: gives_def)
qed

subsection \<open>The key pair\<close>

lemma public_half_other: "path_name p \<noteq> [] \<Longrightarrow> public_half p \<noteq> p"
proof
  assume n: "path_name p \<noteq> []" and e: "public_half p = p"
  have "length (path_name (public_half p)) = length (path_name p) + 4"
    by (simp add: public_half_def with_suffix_def with_name_def path_name_def path_stem_def path_suffix_def
        name_stem_def name_suffix_def split: option.splits)
  with e show False by simp
qed

lemma run_restrict_modes: "\<exists>m. restrict_modes ps w = (Inr (), w\<lparr>modes := m\<rparr>)"
proof (induction ps arbitrary: w)
  case Nil
  show ?case by (rule exI[of _ "modes w"]) (simp add: restrict_modes_def run_simps)
next
  case (Cons p ps)
  have "\<exists>m. catch (chmod p 384) (\<lambda>e. if is_OSError e then Some (ret ()) else None) w = (Inr (), w\<lparr>modes := m\<rparr>)"
    by (cases "denied w Changing p"; cases "files w p")
      (auto simp: run_simps chmod_def permission_denied_def no_such_file_def intro: exI[of _ "modes w"])
  then obtain m where "catch (chmod p 384) (\<lambda>e. if is_OSError e then Some (ret ()) else None) w = (Inr (), w\<lparr>modes := m\<rparr>)" ..
  then show ?case using Cons.IH[of "w\<lparr>modes := m\<rparr>"] by (auto simp: restrict_modes_def run_simps(4))
qed

definition keypair_exn :: "exn \<Rightarrow> bool" where
  "keypair_exn e \<longleftrightarrow> is_VmDeployError e \<or> is_OSError e \<or> is_ValueError e"

lemma keypair_exn_simps [simp]:
  "keypair_exn (VmDeployError s)" "keypair_exn (OSError s)" "keypair_exn (ValueError s)"
  "keypair_exn (UnicodeDecodeError s)" "keypair_exn (UnicodeEncodeError s)"
  by (simp_all add: keypair_exn_def)

text \<open>The pair that was made of some entropy, on disk with its comment.\<close>

definition fresh_pair :: "'e env \<Rightarrow> path \<Rightarrow> string \<Rightarrow> string \<Rightarrow> 'e world \<Rightarrow> bool" where
  "fresh_pair x p comment line w \<longleftrightarrow> (\<exists>seed. length seed = 32 \<and> line = snd (x_keypair x seed) @ '' '' @ comment
     \<and> files w p = Some (fst (x_keypair x seed))
     \<and> files w (public_half p) = Some (ascii_encode (line @ [c_nl])))"

lemma new_keypair_run:
  assumes "path_name p \<noteq> []"
  shows "case new_keypair x p (public_half p) c w of (r, w') \<Rightarrow>
     gives (\<lambda>line. fresh_pair x p c line w') r \<and> trace w' = trace w
     \<and> (\<forall>q. q = p \<or> q = public_half p \<or> files w' q = files w q) \<and> fails_as keypair_exn r"
proof -
  define seed where "seed = map (entropy w) [drawn w..<drawn w + 32]"
  have len: "length seed = 32" by (simp add: seed_def)
  note other = public_half_other[OF assms]
  have final: "fresh_pair x p c (snd (x_keypair x seed) @ '' '' @ c) z"
    if "files z = (files w)(p \<mapsto> fst (x_keypair x seed), public_half p \<mapsto> ascii_encode ((snd (x_keypair x seed) @ '' '' @ c) @ [c_nl]))"
    for z
    using that other len unfolding fresh_pair_def by (intro exI[of _ seed]) simp
  define line where "line = snd (x_keypair x seed) @ '' '' @ c"
  define v where "v = w\<lparr>drawn := drawn w + 32, files := (files w)(p \<mapsto> fst (x_keypair x seed),
    public_half p \<mapsto> ascii_encode (line @ [c_nl]))\<rparr>"
  obtain m where m: "restrict_modes [p, public_half p] v = (Inr (), v\<lparr>modes := m\<rparr>)"
    using run_restrict_modes by blast
  show ?thesis
    using m final[of "v\<lparr>modes := m\<rparr>"] other
    by (auto simp: new_keypair_def run_simps(1,2,3,4,5) run_host_ops seed_def[symmetric] line_def Let_def mkdir_def
        write_bytes_def write_text_ascii_def permission_denied_def disk_full_def v_def)
qed

lemma generate_keypair_run:
  "case generate_ssh_keypair x p c w of (r, w') \<Rightarrow>
     gives (\<lambda>line. if files w p \<noteq> None \<and> files w (public_half p) \<noteq> None
        then \<exists>t b. files w (public_half p) = Some b \<and> ascii_decode b = Some t \<and> line = strip (universal_newlines t)
        else fresh_pair x p c line w') r
     \<and> (if files w p \<noteq> None \<and> files w (public_half p) \<noteq> None then w' = w
        else \<forall>q. q = p \<or> q = public_half p \<or> files w' q = files w q)
     \<and> trace w' = trace w \<and> fails_as keypair_exn r"
proof (cases "path_name p = []")
  case True
  then show ?thesis by (simp add: generate_ssh_keypair_def run_simps)
next
  case False
  show ?thesis
    using new_keypair_run[OF False, of x c w]
    by (auto simp: generate_ssh_keypair_def False Let_def run_simps read_text_ascii_def read_ascii_def read_bytes_def
        permission_denied_def split: option.splits prod.splits sum.splits)
qed

text \<open>
  The operational key pair. When both halves are on disk the call changes nothing at all and
  returns the stored public line, so re-running setup never invalidates a key the guests trust.
  Otherwise, when it returns, a pair made from 32 fresh bytes is on disk, the public half holding
  the line it returns; no other file is touched and nothing leaves the process.
\<close>

theorem generate_ssh_keypair_stable:
  "case generate_ssh_keypair x p c w of (r, w') \<Rightarrow>
     gives (\<lambda>line. if files w p \<noteq> None \<and> files w (public_half p) \<noteq> None
        then \<exists>t b. files w (public_half p) = Some b \<and> ascii_decode b = Some t \<and> line = strip (universal_newlines t)
        else fresh_pair x p c line w') r
     \<and> (if files w p \<noteq> None \<and> files w (public_half p) \<noteq> None then w' = w
        else \<forall>q. q = p \<or> q = public_half p \<or> files w' q = files w q)
     \<and> trace w' = trace w \<and> fails_as keypair_exn r"
  by (rule generate_keypair_run)

text \<open>A relation kept by the pair's two files, seen from programs that call it.\<close>

lemma keypair_evolves:
  assumes "\<And>w w'. (\<forall>q. q = p \<or> q = public_half p \<or> files w' q = files w q) \<and> trace w' = trace w \<Longrightarrow> R w w'"
  shows "evolves R (generate_ssh_keypair x p c)"
proof (rule evolvesI)
  fix w
  show "R w (snd (generate_ssh_keypair x p c w))"
    using generate_keypair_run[where x = x and p = p and c = c and w = w] assms[where w = w and w' = "snd (generate_ssh_keypair x p c w)"]
    by (cases "generate_ssh_keypair x p c w") (auto split: if_splits)
qed

end
