(* ===== verification/Image.thy ===== *)
theory Image
  imports Accounts
begin

text \<open>
  \<^verbatim>\<open>src/vmdeploy/setup.py\<close>, second part: what a golden image must not carry, and how its cloud-init
  is armed. Both run on a session with the template box, inside the build that rolls the box back.
\<close>

definition BUILD_TOOLING_PACKAGES :: "string list" where
  "BUILD_TOOLING_PACKAGES = [''git'', ''gh'', ''docker.io'', ''docker-ce'', ''docker-ce-cli'', ''containerd'',
     ''containerd.io'', ''runc'']"

definition CREDENTIAL_GLOBS :: "string list" where
  "CREDENTIAL_GLOBS = [''.docker'', ''.git-credentials'', ''.gitconfig'', ''.config/gh'', ''.config/git'',
     ''.netrc'', ''.aws'', ''.bash_history'', ''.ssh/id_*'', ''.ssh/known_hosts'', ''.ssh/authorized_keys'']"

subsection \<open>Removing credentials and build tooling\<close>

definition dquoted :: "string \<Rightarrow> string" where
  "dquoted s = c_dq # s @ [c_dq]"

definition purge_script :: string where
  "purge_script = ''for home in /root /home/*; do [ -d '' @ dquoted ''$home'' @ '' ] || continue; rm -rf ''
     @ join '' '' (map (\<lambda>pattern. dquoted ''$home'' @ ''/'' @ pattern) CREDENTIAL_GLOBS) @ ''; done''"

definition lock_script :: "string \<Rightarrow> string" where
  "lock_script operational_user =
     ''getent passwd | awk -F: '' @ [c_sq] @ ''$3>=1000 && $3<60000 {print $1}'' @ [c_sq] @ '' | ''
     @ ''while read -r account; do ''
     @ ''  [ '' @ dquoted ''$account'' @ '' = '' @ dquoted operational_user @ '' ] && continue; ''
     @ ''  usermod -L '' @ dquoted ''$account'' @ '' 2>/dev/null || true; ''
     @ ''  usermod -s /usr/sbin/nologin '' @ dquoted ''$account'' @ '' 2>/dev/null || true; ''
     @ ''  gpasswd -d '' @ dquoted ''$account'' @ '' sudo 2>/dev/null || true; ''
     @ ''  rm -f '' @ dquoted ''/etc/sudoers.d/90-$account'' @ ''; ''
     @ ''  rm -f '' @ dquoted ''/home/$account/.ssh/authorized_keys'' @ ''; ''
     @ ''done''"

definition sanitize_commands :: "string \<Rightarrow> string list" where
  "sanitize_commands operational_user =
     [''sh -c '' @ setup_quote purge_script,
      ''sh -c '' @ setup_quote (lock_script operational_user),
      ''DEBIAN_FRONTEND=noninteractive apt-get purge -y '' @ join '' '' BUILD_TOOLING_PACKAGES
        @ '' 2>/dev/null || true'',
      ''DEBIAN_FRONTEND=noninteractive apt-get autoremove -y 2>/dev/null || true'',
      ''rm -rf /var/lib/docker /etc/docker /var/lib/containerd'',
      ''groupdel docker 2>/dev/null || true'',
      ''apt-get clean'']"

definition find_keys_command :: string where
  "find_keys_command = ''find /root /home -name authorized_keys 2>/dev/null || true''"

definition verify_no_authorized_keys :: "'e env \<Rightarrow> remote_host \<Rightarrow> ('e, unit) prog" where
  "verify_no_authorized_keys x h =
     bnd (sudo x h find_keys_command False) (\<lambda>r.
     let survivors = words (stdout r) in
     if survivors \<noteq> []
     then raise (VmDeployError (''authorized_keys survived sanitisation at '' @ py_repr_list survivors
       @ ''; the image would ship a working login and must not be published. ''
       @ ''Sanitisation did not complete.''))
     else ret ())"

definition sanitize_image :: "'e env \<Rightarrow> remote_host \<Rightarrow> string \<Rightarrow> ('e, unit) prog" where
  "sanitize_image x h operational_user =
     andthen (for_each (sanitize_commands operational_user) (\<lambda>cmd. andthen (sudo x h cmd False) (ret ())))
     (andthen (run x h ''command -v git docker gh 2>/dev/null || true'' False)
     (verify_no_authorized_keys x h))"

subsection \<open>Arming cloud-init\<close>

definition CLOUD_INIT_DISABLED_FLAG :: string where
  "CLOUD_INIT_DISABLED_FLAG = ''/etc/cloud/cloud-init.disabled''"

definition INSTALLER_DROPIN :: string where
  "INSTALLER_DROPIN = ''/etc/cloud/cloud.cfg.d/99-installer.cfg''"

definition DATASOURCE_DROPIN :: string where
  "DATASOURCE_DROPIN = ''/etc/cloud/cloud.cfg.d/99-vmdeploy-nocloud.cfg''"

definition DATASOURCE_DROPIN_BODY :: string where
  "DATASOURCE_DROPIN_BODY =
     ''# Written by vmdeploy when baking the golden image.'' @ [c_nl]
     @ ''# The appliance ships with no credentials; each guest receives its identity'' @ [c_nl]
     @ ''# from a NoCloud seed ISO attached at import. Probing NoCloud first is what'' @ [c_nl]
     @ ''# makes that work; None remains as the fallback for a guest booted without'' @ [c_nl]
     @ ''# a seed, so it comes up rather than hanging.'' @ [c_nl]
     @ ''datasource_list: [ NoCloud, None ]'' @ [c_nl]"

definition NETWORK_DROPIN :: string where
  "NETWORK_DROPIN = ''/etc/cloud/cloud.cfg.d/99-vmdeploy-network.cfg''"

definition NETWORK_DROPIN_BODY :: string where
  "NETWORK_DROPIN_BODY =
     ''# Written by vmdeploy when baking the golden image.'' @ [c_nl]
     @ ''# The image already carries working netplan/DHCP configuration. cloud-init'' @ [c_nl]
     @ ''# must not generate its own alongside it, so its network handling is off.'' @ [c_nl]
     @ ''network: {config: disabled}'' @ [c_nl]"

text \<open>One drop-in: staged under \<open>/tmp\<close>, installed, the staged copy removed.\<close>

definition write_dropin :: "'e env \<Rightarrow> remote_host \<Rightarrow> string \<times> string \<Rightarrow> ('e, unit) prog" where
  "write_dropin x h = (\<lambda>(remote_path, body).
     let staged = ''/tmp/'' @ path_name (path_of remote_path) in
     andthen (put_bytes x h (utf8_encode body) staged 420)
     (andthen (sudo x h (''install -m 0644 -o root -g root '' @ staged @ '' '' @ remote_path) True)
     (andthen (run x h (''rm -f '' @ staged) False) (ret ()))))"

definition dropins :: "(string \<times> string) list" where
  "dropins = [(DATASOURCE_DROPIN, DATASOURCE_DROPIN_BODY), (NETWORK_DROPIN, NETWORK_DROPIN_BODY)]"

definition leftovers_command :: string where
  "leftovers_command = ''test -e '' @ CLOUD_INIT_DISABLED_FLAG @ '' && echo '' @ CLOUD_INIT_DISABLED_FLAG
     @ ''; test -e '' @ INSTALLER_DROPIN @ '' && echo '' @ INSTALLER_DROPIN @ ''; true''"

definition cat_command :: "string \<Rightarrow> string" where
  "cat_command p = ''cat '' @ p @ '' 2>/dev/null || true''"

definition verify_cloud_init_armed :: "'e env \<Rightarrow> remote_host \<Rightarrow> ('e, unit) prog" where
  "verify_cloud_init_armed x h =
     bnd (run x h leftovers_command False) (\<lambda>r.
     let leftovers = strip (stdout r) in
     if leftovers \<noteq> []
     then raise (VmDeployError (''cloud-init is still disabled in the image; these installer opt-outs ''
       @ ''survived: '' @ py_repr_list (words leftovers)
       @ ''. Clones would boot with no identity and no way in.''))
     else bnd (sudo x h (cat_command DATASOURCE_DROPIN) False) (\<lambda>datasource.
     if \<not> contains ''NoCloud'' (stdout datasource)
     then raise (VmDeployError (''the NoCloud datasource drop-in at '' @ DATASOURCE_DROPIN
       @ '' is missing or unreadable; ''
       @ ''clones would not probe for their seed ISO and would boot with no identity.''))
     else bnd (sudo x h (cat_command NETWORK_DROPIN) False) (\<lambda>network.
     if \<not> contains ''disabled'' (stdout network)
     then raise (VmDeployError (''the network drop-in at '' @ NETWORK_DROPIN
       @ '' is missing or unreadable; cloud-init ''
       @ ''would regenerate netplan on first boot and could break guest networking.''))
     else ret ())))"

definition arm_cloud_init :: "'e env \<Rightarrow> remote_host \<Rightarrow> ('e, unit) prog" where
  "arm_cloud_init x h =
     andthen (sudo x h (''rm -f '' @ CLOUD_INIT_DISABLED_FLAG @ '' '' @ INSTALLER_DROPIN) True)
     (andthen (sudo x h ''cloud-init clean --logs --machine-id'' False)
     (andthen (for_each dropins (write_dropin x h))
     (verify_cloud_init_armed x h)))"

section \<open>Effects\<close>

context guest_session begin

lemma ev_sanitize [evolve_intros]: "evolves R (sanitize_image x h u)"
  unfolding sanitize_image_def verify_no_authorized_keys_def Let_def by (intro evolve_intros)

lemma ev_write_dropin [evolve_intros]: "evolves R (write_dropin x h d)"
  unfolding write_dropin_def Let_def by (intro evolve_intros)

lemma ev_arm_cloud_init [evolve_intros]: "evolves R (arm_cloud_init x h)"
  unfolding arm_cloud_init_def verify_cloud_init_armed_def Let_def by (intro evolve_intros)

end

lemma throws_image [throws_intros]:
  "throws account_exn (sanitize_image x h u)" "throws account_exn (arm_cloud_init x h)"
  unfolding sanitize_image_def verify_no_authorized_keys_def arm_cloud_init_def verify_cloud_init_armed_def
    write_dropin_def Let_def
  by (intro throws_intros; simp)+

section \<open>Properties\<close>

text \<open>The last event: the command was answered, as root or under the password, with this output.\<close>

definition answered_last :: "remote_host \<Rightarrow> string \<Rightarrow> string \<Rightarrow> event list \<Rightarrow> bool" where
  "answered_last h cmd out es \<longleftrightarrow> (\<exists>before c stdin status err. es = before
     @ [EvExec (address h) (ssh_user (host_ssh h)) c stdin (Some (ExecDone status out err))]
     \<and> (c = ''sudo -n '' @ cmd \<and> status = 0 \<or> c = escalated cmd))"

lemma answered_last_append: "answered_last h cmd out ys \<Longrightarrow> answered_last h cmd out (xs @ ys)"
  unfolding answered_last_def by (metis append.assoc)

lemma sudo_answered_last:
  "sudo_for x h cmd c t w = (Inr res, w') \<Longrightarrow> \<exists>es. trace w' = trace w @ es \<and> answered_last h cmd (stdout res) es"
  by (drule sudo_answer) (fastforce simp: answered_last_def)

lemma sanitized:
  assumes "sanitize_image x h u w = (Inr r, w')"
  shows "\<exists>es out. trace w' = trace w @ es \<and> list_all (\<lambda>cmd. answered h cmd es) (sanitize_commands u)
    \<and> answered_last h find_keys_command out es \<and> words out = []"
proof -
  from assms obtain r1 v1 r2 v2 res where
    1: "for_each (sanitize_commands u) (\<lambda>cmd. andthen (sudo x h cmd False) (ret ())) w = (Inr r1, v1)"
    and 2: "run x h ''command -v git docker gh 2>/dev/null || true'' False v1 = (Inr r2, v2)"
    and 3: "sudo x h find_keys_command False v2 = (Inr res, w')" and 4: "words (stdout res) = []"
    unfolding sanitize_image_def verify_no_authorized_keys_def Let_def run_inv by (auto simp: run_inv split: if_splits)
  obtain es1 where 5: "trace v1 = trace w @ es1" "list_all (\<lambda>cmd. answered h cmd es1) (sanitize_commands u)"
    using for_each_answered[OF 1] by blast
  obtain es2 where 6: "trace v2 = trace v1 @ es2" using emits_trace[OF emits_any_session(1) 2] by blast
  obtain es3 where 7: "trace w' = trace v2 @ es3" "answered_last h find_keys_command (stdout res) es3"
    using sudo_answered_last[OF 3] by blast
  show ?thesis using 4 5 6 7
    by (intro exI[of _ "es1 @ es2 @ es3"] exI[of _ "stdout res"]) (simp add: list_all_iff answered_last_append)
qed

text \<open>
  What the check needs of a guest to mean something. \<open>has_keys\<close> says of a state of the outside
  whether an \<open>authorized_keys\<close> file is on the guest. A guest is truthful when a search that really
  ran lists a name exactly if there is such a file: with \<open>sudo -n\<close> that is a search answered with
  status zero, with the password every answered one. A guest that refuses \<open>sudo -n\<close> is not, because
  the command line turns the refusal into status zero and no output; nor is one that refuses the
  password.
\<close>

definition truthful_search :: "'e env \<Rightarrow> remote_host \<Rightarrow> ('e \<Rightarrow> bool) \<Rightarrow> bool" where
  "truthful_search x h has_keys \<longleftrightarrow> (\<forall>c stdin t e status out err dt e'.
     x_exec x (address h) (ssh_user (host_ssh h)) c stdin t e = (Some (ExecDone status out err), dt, e') \<longrightarrow>
     c = ''sudo -n '' @ find_keys_command \<and> status = 0 \<or> c = escalated find_keys_command \<longrightarrow>
     (has_keys e' \<longleftrightarrow> words out \<noteq> []))"

lemma verified_truthful:
  assumes "verify_no_authorized_keys x h w = (Inr u, w')" and "truthful_search x h has_keys"
  shows "\<not> has_keys (ext w')"
proof -
  from assms(1) obtain res where 1: "sudo x h find_keys_command False w = (Inr res, w')" and 2: "words (stdout res) = []"
    unfolding verify_no_authorized_keys_def Let_def by (auto simp: run_inv split: if_splits)
  obtain c stdin t e dt where "x_exec x (address h) (ssh_user (host_ssh h)) c stdin t e
      = (Some (ExecDone (exit_status res) (stdout res) (stderr res)), dt, ext w')"
    "c = ''sudo -n '' @ find_keys_command \<and> exit_status res = 0 \<or> c = escalated find_keys_command"
    using 1 by (auto simp: sudo_for_def run_run_for run_exec_command run_simps sudo_password_def Let_def ok_def
        split: prod.splits option.splits exec_outcome.splits if_splits)
  then show ?thesis using assms(2) 2 unfolding truthful_search_def by metis
qed

lemma sanitized_truthful:
  "sanitize_image x h u w = (Inr r, w') \<Longrightarrow> truthful_search x h has_keys \<Longrightarrow> \<not> has_keys (ext w')"
  unfolding sanitize_image_def run_inv by (elim exE conjE) (rule verified_truthful)

text \<open>
  C22: the image is checked before it is published. Sanitising returns only when each of its seven
  commands was answered and the last thing seen was the search for \<open>authorized_keys\<close> answering with
  no name at all. On a guest whose answer to the search is truthful no such file is left then. The
  hypothesis is needed: where sudo refuses the search it prints nothing either, and the call returns
  although a key may have survived (\<open>verification_passes_when_refused\<close> below). Failures are program
  errors and interrupts.
\<close>

theorem sanitize_image_verified:
  "case sanitize_image x h u w of (r, w') \<Rightarrow>
     gives (\<lambda>_. (\<exists>es out. trace w' = trace w @ es \<and> list_all (\<lambda>cmd. answered h cmd es) (sanitize_commands u)
         \<and> answered_last h find_keys_command out es \<and> words out = [])
       \<and> (truthful_search x h has_keys \<longrightarrow> \<not> has_keys (ext w'))) r
     \<and> fails_as account_exn r"
proof -
  have "fails_as account_exn (fst (sanitize_image x h u w))" using throws_image(1) unfolding throws_def by blast
  then show ?thesis using sanitized[of x h u w] sanitized_truthful[where x = x and h = h and u = u and w = w and has_keys = has_keys]
    by (cases "sanitize_image x h u w") (auto simp: gives_def)
qed

text \<open>
  A guest with a key, on which the witness runs: its state is whether the key is there, the purge of
  the home directories removes it, and the search lists it as long as it is there.
\<close>

definition keyed_guest :: "bool env" where
  "keyed_guest = quiet_env\<lparr>x_exec := \<lambda>_ _ cmd _ _ e.
     (Some (ExecDone 0 (if cmd \<in> {''sudo -n '' @ find_keys_command, escalated find_keys_command} \<and> e
        then ''/root/.ssh/authorized_keys'' else []) []), 0,
      e \<and> cmd \<noteq> ''sudo -n sh -c '' @ setup_quote purge_script)\<rparr>"

lemma keyed_guest_truthful: "truthful_search keyed_guest quiet_host (\<lambda>has_key. has_key)"
proof -
  have "''sudo -n '' @ find_keys_command \<noteq> ''sudo -n sh -c '' @ s" "escalated find_keys_command \<noteq> ''sudo -n sh -c '' @ s" for s
    by (simp_all add: find_keys_command_def escalated_def)
  moreover have "words ''/root/.ssh/authorized_keys'' \<noteq> []" "words [] = []" by code_simp+
  ultimately show ?thesis by (auto simp: truthful_search_def keyed_guest_def)
qed

definition keyed_world :: "bool world" where
  "keyed_world = \<lparr>ext = True, clock = 0, files = (\<lambda>_. None), modes = (\<lambda>_. None), denied = (\<lambda>_ _. False),
     room = (\<lambda>_. None), environ = [], entropy = (\<lambda>_. 0), drawn = 0, clients = (\<lambda>_. True), sftps = (\<lambda>_. False),
     next_host = 1, trace = [], printed = []\<rparr>"

lemma keyed_sudo:
  "clients w (host_id h) \<Longrightarrow> \<exists>res v. sudo keyed_guest h cmd False w = (Inr res, v) \<and> clients v = clients w
     \<and> (ext v \<longrightarrow> ext w \<and> cmd \<noteq> ''sh -c '' @ setup_quote purge_script) \<and> (\<not> ext w \<longrightarrow> stdout res = [])"
  by (simp add: sudo_for_def run_run_for run_simps keyed_guest_def Let_def ok_def)

lemma keyed_commands:
  "clients w (host_id h) \<Longrightarrow> \<exists>v. for_each cmds (\<lambda>cmd. andthen (sudo keyed_guest h cmd False) (ret ())) w = (Inr (), v)
     \<and> clients v = clients w \<and> (ext v \<longrightarrow> ext w \<and> ''sh -c '' @ setup_quote purge_script \<notin> set cmds)"
proof (induction cmds arbitrary: w)
  case Nil
  then show ?case by (simp add: run_simps)
next
  case (Cons cmd cmds)
  obtain res v where 1: "sudo keyed_guest h cmd False w = (Inr res, v)" "clients v = clients w"
    "ext v \<longrightarrow> ext w \<and> cmd \<noteq> ''sh -c '' @ setup_quote purge_script" using keyed_sudo[OF Cons.prems] by blast
  with Cons.IH[of v] Cons.prems show ?case by (auto simp: run_simps)
qed

theorem sanitize_image_verified_witness:
  "case sanitize_image keyed_guest quiet_host ''ops'' keyed_world of (r, w') \<Rightarrow> r = Inr () \<and> \<not> ext w'"
proof -
  have c: "clients keyed_world (host_id quiet_host)" by (simp add: keyed_world_def)
  obtain v where 1: "for_each (sanitize_commands ''ops'') (\<lambda>cmd. andthen (sudo keyed_guest quiet_host cmd False) (ret ())) keyed_world = (Inr (), v)"
    and cv: "clients v = clients keyed_world"
    and gone: "ext v \<longrightarrow> ''sh -c '' @ setup_quote purge_script \<notin> set (sanitize_commands ''ops'')"
    using keyed_commands[OF c, of "sanitize_commands ''ops''"] by auto
  have "\<not> ext v" using gone unfolding sanitize_commands_def by simp
  moreover obtain res u where 2: "run keyed_guest quiet_host ''command -v git docker gh 2>/dev/null || true'' False v = (Inr res, u)"
    "clients u = clients v" "ext u \<longrightarrow> ext v"
    using c cv by (simp add: run_run_for keyed_guest_def Let_def)
  moreover obtain res' w' where 3: "sudo keyed_guest quiet_host find_keys_command False u = (Inr res', w')"
    "\<not> ext u \<longrightarrow> stdout res' = []"
    using keyed_sudo[of u quiet_host find_keys_command] c cv 2(2) by auto
  ultimately have "sanitize_image keyed_guest quiet_host ''ops'' keyed_world = (Inr (), w')"
    using 1 unfolding sanitize_image_def verify_no_authorized_keys_def Let_def by (simp add: run_simps words_def)
  then show ?thesis
    using sanitize_image_verified[where x = keyed_guest and h = quiet_host and u = "''ops''" and w = keyed_world
        and has_keys = "\<lambda>has_key. has_key"] keyed_guest_truthful by simp
qed

text \<open>
  The check relies on \<open>sudo_for\<close> noticing a refused escalation by its status. On a guest whose
  account needs a password, \<open>sudo -n\<close> is refused, but the command line ends in \<open>|| true\<close>, so the
  refusal is answered with status zero and no output: the password is never offered, the search
  never runs, and the check passes.
\<close>

definition refusing_guest :: "unit env" where
  "refusing_guest = quiet_env\<lparr>x_exec := \<lambda>_ _ cmd _ _ e.
     (Some (if startswith cmd ''sudo -n '' \<and> \<not> endswith cmd ''|| true'' then ExecDone 1 [] []
            else if startswith cmd ''sudo -S '' then ExecDone 0 ''/root/.ssh/authorized_keys'' []
            else ExecDone 0 [] []), 0, e)\<rparr>"

lemma verification_passes_when_refused:
  "case verify_no_authorized_keys refusing_guest quiet_host
     (quiet_world\<lparr>clients := \<lambda>_. True, environ := [(SUDO_PASSWORD_ENV, ''secret'')]\<rparr>) of (r, w') \<Rightarrow>
     r = Inr () \<and> trace w' = [EvExec ''10.0.0.5'' ''ops'' (''sudo -n '' @ find_keys_command) None (Some (ExecDone 0 [] []))]"
  by (simp add: verify_no_authorized_keys_def sudo_for_def run_run_for run_simps refusing_guest_def quiet_env_def
      quiet_world_def quiet_host_def sample_config_def startswith_def endswith_def find_keys_command_def words_def Let_def ok_def)

subsection \<open>Arming cloud-init\<close>

definition staged_at :: "string \<Rightarrow> string" where
  "staged_at remote_path = ''/tmp/'' @ path_name (path_of remote_path)"

definition dropin_written :: "remote_host \<Rightarrow> event list \<Rightarrow> string \<times> string \<Rightarrow> bool" where
  "dropin_written h es = (\<lambda>(p, body). delivered h (utf8_encode body) (staged_at p) 420 es
     \<and> done_as_root h (''install -m 0644 -o root -g root '' @ staged_at p @ '' '' @ p) es)"

lemma write_dropin_written:
  assumes "write_dropin x h d w = (Inr r, w')"
  shows "\<exists>es. trace w' = trace w @ es \<and> dropin_written h es d"
proof -
  obtain p body where d: "d = (p, body)" by (cases d)
  from assms obtain r1 v1 r2 v2 r3 v3 where
    1: "put_bytes x h (utf8_encode body) (staged_at p) 420 w = (Inr r1, v1)"
    and 2: "sudo x h (''install -m 0644 -o root -g root '' @ staged_at p @ '' '' @ p) True v1 = (Inr r2, v2)"
    and 3: "run x h (''rm -f '' @ staged_at p) False v2 = (Inr r3, v3)" and 4: "w' = v3"
    unfolding write_dropin_def d Let_def prod.case run_inv staged_at_def by blast
  obtain es1 where "trace v1 = trace w @ es1" "delivered h (utf8_encode body) (staged_at p) 420 es1"
    using put_bytes_delivered[OF 1] by blast
  moreover obtain es2 where "trace v2 = trace v1 @ es2"
    "done_as_root h (''install -m 0644 -o root -g root '' @ staged_at p @ '' '' @ p) es2" using sudo_done[OF 2] by blast
  moreover obtain es3 where "trace v3 = trace v2 @ es3" using emits_trace[OF emits_any_session(1) 3] by blast
  ultimately show ?thesis using 4
    by (intro exI[of _ "es1 @ es2 @ es3"]) (simp add: dropin_written_def d delivered_append)
qed

lemma dropin_written_append: "dropin_written h xs d \<Longrightarrow> dropin_written h (xs @ ys) d"
  "dropin_written h ys d \<Longrightarrow> dropin_written h (xs @ ys) d"
  by (auto simp: dropin_written_def delivered_append)

lemma dropins_written:
  "for_each ds (write_dropin x h) w = (Inr r, w') \<Longrightarrow> \<exists>es. trace w' = trace w @ es \<and> list_all (dropin_written h es) ds"
proof (induction ds arbitrary: w)
  case Nil
  then show ?case by (simp add: run_inv)
next
  case (Cons d ds)
  then obtain r1 v where 1: "write_dropin x h d w = (Inr r1, v)" and 2: "for_each ds (write_dropin x h) v = (Inr r, w')"
    by (auto simp: run_inv)
  obtain es fs where "trace v = trace w @ es" "dropin_written h es d" "trace w' = trace v @ fs"
    "list_all (dropin_written h fs) ds" using write_dropin_written[OF 1] Cons.IH[OF 2] by blast
  then show ?case
    by (intro exI[of _ "es @ fs"]) (auto simp: list_all_iff dropin_written_append)
qed

text \<open>The last three events: no opt-out is left, and both drop-ins read back as they must.\<close>

definition armed :: "remote_host \<Rightarrow> event list \<Rightarrow> bool" where
  "armed h es \<longleftrightarrow> (\<exists>before status left err datasource network es1 es2. es = before
     @ [EvExec (address h) (ssh_user (host_ssh h)) leftovers_command None (Some (ExecDone status left err))] @ es1 @ es2
     \<and> strip left = [] \<and> answered_last h (cat_command DATASOURCE_DROPIN) datasource es1 \<and> contains ''NoCloud'' datasource
     \<and> answered_last h (cat_command NETWORK_DROPIN) network es2 \<and> contains ''disabled'' network)"

lemma armed_append: "armed h ys \<Longrightarrow> armed h (xs @ ys)"
  unfolding armed_def by (metis append.assoc)

lemma run_answer: "run_for x h cmd c t w = (Inr res, w') \<Longrightarrow> trace w' = trace w
   @ [EvExec (address h) (ssh_user (host_ssh h)) cmd None (Some (ExecDone (exit_status res) (stdout res) (stderr res)))]"
  by (auto simp: run_run_for Let_def split: prod.splits option.splits exec_outcome.splits if_splits)

lemma verified_armed:
  assumes "verify_cloud_init_armed x h w = (Inr r, w')"
  shows "\<exists>es. trace w' = trace w @ es \<and> armed h es"
proof -
  from assms obtain r1 v1 r2 v2 r3 where
    1: "run x h leftovers_command False w = (Inr r1, v1)" "strip (stdout r1) = []"
    and 2: "sudo x h (cat_command DATASOURCE_DROPIN) False v1 = (Inr r2, v2)" "contains ''NoCloud'' (stdout r2)"
    and 3: "sudo x h (cat_command NETWORK_DROPIN) False v2 = (Inr r3, w')" "contains ''disabled'' (stdout r3)"
    unfolding verify_cloud_init_armed_def Let_def run_inv by (auto simp: run_inv split: if_splits)
  obtain es2 es3 where e: "trace v2 = trace v1 @ es2" "answered_last h (cat_command DATASOURCE_DROPIN) (stdout r2) es2"
    "trace w' = trace v2 @ es3" "answered_last h (cat_command NETWORK_DROPIN) (stdout r3) es3"
    using sudo_answered_last[OF 2(1)] sudo_answered_last[OF 3(1)] by blast
  let ?es = "[EvExec (address h) (ssh_user (host_ssh h)) leftovers_command None
    (Some (ExecDone (exit_status r1) (stdout r1) (stderr r1)))] @ es2 @ es3"
  have "armed h ?es" unfolding armed_def using 1(2) 2(2) 3(2) e
    by (intro exI[of _ "[]"] exI[of _ "exit_status r1"] exI[of _ "stdout r1"] exI[of _ "stderr r1"]
        exI[of _ "stdout r2"] exI[of _ "stdout r3"] exI[of _ es2] exI[of _ es3]) simp
  then show ?thesis using e run_answer[OF 1(1)] by (intro exI[of _ ?es]) simp
qed

lemma armed_image:
  assumes "arm_cloud_init x h w = (Inr r, w')"
  shows "\<exists>es1 es2. trace w' = trace w @ es1 @ es2
    \<and> done_as_root h (''rm -f '' @ CLOUD_INIT_DISABLED_FLAG @ '' '' @ INSTALLER_DROPIN) es1
    \<and> answered h ''cloud-init clean --logs --machine-id'' es1
    \<and> list_all (dropin_written h es2) dropins \<and> armed h es2"
proof -
  from assms obtain r1 v1 r2 v2 r3 v3 where
    1: "sudo x h (''rm -f '' @ CLOUD_INIT_DISABLED_FLAG @ '' '' @ INSTALLER_DROPIN) True w = (Inr r1, v1)"
    and 2: "sudo x h ''cloud-init clean --logs --machine-id'' False v1 = (Inr r2, v2)"
    and 3: "for_each dropins (write_dropin x h) v2 = (Inr r3, v3)"
    and 4: "verify_cloud_init_armed x h v3 = (Inr r, w')"
    unfolding arm_cloud_init_def run_inv by blast
  obtain es1 es2 es3 es4 where "trace v1 = trace w @ es1"
    "done_as_root h (''rm -f '' @ CLOUD_INIT_DISABLED_FLAG @ '' '' @ INSTALLER_DROPIN) es1"
    "trace v2 = trace v1 @ es2" "answered h ''cloud-init clean --logs --machine-id'' es2"
    "trace v3 = trace v2 @ es3" "list_all (dropin_written h es3) dropins"
    "trace w' = trace v3 @ es4" "armed h es4"
    using sudo_done[OF 1] sudo_answered[OF 2] dropins_written[OF 3] verified_armed[OF 4] by blast
  then show ?thesis
    by (intro exI[of _ "es1 @ es2"] exI[of _ "es3 @ es4"])
      (auto simp: list_all_iff dropin_written_append armed_append)
qed

text \<open>
  C23: an armed image configures itself. When it returns: the installer's two opt-outs were removed as
  root and cloud-init was told to forget the instance, and only after that, since cleaning deletes
  drop-ins, the datasource and network drop-ins were delivered and installed as root; the last three
  things seen were no opt-out left, a datasource drop-in naming \<open>NoCloud\<close> and a network drop-in
  that is disabled.
\<close>

theorem arm_cloud_init_verified:
  "case arm_cloud_init x h w of (r, w') \<Rightarrow>
     gives (\<lambda>_. \<exists>es1 es2. trace w' = trace w @ es1 @ es2
       \<and> done_as_root h (''rm -f '' @ CLOUD_INIT_DISABLED_FLAG @ '' '' @ INSTALLER_DROPIN) es1
       \<and> answered h ''cloud-init clean --logs --machine-id'' es1
       \<and> list_all (dropin_written h es2) dropins \<and> armed h es2) r
     \<and> fails_as account_exn r"
proof -
  have "fails_as account_exn (fst (arm_cloud_init x h w))" using throws_image(2) unfolding throws_def by blast
  then show ?thesis using armed_image[of x h w] by (cases "arm_cloud_init x h w") (simp add: gives_def)
qed

end
