(* ===== verification/Setup.thy ===== *)
theory Setup
  imports Image
begin

text \<open>
  \<^verbatim>\<open>src/vmdeploy/setup.py\<close>, third part: the local overlay and the three runs. Two values of an
  overlay need the standard library's texts, \<open>repr\<close> of a date and \<open>str\<close> of a key that is no string.
\<close>

subsection \<open>The local overlay\<close>

text \<open>\<open>repr(v)\<close> and \<open>str(v)\<close> of a TOML value, and the scalar that \<open>_emit_toml\<close> writes.\<close>

fun toml_repr :: "(string \<Rightarrow> string) \<Rightarrow> toml \<Rightarrow> string" where
  "toml_repr f (TStr s) = py_repr s"
| "toml_repr f (TInt n) = show_int n"
| "toml_repr f (TBool b) = (if b then ''True'' else ''False'')"
| "toml_repr f (TFloat s) = s"
| "toml_repr f (TDate s) = f s"
| "toml_repr f (TArr vs) = ''['' @ join '', '' (map (toml_repr f) vs) @ '']''"
| "toml_repr f (TTab kvs) =
     ''{'' @ join '', '' (map (\<lambda>(k, v). py_repr k @ '': '' @ toml_repr f v) kvs) @ ''}''"

fun toml_str :: "(string \<Rightarrow> string) \<Rightarrow> toml \<Rightarrow> string" where
  "toml_str f (TStr s) = s"
| "toml_str f (TDate s) = s"
| "toml_str f v = toml_repr f v"

fun render_value :: "(string \<Rightarrow> string) \<Rightarrow> toml \<Rightarrow> string" where
  "render_value f (TBool b) = (if b then ''true'' else ''false'')"
| "render_value f (TInt n) = show_int n"
| "render_value f v = c_dq # toml_str f v @ [c_dq]"

fun is_table :: "toml \<Rightarrow> bool" where
  "is_table (TTab _) = True"
| "is_table _ = False"

definition render_item :: "(string \<Rightarrow> string) \<Rightarrow> string \<times> toml \<Rightarrow> string" where
  "render_item f = (\<lambda>(key, val). key @ '' = '' @ render_value f val)"

fun table_lines :: "(string \<Rightarrow> string) \<Rightarrow> string \<times> toml \<Rightarrow> string list" where
  "table_lines f (table, TTab values) = (''['' @ table @ '']'') # map (render_item f) values @ ['''']"
| "table_lines f (table, v) = []"

definition emit_toml :: "(string \<Rightarrow> string) \<Rightarrow> toml dict \<Rightarrow> string" where
  "emit_toml f data =
     (let scalars = filter (\<lambda>(key, val). \<not> is_table val) data;
          tables = filter (\<lambda>(key, val). is_table val) data
      in strip (join [c_nl] (map (render_item f) scalars @ concat (map (table_lines f) tables))) @ [c_nl])"

text \<open>
  \<open>dict(existing.get("ssh", {}))\<close>: a table is copied; from any other iterable Python takes pairs, and
  anything else is an error.
\<close>

fun pair_of :: "(string \<Rightarrow> string) \<Rightarrow> nat \<Rightarrow> toml \<Rightarrow> exn + (string \<times> toml)" where
  "pair_of f i (TArr [TArr _, v]) = Inl (TypeError ''unhashable type: list'')"
| "pair_of f i (TArr [TTab _, v]) = Inl (TypeError ''unhashable type: dict'')"
| "pair_of f i (TArr [k, v]) = Inr (toml_str f k, v)"
| "pair_of f i (TStr [a, b]) = Inr ([a], TStr [b])"
| "pair_of f i (TTab [(a, _), (b, _)]) = Inr (a, TStr b)"
| "pair_of f i (TArr _) = Inl (ValueError ''dictionary update sequence element has the wrong length'')"
| "pair_of f i (TStr _) = Inl (ValueError ''dictionary update sequence element has the wrong length'')"
| "pair_of f i (TTab _) = Inl (ValueError ''dictionary update sequence element has the wrong length'')"
| "pair_of f i _ = Inl (TypeError ''cannot convert dictionary update sequence element to a sequence'')"

fun dict_of :: "(string \<Rightarrow> string) \<Rightarrow> toml \<Rightarrow> exn + toml dict" where
  "dict_of f (TTab t) = Inr t"
| "dict_of f (TArr vs) = sbind (map_err (pair_of f) 0 vs) (\<lambda>kvs. Inr (foldl (\<lambda>d (k, v). dset d k v) [] kvs))"
| "dict_of f (TStr s) = (if s = [] then Inr []
     else Inl (ValueError ''dictionary update sequence element has the wrong length''))"
| "dict_of f _ = Inl (TypeError ''object is not iterable'')"

definition overlay_header :: string where
  "overlay_header = ''# Local, machine-specific overrides. GITIGNORED, never committed.'' @ [c_nl]
     @ ''# [ssh] was written by `vmdeploy setup`; other sections are preserved.'' @ [c_nl, c_nl]"

definition read_overlay :: "'e env \<Rightarrow> path \<Rightarrow> ('e, toml dict) prog" where
  "read_overlay x overlay =
     bnd (catch (read_text_utf8 overlay) (\<lambda>e. if is_OSError e
            then Some (raise (VmDeployError (''Cannot read existing overlay '' @ path_str overlay
              @ '': '' @ exn_str e)))
            else None)) (\<lambda>t.
     case x_toml x t of
       Inl msg \<Rightarrow> raise (VmDeployError (''Cannot read existing overlay '' @ path_str overlay @ '': '' @ msg))
     | Inr doc \<Rightarrow> ret doc)"

definition new_identity :: "toml dict \<Rightarrow> string \<Rightarrow> path \<Rightarrow> toml dict" where
  "new_identity ssh_table username key_path =
     dset (dset ssh_table ''user'' (TStr username)) ''key_path'' (TStr (path_str key_path))"

definition existing_overlay :: "'e env \<Rightarrow> path \<Rightarrow> ('e, toml dict) prog" where
  "existing_overlay x overlay = bnd (is_file overlay) (\<lambda>present.
     if present then read_overlay x overlay else ret [])"

definition store_overlay ::
  "'e env \<Rightarrow> path \<Rightarrow> string \<Rightarrow> path \<Rightarrow> toml dict \<Rightarrow> ('e, path) prog" where
  "store_overlay x overlay username key_path existing =
     bnd (of_sum (dict_of (x_date_repr x) (case dget existing ''ssh'' of Some v \<Rightarrow> v | None \<Rightarrow> TTab [])))
       (\<lambda>ssh_table.
     let updated = dset existing ''ssh'' (TTab (new_identity ssh_table username key_path)) in
     andthen (catch (write_bytes overlay (utf8_encode (overlay_header @ emit_toml (x_date_repr x) updated)))
       (\<lambda>e. if is_OSError e
            then Some (raise (VmDeployError (''Cannot write local overlay '' @ path_str overlay
              @ '': '' @ exn_str e)))
            else None))
     (ret overlay))"

definition write_local_overlay :: "'e env \<Rightarrow> path \<Rightarrow> string \<Rightarrow> path \<Rightarrow> ('e, path) prog" where
  "write_local_overlay x base_config_path username key_path =
     (if path_name base_config_path = []
      then raise (ValueError (''PosixPath('' @ py_repr (path_str base_config_path) @ '') has an empty name''))
      else let overlay = local_overlay_path base_config_path in
        bnd (existing_overlay x overlay) (store_overlay x overlay username key_path))"

subsection \<open>The runs\<close>

definition template_address :: "'e env \<Rightarrow> cluster_config \<Rightarrow> path \<Rightarrow> ('e, string) prog" where
  "template_address x config exe =
     (let vb = cfg_virtualbox config; template = template_vm vb in
      bnd (vm_exists x exe template) (\<lambda>present.
      if \<not> present
      then raise (VmDeployError (''Template machine '' @ quoted template @ '' is not registered''))
      else andthen (start_headless x exe template)
        (bnd (wait_for_guest_ip x exe template template (boot_timeout_seconds vb)) (\<lambda>addr.
         andthen (wait_for_ssh x addr (cfg_ssh config) (boot_timeout_seconds vb)) (ret addr)))))"

definition restore_bootstrap ::
  "'e env \<Rightarrow> cluster_config \<Rightarrow> string \<Rightarrow> string \<Rightarrow> bool \<Rightarrow> ('e, unit) prog" where
  "restore_bootstrap x config username public_key leave_running =
     bnd (vboxmanage_init (vboxmanage (cfg_virtualbox config))) (\<lambda>exe.
     bnd (template_address x config exe) (\<lambda>addr.
     andthen (with_host x addr (cfg_ssh config) (\<lambda>h. enable_account x h username public_key))
     (only_if (\<not> leave_running) (power_off x exe (template_vm (cfg_virtualbox config))))))"

definition key_comment :: "string \<Rightarrow> string" where
  "key_comment new_user = new_user @ ''@vmdeploy''"

definition run_keys_only_setup ::
  "'e env \<Rightarrow> cluster_config \<Rightarrow> path \<Rightarrow> string \<Rightarrow> path \<Rightarrow> ('e, unit) prog" where
  "run_keys_only_setup x config base_config_path new_user new_key_path =
     bnd (generate_ssh_keypair x new_key_path (key_comment new_user)) (\<lambda>_.
     bnd (load_or_create_key (key_file (cfg_inventory config))) (\<lambda>_.
     bnd (write_local_overlay x base_config_path new_user new_key_path) (\<lambda>_. ret ())))"

text \<open>Steps 5 and 6 of \<open>run_setup\<close>: the new account disables the stock one, then the overlay.\<close>

definition retire ::
  "'e env \<Rightarrow> string \<Rightarrow> ssh_config \<Rightarrow> string \<Rightarrow> path \<Rightarrow> string \<Rightarrow> path \<Rightarrow> ('e, unit) prog" where
  "retire x addr cfg boot base u p =
     andthen (with_host x addr cfg (\<lambda>h. disable_bootstrap_account x h boot))
       (andthen (write_local_overlay x base u p) (ret ()))"

text \<open>Steps 3 to 6 of \<open>run_setup\<close>, with the template reached at \<open>addr\<close>.\<close>

definition harden ::
  "'e env \<Rightarrow> cluster_config \<Rightarrow> path \<Rightarrow> string \<Rightarrow> path \<Rightarrow> string \<Rightarrow> string \<Rightarrow> ('e, unit) prog" where
  "harden x config base_config_path new_user new_key_path public_key addr =
     (let new_ssh = (cfg_ssh config)\<lparr>ssh_user := new_user, ssh_key_path := new_key_path\<rparr> in
     andthen (with_host x addr (cfg_ssh config) (\<lambda>h. create_admin_user x h new_user public_key))
     (bnd (verify_admin_access x addr new_ssh) (\<lambda>verified.
      if \<not> verified
      then raise (VmDeployError (''New user '' @ quoted new_user @ '' could not log in with sudo; leaving the bootstrap ''
        @ ''account '' @ quoted (ssh_user (cfg_ssh config)) @ '' enabled. No changes to access were made.''))
      else retire x addr new_ssh (ssh_user (cfg_ssh config)) base_config_path new_user new_key_path)))"

definition run_setup ::
  "'e env \<Rightarrow> cluster_config \<Rightarrow> path \<Rightarrow> string \<Rightarrow> path \<Rightarrow> ('e, unit) prog" where
  "run_setup x config base_config_path new_user new_key_path =
     (if new_user = ssh_user (cfg_ssh config)
      then raise (VmDeployError (''new_user '' @ quoted new_user @ '' must differ from the bootstrap user ''
        @ quoted (ssh_user (cfg_ssh config))))
      else
     bnd (generate_ssh_keypair x new_key_path (key_comment new_user)) (\<lambda>public_key.
     bnd (load_or_create_key (key_file (cfg_inventory config))) (\<lambda>_.
     bnd (vboxmanage_init (vboxmanage (cfg_virtualbox config))) (\<lambda>exe.
     bnd (template_address x config exe) (\<lambda>addr.
     harden x config base_config_path new_user new_key_path public_key addr)))))"

section \<open>Effects\<close>

lemma emit_overlay: "evolves (emits P) (write_local_overlay x base u p)"
  unfolding write_local_overlay_def existing_overlay_def store_overlay_def read_overlay_def Let_def
  by (intro evolve_intros) (auto intro: evolve_intros split: if_splits)

lemma keep_overlay: "evolves (keeps_files (\<lambda>q. q \<noteq> local_overlay_path base)) (write_local_overlay x base u p)"
  unfolding write_local_overlay_def existing_overlay_def store_overlay_def read_overlay_def Let_def
  by (intro evolve_intros keep_write) (auto intro: evolve_intros split: if_splits)

lemma emit_vboxmanage_init: "evolves (emits P) (vboxmanage_init exe)"
  unfolding vboxmanage_init_def by (intro evolve_intros)

lemma emit_template_address:
  assumes "\<And>ev. at_machine (template_vm (cfg_virtualbox config)) ev \<Longrightarrow> P ev"
    and "\<And>ev a. awaits a (ssh_user (cfg_ssh config)) ev \<Longrightarrow> P ev"
  shows "evolves (emits P) (template_address x config exe)"
proof -
  have "evolves (emits P) (wait_for_ssh x a (cfg_ssh config) t)" for a t
    by (rule evolves_emits_mono[OF emit_wait_for_ssh assms(2)])
  then show ?thesis
    unfolding template_address_def Let_def
    by (intro evolve_intros evolves_emits_mono[OF host_vm.ev_vm_exists assms(1)]
        evolves_emits_mono[OF host_vm.ev_start_headless assms(1)]
        evolves_emits_mono[OF host_vm.ev_wait_for_guest_ip assms(1)])
qed

lemma keep_template_address: "evolves (keeps_files P) (template_address x config exe)"
  unfolding template_address_def Let_def by (intro evolve_intros)

section \<open>Properties\<close>

subsection \<open>The overlay\<close>

text \<open>The document an overlay file holds; no file is the empty document.\<close>

definition overlay_doc :: "'e env \<Rightarrow> bytes option \<Rightarrow> toml dict \<Rightarrow> bool" where
  "overlay_doc x content doc \<longleftrightarrow> (case content of
       None \<Rightarrow> doc = []
     | Some b \<Rightarrow> (\<exists>t. utf8_decode b = Some t \<and> x_toml x (universal_newlines t) = Inr doc))"

definition overlay_text :: "'e env \<Rightarrow> toml dict \<Rightarrow> toml dict \<Rightarrow> string \<Rightarrow> path \<Rightarrow> bytes" where
  "overlay_text x existing ssh_table u p = utf8_encode (overlay_header
     @ emit_toml (x_date_repr x) (dset existing ''ssh'' (TTab (new_identity ssh_table u p))))"

definition overlay_exn :: "exn \<Rightarrow> bool" where
  "overlay_exn e \<longleftrightarrow> is_VmDeployError e \<or> is_ValueError e \<or> (\<exists>s. e = TypeError s)"

lemma pair_of_exn: "fails_as overlay_exn (pair_of f i v)"
  by (rule pair_of.cases[of "(f, i, v)"]) (simp_all add: overlay_exn_def)

lemma dict_of_exn: "fails_as overlay_exn (dict_of f v)"
proof -
  have "fails_as overlay_exn (map_err (pair_of f) i vs)" for i vs
    by (induction vs arbitrary: i) (auto intro!: fails_as_sbind pair_of_exn)
  then show ?thesis
    by (cases v) (auto intro!: fails_as_sbind simp: overlay_exn_def)
qed

lemma overlay_run:
  "case write_local_overlay x base u p w of (r, w') \<Rightarrow>
     let overlay = local_overlay_path base in
     (case r of
        Inl e \<Rightarrow> overlay_exn e \<and> (w' = w \<or> (\<exists>b. w' = w\<lparr>files := (files w)(overlay \<mapsto> b)\<rparr>))
      | Inr q \<Rightarrow> q = overlay \<and> (\<exists>existing ssh_table. overlay_doc x (files w overlay) existing
          \<and> dict_of (x_date_repr x) (case dget existing ''ssh'' of Some v \<Rightarrow> v | None \<Rightarrow> TTab []) = Inr ssh_table
          \<and> w' = w\<lparr>files := (files w)(overlay \<mapsto> overlay_text x existing ssh_table u p)\<rparr>))"
proof (cases "path_name base = []")
  case True
  then show ?thesis by (simp add: write_local_overlay_def run_simps overlay_exn_def)
next
  case False
  let ?o = "local_overlay_path base"
  obtain r v where s: "existing_overlay x ?o w = (r, v)" by (cases "existing_overlay x ?o w")
  have sv: "v = w \<and> (case r of Inl e \<Rightarrow> overlay_exn e | Inr doc \<Rightarrow> overlay_doc x (files w ?o) doc)"
    using s
    by (auto simp: existing_overlay_def run_simps read_overlay_def read_text_utf8_def read_utf8_def read_bytes_def
        permission_denied_def overlay_doc_def overlay_exn_def split: option.splits if_splits sum.splits)
  have run: "write_local_overlay x base u p w = (case r of Inl e \<Rightarrow> (Inl e, w) | Inr doc \<Rightarrow> store_overlay x ?o u p doc w)"
    using s sv by (simp add: write_local_overlay_def False run_simps(3) Let_def split: sum.splits)
  show ?thesis
  proof (cases r)
    case (Inl e)
    then show ?thesis using sv by (simp add: run)
  next
    case (Inr doc)
    have "fails_as overlay_exn (dict_of (x_date_repr x) (case dget doc ''ssh'' of Some v \<Rightarrow> v | None \<Rightarrow> TTab []))"
      by (rule dict_of_exn)
    then show ?thesis using sv Inr
      by (auto simp: run store_overlay_def run_simps Let_def write_bytes_def permission_denied_def disk_full_def overlay_text_def
          overlay_exn_def split: sum.splits)
  qed
qed

subsection \<open>No lock-out\<close>

text \<open>A command of the series that disables account \<open>u\<close>, sent as root.\<close>

definition locks :: "string \<Rightarrow> event \<Rightarrow> bool" where
  "locks u ev = (case ev of
       EvExec _ _ c _ _ \<Rightarrow> list_ex (\<lambda>cmd. c = ''sudo -n '' @ cmd \<or> c = escalated cmd) (disable_commands u)
     | _ \<Rightarrow> False)"

text \<open>The guest at \<open>addr\<close> told user \<open>u\<close>, over its own session, that it reached root.\<close>

definition root_seen :: "string \<Rightarrow> string \<Rightarrow> event \<Rightarrow> bool" where
  "root_seen addr u ev = (case ev of
       EvExec a v c _ (Some (ExecDone status out _)) \<Rightarrow> a = addr \<and> v = u
         \<and> (c = ''sudo -n id -u'' \<or> c = escalated ''id -u'') \<and> status = 0 \<and> strip out = ''0''
     | _ \<Rightarrow> False)"

text \<open>No \<open>P\<close> event stands before the first \<open>Q\<close> event.\<close>

definition only_after :: "(event \<Rightarrow> bool) \<Rightarrow> (event \<Rightarrow> bool) \<Rightarrow> event list \<Rightarrow> bool" where
  "only_after P Q es \<longleftrightarrow> list_all (\<lambda>ev. \<not> P ev) (takeWhile (\<lambda>ev. \<not> Q ev) es)"

lemma only_after_prefix: "list_all (\<lambda>ev. \<not> P ev) xs \<Longrightarrow> only_after P Q ys \<Longrightarrow> only_after P Q (xs @ ys)"
  by (auto simp: only_after_def list_all_iff takeWhile_append dest: set_takeWhileD)

lemma only_after_seen: "list_all (\<lambda>ev. \<not> P ev) xs \<Longrightarrow> list_ex Q xs \<Longrightarrow> only_after P Q (xs @ ys)"
  by (auto simp: only_after_def list_all_iff list_ex_iff takeWhile_append dest: set_takeWhileD)

lemma only_after_none: "list_all (\<lambda>ev. \<not> P ev) xs \<Longrightarrow> only_after P Q xs"
  by (auto simp: only_after_def list_all_iff dest: set_takeWhileD)

lemma locks_quiet: "at_machine vm ev \<Longrightarrow> \<not> locks u ev" "awaits a v ev \<Longrightarrow> \<not> locks u ev"
  by (auto simp: locks_def at_machine_def awaits_def disable_commands_def escalated_def split: event.splits)

text \<open>A command that is none of the series, run plainly or as root.\<close>

lemma emit_unlocking:
  assumes "cmd \<notin> set (disable_commands u)"
  shows "evolves (emits (\<lambda>ev. \<not> locks u ev)) (sudo_for x h cmd c t)"
  by (rule emit_sudo) (use assms in \<open>auto simp: locks_def list_ex_iff escalated_def\<close>)

lemma emit_plain:
  assumes "\<not> startswith cmd ''sudo''"
  shows "evolves (emits (\<lambda>ev. \<not> locks u ev)) (run_for x h cmd c t)"
  by (rule emit_run) (use assms in \<open>auto simp: locks_def list_ex_iff escalated_def startswith_def\<close>)

lemma emit_put_bytes_unlocking: "evolves (emits (\<lambda>ev. \<not> locks u ev)) (put_bytes x h b p m)"
  unfolding put_bytes_def Let_def sftp_def client_def
  by (intro evolve_intros emit_ext_call emit_unlocking emit_plain)
    (simp_all add: locks_def disable_commands_def startswith_def)

lemma emit_create_unlocking:
  assumes "u \<noteq> boot"
  shows "evolves (emits (\<lambda>ev. \<not> locks boot ev)) (create_admin_user x h u key)"
  unfolding create_admin_user_def authorize_key_def grant_sudo_def
  by (intro evolve_intros emit_unlocking emit_plain emit_put_bytes_unlocking)
    (use assms in \<open>auto simp: disable_commands_def startswith_def sudoers_def intro: emit_unlocking\<close>)

lemma emit_session_of:
  assumes "\<And>out. P (EvConnect addr (ssh_user cfg) out)" "P (EvClose addr)"
    and body: "\<And>h. address h = addr \<Longrightarrow> host_ssh h = cfg \<Longrightarrow> evolves (emits P) (body h)"
  shows "evolves (emits P) (with_host x addr cfg body)"
proof (rule evolvesI)
  fix w :: "'a world"
  define h where "h = \<lparr>address = addr, host_ssh = cfg, host_id = next_host w\<rparr>"
  have a: "address h = addr" "host_ssh h = cfg" by (simp_all add: h_def)
  have "evolves (emits P) (andthen (connect x h) (always (body h) (close h)))"
    by (intro evolve_intros emit_connect emit_close_host body a) (simp_all add: a assms)
  then have "emits P (snd (new_host addr cfg w))
      (snd (andthen (connect x h) (always (body h) (close h)) (snd (new_host addr cfg w))))"
    by (simp add: evolves_def)
  then show "emits P w (snd (with_host x addr cfg body w))"
    by (simp add: with_host_def run_simps(3) new_host_def h_def emits_def)
qed

lemma emit_verify_unlocking: "evolves (emits (\<lambda>ev. \<not> locks u ev)) (verify_admin_access x addr cfg)"
  unfolding verify_admin_access_def
  by (intro evolve_intros emit_session_of emit_unlocking)
    (auto simp: locks_def disable_commands_def intro: evolve_intros split: if_splits)

lemma verified_root:
  assumes "verify_admin_access x addr cfg w = (Inr True, w')"
  shows "\<exists>es. trace w' = trace w @ es \<and> list_ex (root_seen addr (ssh_user cfg)) es"
proof -
  from assms have "with_host x addr cfg (\<lambda>h.
        bnd (sudo x h ''id -u'' False) (\<lambda>result. ret (ok result \<and> strip (stdout result) = ''0''))) w = (Inr True, w')"
    unfolding verify_admin_access_def by (auto simp: run_simps split: prod.splits sum.splits if_splits)
  from with_host_trace[OF this] obtain h v v' es where
    h: "address h = addr" "host_ssh h = cfg"
    and b: "bnd (sudo x h ''id -u'' False) (\<lambda>result. ret (ok result \<and> strip (stdout result) = ''0'')) v = (Inr True, v')"
    and t: "trace v = trace w @ [EvConnect addr (ssh_user cfg) (Some Connected)]" "trace w' = trace v' @ es" by blast
  from b obtain res where r: "sudo x h ''id -u'' False v = (Inr res, v')" "ok res" "strip (stdout res) = ''0''"
    by (auto simp: run_inv)
  obtain ds cc stdin where "trace v' = trace v @ ds @ [EvExec (address h) (ssh_user (host_ssh h)) cc stdin
      (Some (ExecDone (exit_status res) (stdout res) (stderr res)))]" "cc = ''sudo -n '' @ ''id -u'' \<or> cc = escalated ''id -u''"
    using sudo_answer[OF r(1)] by auto
  then show ?thesis using t h r(2,3)
    by (intro exI[of _ "[EvConnect addr (ssh_user cfg) (Some Connected)] @ ds @ [EvExec addr (ssh_user cfg) cc stdin
      (Some (ExecDone (exit_status res) (stdout res) (stderr res)))] @ es"]) (auto simp: root_seen_def ok_def)
qed

text \<open>The overlay names the new identity.\<close>

definition identity_stored :: "'e env \<Rightarrow> path \<Rightarrow> string \<Rightarrow> path \<Rightarrow> 'e world \<Rightarrow> bool" where
  "identity_stored x base u p w \<longleftrightarrow> (\<exists>existing ssh_table.
     files w (local_overlay_path base) = Some (overlay_text x existing ssh_table u p))"

definition disabled_by :: "string \<Rightarrow> string \<Rightarrow> string \<Rightarrow> event list \<Rightarrow> bool" where
  "disabled_by addr user boot es \<longleftrightarrow> (\<exists>h. address h = addr \<and> ssh_user (host_ssh h) = user
     \<and> list_all (\<lambda>cmd. answered h cmd es) (disable_commands boot))"

lemma disabled_by_append: "disabled_by a u b ys \<Longrightarrow> disabled_by a u b (xs @ ys)" "disabled_by a u b xs \<Longrightarrow> disabled_by a u b (xs @ ys)"
  unfolding disabled_by_def by (auto simp: list_all_iff)

lemma disabling:
  assumes "with_host x addr cfg (\<lambda>h. disable_bootstrap_account x h boot) w = (Inr r, w')"
  shows "\<exists>es. trace w' = trace w @ es \<and> disabled_by addr (ssh_user cfg) boot es"
proof -
  from with_host_trace[OF assms] obtain h v v' es where
    h: "address h = addr" "host_ssh h = cfg" and b: "disable_bootstrap_account x h boot v = (Inr r, v')"
    and t: "trace v = trace w @ [EvConnect addr (ssh_user cfg) (Some Connected)]" "trace w' = trace v' @ es" by blast
  obtain ds where ds: "trace v' = trace v @ ds" and "list_all (\<lambda>cmd. answered h cmd ds) (disable_commands boot)"
    using for_each_answered[OF b[unfolded disable_bootstrap_account_def]] by blast
  then have "disabled_by addr (ssh_user cfg) boot ds" unfolding disabled_by_def using h by blast
  then have "disabled_by addr (ssh_user cfg) boot ([EvConnect addr (ssh_user cfg) (Some Connected)] @ ds @ es)"
    by (intro disabled_by_append(1) disabled_by_append(2))
  then show ?thesis using t ds by (metis append.assoc)
qed

lemma retired:
  assumes "retire x addr cfg boot base u p w = (Inr r, w')"
  shows "\<exists>es. trace w' = trace w @ es \<and> disabled_by addr (ssh_user cfg) boot es \<and> identity_stored x base u p w'"
proof -
  from assms obtain r1 v q where
    1: "with_host x addr cfg (\<lambda>h. disable_bootstrap_account x h boot) w = (Inr r1, v)"
    and 2: "write_local_overlay x base u p v = (Inr q, w')"
    unfolding retire_def run_inv by blast
  have "trace w' = trace v \<and> identity_stored x base u p w'"
    using overlay_run[where x = x and base = base and u = u and p = p and w = v] 2 by (auto simp: identity_stored_def Let_def; blast)
  then show ?thesis using disabling[OF 1] by auto
qed

lemma emit_retire: "evolves (emits (\<lambda>_. True)) (retire x addr cfg boot base u p)"
  unfolding retire_def disable_bootstrap_account_def
  by (intro evolve_intros emit_session_of emit_overlay emits_any_session) simp_all

lemma keep_retire: "evolves (keeps_files (\<lambda>q. q \<noteq> local_overlay_path base)) (retire x addr cfg boot base u p)"
  unfolding retire_def by (intro evolve_intros keep_overlay)

lemma keep_create: "evolves (keeps_files P) (with_host x addr cfg (\<lambda>h. create_admin_user x h u key))"
  and keep_verify: "evolves (keeps_files P) (verify_admin_access x addr cfg)"
  unfolding verify_admin_access_def
  by (intro evolve_intros keep_guest.ev_create_admin_user, (intro evolve_intros; auto intro: evolve_intros split: if_splits)?)+

lemma keeps_files_all: "keeps_files (\<lambda>_. True) w w' \<Longrightarrow> files w' = files w"
  by (auto simp: keeps_files_def)

lemma harden_order:
  assumes ne: "u \<noteq> ssh_user (cfg_ssh config)" and run: "harden x config base u p key addr w = (r, w')"
  defines "boot \<equiv> ssh_user (cfg_ssh config)"
  shows "\<exists>es. trace w' = trace w @ es \<and> only_after (locks boot) (root_seen addr u) es
    \<and> (if list_ex (root_seen addr u) es then True else files w' = files w)
    \<and> (\<forall>q. q = local_overlay_path base \<or> files w' q = files w q)
    \<and> gives (\<lambda>_. disabled_by addr u boot es \<and> identity_stored x base u p w') r"
proof -
  let ?cfg = "(cfg_ssh config)\<lparr>ssh_user := u, ssh_key_path := p\<rparr>"
  let ?create = "with_host x addr (cfg_ssh config) (\<lambda>h. create_admin_user x h u key)"
  let ?verify = "verify_admin_access x addr ?cfg"
  let ?retire = "retire x addr ?cfg boot base u p"
  obtain r1 v1 where 1: "?create w = (r1, v1)" by (cases "?create w")
  obtain r2 v2 where 2: "?verify v1 = (r2, v2)" by (cases "?verify v1")
  obtain r3 v3 where 3: "?retire v2 = (r3, v3)" by (cases "?retire v2")
  have "evolves (emits (\<lambda>ev. \<not> locks boot ev)) ?create"
    using ne by (intro emit_session_of emit_create_unlocking) (simp_all add: locks_def boot_def)
  then obtain es1 where e1: "trace v1 = trace w @ es1" "list_all (\<lambda>ev. \<not> locks boot ev) es1"
    using 1 by (metis emits_trace)
  obtain es2 where e2: "trace v2 = trace v1 @ es2" "list_all (\<lambda>ev. \<not> locks boot ev) es2"
    using emits_trace[OF emit_verify_unlocking 2] by blast
  obtain es3 where e3: "trace v3 = trace v2 @ es3" using emits_trace[OF emit_retire 3] by blast
  have f: "files v1 = files w" "files v2 = files v1"
    using evolvesD[OF keep_create 1] evolvesD[OF keep_verify 2] by (simp_all add: keeps_files_all)
  have f3: "q = local_overlay_path base \<or> files v3 q = files v2 q" for q
    using evolvesD[OF keep_retire 3] unfolding keeps_files_def by blast
  have run': "harden x config base u p key addr w = (case r1 of Inl e \<Rightarrow> (Inl e, v1) | Inr _ \<Rightarrow>
      (case r2 of Inl e \<Rightarrow> (Inl e, v2) | Inr b \<Rightarrow> if b then (r3, v3) else
        (Inl (VmDeployError (''New user '' @ quoted u @ '' could not log in with sudo; leaving the bootstrap ''
        @ ''account '' @ quoted boot @ '' enabled. No changes to access were made.'')), v2)))"
    using 1 2 3 by (auto simp: harden_def run_simps(2,3,4) Let_def boot_def split: sum.splits)
  show ?thesis
  proof (cases "(\<exists>k. r1 = Inr k) \<and> r2 = Inr True")
    case True
    then have w: "r = r3" "w' = v3" using run run' by auto
    obtain es where "trace v2 = trace v1 @ es" "list_ex (root_seen addr (ssh_user ?cfg)) es"
      using verified_root[of x addr ?cfg v1 v2] 2 True by blast
    then have seen: "list_ex (root_seen addr u) es2" using e2 by simp
    have "only_after (locks boot) (root_seen addr u) (es1 @ es2 @ es3)"
      by (intro only_after_prefix e1 only_after_seen e2 seen)
    moreover have "disabled_by addr u boot (es1 @ es2 @ es3) \<and> identity_stored x base u p v3" if "r3 = Inr k" for k
      using retired[of x addr ?cfg boot base u p v2 k v3] 3 that e3 by (auto intro: disabled_by_append)
    ultimately show ?thesis using e1 e2 e3 w seen f f3
      by (intro exI[of _ "es1 @ es2 @ es3"]) (auto simp: gives_def)
  next
    case False
    then have w: "\<exists>e. r = Inl e" "w' = v1 \<or> w' = v2" using run run' by (auto split: sum.splits if_splits)
    then have "files w' = files w" using f by auto
    moreover have "only_after (locks boot) (root_seen addr u) es1" "only_after (locks boot) (root_seen addr u) (es1 @ es2)"
      using e1 e2 by (auto intro!: only_after_none)
    ultimately show ?thesis using w e1 e2 by (auto simp: gives_def)
  qed
qed

lemma emit_key_any: "evolves (emits P) (load_or_create_key k)"
  by (rule evolves_emits_mono[OF silent_key]) simp

lemma keep_key_file: "evolves (keeps_files (\<lambda>q. q \<noteq> k)) (load_or_create_key k)"
  using keep_host.ev_key[where W = "\<lambda>q. q = k", OF refl] .

lemma unlocking_stage:
  fixes boot :: string and x :: "'e env"
  shows "evolves (emits (\<lambda>ev. \<not> locks boot ev)) (template_address x config exe)"
  by (rule emit_template_address) (auto dest: locks_quiet)

definition reached_template :: "'e env \<Rightarrow> cluster_config \<Rightarrow> ('e, string) prog" where
  "reached_template x config =
     bnd (load_or_create_key (key_file (cfg_inventory config))) (\<lambda>_.
     bnd (vboxmanage_init (vboxmanage (cfg_virtualbox config))) (template_address x config))"

lemma run_setup_stages:
  assumes "u \<noteq> ssh_user (cfg_ssh config)"
  shows "run_setup x config base u p = bnd (generate_ssh_keypair x p (key_comment u)) (\<lambda>key.
    bnd (reached_template x config) (harden x config base u p key))"
  using assms by (simp add: run_setup_def reached_template_def bnd_assoc)

lemma run_setup_order:
  assumes run: "run_setup x config base u p w = (r, w')"
  shows "\<exists>addr es. trace w' = trace w @ es
    \<and> only_after (locks (ssh_user (cfg_ssh config))) (root_seen addr u) es
    \<and> (\<forall>q. q \<in> {p, public_half p, key_file (cfg_inventory config)} \<or> q = local_overlay_path base \<and> list_ex (root_seen addr u) es
         \<or> files w' q = files w q)
    \<and> gives (\<lambda>_. disabled_by addr u (ssh_user (cfg_ssh config)) es \<and> identity_stored x base u p w') r"
proof (cases "u = ssh_user (cfg_ssh config)")
  case True
  then show ?thesis using run by (auto simp: run_setup_def run_simps only_after_def)
next
  case ne: False
  let ?boot = "ssh_user (cfg_ssh config)"
  obtain r1 v1 where 1: "generate_ssh_keypair x p (key_comment u) w = (r1, v1)"
    by (cases "generate_ssh_keypair x p (key_comment u) w")
  obtain r2 v2 where 2: "reached_template x config v1 = (r2, v2)" by (cases "reached_template x config v1")
  have k: "trace v1 = trace w" "q = p \<or> q = public_half p \<or> files v1 q = files w q" for q
    using generate_keypair_run[where x = x and p = p and c = "key_comment u" and w = w] 1 by (auto split: if_splits)
  have "evolves (emits (\<lambda>ev. \<not> locks ?boot ev)) (reached_template x config)"
    unfolding reached_template_def by (intro evolve_intros emit_key_any emit_vboxmanage_init unlocking_stage)
  then obtain es2 where e2: "trace v2 = trace v1 @ es2" "list_all (\<lambda>ev. \<not> locks ?boot ev) es2"
    using 2 by (metis emits_trace)
  have "evolves (keeps_files (\<lambda>q. q \<noteq> key_file (cfg_inventory config))) (reached_template x config)"
    unfolding reached_template_def vboxmanage_init_def by (intro evolve_intros keep_key_file keep_template_address)
  then have f2: "q = key_file (cfg_inventory config) \<or> files v2 q = files v1 q" for q
    using 2 by (metis (mono_tags, lifting) evolvesD keeps_files_def)
  show ?thesis
  proof (cases "\<exists>key addr. r1 = Inr key \<and> r2 = Inr addr")
    case True
    then obtain key addr where ok: "r1 = Inr key" "r2 = Inr addr" by blast
    then have h: "harden x config base u p key addr v2 = (r, w')"
      using run 1 2 by (simp add: run_setup_stages[OF ne] run_simps(3))
    from harden_order[OF ne h] obtain es where es: "trace w' = trace v2 @ es"
      "only_after (locks ?boot) (root_seen addr u) es"
      "if list_ex (root_seen addr u) es then True else files w' = files v2"
      "\<forall>q. q = local_overlay_path base \<or> files w' q = files v2 q"
      "gives (\<lambda>_. disabled_by addr u ?boot es \<and> identity_stored x base u p w') r" by blast
    have "files w' q = files w q" if "q \<notin> {p, public_half p, key_file (cfg_inventory config)}"
      "\<not> (q = local_overlay_path base \<and> list_ex (root_seen addr u) (es2 @ es))" for q
      using that es(3,4) f2[of q] k(2)[of q] by (auto split: if_splits)
    moreover have "only_after (locks ?boot) (root_seen addr u) (es2 @ es)" by (rule only_after_prefix[OF e2(2) es(2)])
    moreover have "gives (\<lambda>_. disabled_by addr u ?boot (es2 @ es) \<and> identity_stored x base u p w') r"
      using es(5) by (auto simp: gives_def disabled_by_append)
    ultimately show ?thesis using es(1) e2 k(1) by (intro exI[of _ addr] exI[of _ "es2 @ es"]) auto
  next
    case False
    then have w: "\<exists>e. r = Inl e" "w' = v1 \<or> w' = v2" using run 1 2
      by (auto simp: run_setup_stages[OF ne] run_simps(3) split: sum.splits)
    then obtain es where "trace w' = trace w @ es" "list_all (\<lambda>ev. \<not> locks ?boot ev) es"
      using e2 k(1) that[of "[]"] that[of es2] by fastforce
    moreover have "q \<in> {p, public_half p, key_file (cfg_inventory config)} \<or> files w' q = files w q" for q
      using w(2) f2[of q] k(2)[of q] by auto
    ultimately show ?thesis using w(1)
      by (intro exI[of _ "''''"] exI[of _ es]) (auto simp: gives_def intro: only_after_none)
  qed
qed

text \<open>
  C7: setup never locks the operator out. Whatever happens, no command that disables the stock
  account is sent before the new account, over its own session with the same guest, was seen to
  reach root; until then the overlay is not written either, so the old identity stays in use. When
  setup returns, the new account gave all five disabling commands and each was answered, and the
  overlay names the new account. No other file of the host changes but the key pair and the
  registry key.
\<close>

theorem run_setup_no_lockout:
  "case run_setup x config base u p w of (r, w') \<Rightarrow>
     let boot = ssh_user (cfg_ssh config) in
     \<exists>addr es. trace w' = trace w @ es \<and> only_after (locks boot) (root_seen addr u) es
       \<and> (\<forall>q. q \<in> {p, public_half p, key_file (cfg_inventory config)}
            \<or> q = local_overlay_path base \<and> list_ex (root_seen addr u) es \<or> files w' q = files w q)
       \<and> gives (\<lambda>_. disabled_by addr u boot es \<and> identity_stored x base u p w') r"
proof -
  obtain r w' where "run_setup x config base u p w = (r, w')" by (cases "run_setup x config base u p w")
  with run_setup_order[OF this] show ?thesis by (simp only: prod.case Let_def)
qed

text \<open>
  The five commands are sent unchecked, but \<open>sudo_for\<close> takes a non-zero status for a refused
  escalation. On a guest whose stock account is not in group \<open>sudo\<close>, \<open>gpasswd -d\<close> fails as it must, a
  password is asked for, and the run ends with the account already locked, its keys still in place
  and the overlay never written.
\<close>

definition ungrouped_guest :: "unit env" where
  "ungrouped_guest = quiet_env\<lparr>x_exec := \<lambda>_ _ cmd _ _ e.
     (Some (if startswith cmd ''sudo -n gpasswd'' then ExecDone 3 [] ''not a member'' else ExecDone 0 [] []), 0, e)\<rparr>"

lemma disable_stops_half_way:
  "case disable_bootstrap_account ungrouped_guest quiet_host ''stock'' (quiet_world\<lparr>clients := \<lambda>_. True\<rparr>) of (r, w') \<Rightarrow>
     (\<exists>msg. r = Inl (SSHConnectionError msg)) \<and> length (trace w') = 3
     \<and> list_ex (\<lambda>ev. ev = EvExec ''10.0.0.5'' ''ops'' ''sudo -n usermod -L stock'' None (Some (ExecDone 0 [] []))) (trace w')"
  by (simp add: disable_bootstrap_account_def disable_commands_def sudo_for_def run_run_for run_simps
      sudo_password_def ungrouped_guest_def quiet_env_def quiet_world_def quiet_host_def sample_config_def
      startswith_def Let_def ok_def)

text \<open>A nested table of an overlay does not survive a rewrite: it becomes a quoted text.\<close>

lemma emit_toml_flattens:
  "emit_toml f [(''a'', TTab [(''b'', TTab [(''c'', TInt 1)])])] = ''[a]'' @ [c_nl] @ ''b = '' @ [c_dq] @ ''{'' @ [c_sq] @ ''c''
     @ [c_sq] @ '': 1}'' @ [c_dq] @ [c_nl]"
proof -
  have "show_int 1 = ''1''" and "py_repr ''c'' = [c_sq] @ ''c'' @ [c_sq]" by code_simp+
  then show ?thesis
    by (simp add: emit_toml_def render_item_def strip_def strip_by_def lstrip_by_def rstrip_by_def is_space_def)
qed

subsection \<open>Setup without a template\<close>

definition local_exn :: "exn \<Rightarrow> bool" where
  "local_exn e \<longleftrightarrow> is_VmDeployError e \<or> is_OSError e \<or> is_ValueError e \<or> (\<exists>s. e = TypeError s)"

lemma key_run:
  assumes "load_or_create_key k w = (r, w')"
  shows "trace w' = trace w" "q = k \<or> files w' q = files w q" "r = Inl e \<Longrightarrow> is_InventoryError e"
  using assms load_or_create_key_run[of k w] silentD[OF silent_key assms] by (auto split: if_splits)

lemma overlay_effects:
  assumes "write_local_overlay x base u p w = (r, w')"
  shows "trace w' = trace w \<and> (\<forall>q. q = local_overlay_path base \<or> files w' q = files w q)
    \<and> fails_as overlay_exn r \<and> gives (\<lambda>_. identity_stored x base u p w') r"
proof (cases r)
  case (Inl e)
  then show ?thesis
    using overlay_run[where x = x and base = base and u = u and p = p and w = w] assms by (auto split: if_splits)
next
  case (Inr q)
  then obtain existing ssh_table where
    "w' = w\<lparr>files := (files w)(local_overlay_path base \<mapsto> overlay_text x existing ssh_table u p)\<rparr>"
    using overlay_run[where x = x and base = base and u = u and p = p and w = w] assms by (auto simp: Let_def)
  then show ?thesis using Inr unfolding identity_stored_def by auto
qed

text \<open>
  C33: setting up from a published image stays local. Nothing leaves the process, no file changes but
  the key pair, the registry key and the overlay, and when it returns the overlay names the new
  account. Its failures are program errors, file errors of the key pair, and the errors of an
  overlay or key file that is not the text it should be.
\<close>

theorem run_keys_only_setup_local:
  "case run_keys_only_setup x config base u p w of (r, w') \<Rightarrow>
     trace w' = trace w
     \<and> (\<forall>q. q \<in> {p, public_half p, key_file (cfg_inventory config), local_overlay_path base} \<or> files w' q = files w q)
     \<and> gives (\<lambda>_. identity_stored x base u p w') r \<and> fails_as local_exn r"
proof -
  let ?k = "key_file (cfg_inventory config)"
  obtain r1 v1 where 1: "generate_ssh_keypair x p (key_comment u) w = (r1, v1)"
    by (cases "generate_ssh_keypair x p (key_comment u) w")
  obtain r2 v2 where 2: "load_or_create_key ?k v1 = (r2, v2)" by (cases "load_or_create_key ?k v1")
  obtain r3 v3 where 3: "write_local_overlay x base u p v2 = (r3, v3)" by (cases "write_local_overlay x base u p v2")
  have k: "trace v1 = trace w" "q = p \<or> q = public_half p \<or> files v1 q = files w q" "r1 = Inl e \<Longrightarrow> local_exn e" for q e
    using generate_keypair_run[where x = x and p = p and c = "key_comment u" and w = w] 1
    by (auto simp: local_exn_def keypair_exn_def split: if_splits)
  have k2: "r2 = Inl e \<Longrightarrow> local_exn e" for e
    using key_run(3)[OF 2] by (simp add: local_exn_def subclass_VmDeployError)
  have k3: "trace v3 = trace v2" "q = local_overlay_path base \<or> files v3 q = files v2 q"
    "fails_as local_exn r3" "gives (\<lambda>_. identity_stored x base u p v3) r3" for q
    using overlay_effects[OF 3] by (auto simp: local_exn_def overlay_exn_def fails_as_def)
  have run: "run_keys_only_setup x config base u p w = (case r1 of Inl e \<Rightarrow> (Inl e, v1) | Inr _ \<Rightarrow>
      (case r2 of Inl e \<Rightarrow> (Inl e, v2) | Inr _ \<Rightarrow> (case r3 of Inl e \<Rightarrow> (Inl e, v3) | Inr _ \<Rightarrow> (Inr (), v3))))"
    using 1 2 3 by (auto simp: run_keys_only_setup_def run_simps(1,3) split: sum.splits)
  have "files v3 q = files w q" "files v2 q = files w q"
    if "q \<notin> {p, public_half p, ?k, local_overlay_path base}" for q
    using that k(2)[of q] key_run(2)[OF 2, of q] k3(2)[of q] by auto
  moreover have "files v1 q = files w q" if "q \<notin> {p, public_half p, ?k, local_overlay_path base}" for q
    using that k(2)[of q] by auto
  ultimately show ?thesis using k(1,3) k2 k3(1,3,4) key_run(1)[OF 2]
    by (auto simp: run split: sum.splits)
qed

end
