(* ===== verification/Provision.thy ===== *)
theory Provision
  imports Setup
begin

text \<open>
  \<^verbatim>\<open>src/vmdeploy/provision.py\<close>: the golden template, the guests and the life of the cluster. The
  \<open>VBoxManage\<close> object is its executable \<open>exe\<close>. The readiness probe is \<open>x_http\<close> of the environment.
\<close>

definition READINESS_POLL_MS :: int where "READINESS_POLL_MS = 3000"
definition PREBAKE_SNAPSHOT :: string where "PREBAKE_SNAPSHOT = ''vmdeploy-prebake''"

subsection \<open>The golden template\<close>

definition template_missing :: "'e env \<Rightarrow> path \<Rightarrow> string \<Rightarrow> ('e, unit) prog" where
  "template_missing x exe template = bnd (list_vms x exe) (\<lambda>names.
     raise (VmDeployError (''Template machine '' @ quoted template @ '' is not registered with VirtualBox; ''
       @ ''registered machines: '' @ py_repr_list names)))"

definition export_golden_template :: "'e env \<Rightarrow> path \<Rightarrow> cluster_config \<Rightarrow> ('e, unit) prog" where
  "export_golden_template x exe config =
     (let template = template_vm (cfg_virtualbox config) in
     bnd (vm_exists x exe template) (\<lambda>present.
     if \<not> present then template_missing x exe template
     else andthen (power_off x exe template)
       (export_appliance x exe template (template_ova (cfg_virtualbox config)))))"

text \<open>The guarded part of \<open>build_golden_template\<close>, its \<open>finally\<close>, and what precedes both.\<close>

definition bake_template :: "'e env \<Rightarrow> path \<Rightarrow> cluster_config \<Rightarrow> path \<Rightarrow> ('e, unit) prog" where
  "bake_template x exe config source_dir =
     (let vb = cfg_virtualbox config; template = template_vm vb in
     andthen (start_headless x exe template)
     (bnd (wait_for_guest_ip x exe template template (boot_timeout_seconds vb)) (\<lambda>addr.
     andthen (wait_for_ssh x addr (cfg_ssh config) (boot_timeout_seconds vb))
     (andthen (with_host x addr (cfg_ssh config) (\<lambda>h.
        andthen (prepare_template x h config source_dir)
        (andthen (sanitize_image x h (ssh_user (cfg_ssh config)))
        (arm_cloud_init x h))))
     (andthen (power_off x exe template)
     (export_appliance x exe template (template_ova vb)))))))"

definition roll_back :: "'e env \<Rightarrow> path \<Rightarrow> string \<Rightarrow> ('e, unit) prog" where
  "roll_back x exe template =
     andthen (power_off x exe template)
     (andthen (restore_snapshot x exe template PREBAKE_SNAPSHOT)
     (delete_snapshot x exe template PREBAKE_SNAPSHOT))"

definition snapshot_template :: "'e env \<Rightarrow> path \<Rightarrow> string \<Rightarrow> ('e, unit) prog" where
  "snapshot_template x exe template =
     bnd (vm_exists x exe template) (\<lambda>present.
     if \<not> present then template_missing x exe template
     else andthen (power_off x exe template) (take_snapshot x exe template PREBAKE_SNAPSHOT))"

definition build_golden_template ::
  "'e env \<Rightarrow> path \<Rightarrow> cluster_config \<Rightarrow> path \<Rightarrow> ('e, unit) prog" where
  "build_golden_template x exe config source_dir =
     (let template = template_vm (cfg_virtualbox config) in
     andthen (snapshot_template x exe template)
       (always (bake_template x exe config source_dir) (roll_back x exe template)))"

subsection \<open>One guest\<close>

definition seed_directory :: "cluster_config \<Rightarrow> path" where
  "seed_directory config = path_join (path_parent (template_ova (cfg_virtualbox config))) ''seeds''"

definition deployer_public_key :: "cluster_config \<Rightarrow> ('e, string) prog" where
  "deployer_public_key config =
     (let private_path = ssh_key_path (cfg_ssh config) in
     if path_name private_path = []
     then raise (ValueError (''PosixPath('' @ py_repr (path_str private_path) @ '') has an empty name''))
     else let public_path = public_half private_path in
       catch (bnd (read_text_ascii public_path) (\<lambda>t. ret (strip t)))
         (\<lambda>e. if is_OSError e
              then Some (raise (VmDeployError (''Cannot read the deployer public key at '' @ path_str public_path
                @ '': '' @ exn_str e @ ''. Guests take their only login from this key; ''
                @ ''run '' @ quoted ''vmdeploy setup'' @ '' to generate one.'')))
              else None))"

definition wait_for_cloud_init :: "'e env \<Rightarrow> remote_host \<Rightarrow> int \<Rightarrow> ('e, unit) prog" where
  "wait_for_cloud_init x guest timeout_seconds =
     bnd (run_for x guest ''cloud-init status --wait --long || true'' False (Some timeout_seconds)) (\<lambda>result.
     let report = strip (stdout result) in
     if \<not> contains ''status: done'' report
     then raise (VmDeployError (''cloud-init did not finish on '' @ address guest @ ''; it reported:'' @ [c_nl]
       @ report @ [c_nl] @ ''The guest booted but may not have applied its seed.''))
     else ret ())"

text \<open>The seed of a guest: built beside the template's image, then inserted.\<close>

definition seed_of :: "cluster_config \<Rightarrow> host_config \<Rightarrow> path" where
  "seed_of config host = path_join (seed_directory config) (vm_name host @ ''-seed.iso'')"

definition write_seed :: "'e env \<Rightarrow> cluster_config \<Rightarrow> host_config \<Rightarrow> ('e, unit) prog" where
  "write_seed x config host =
     bnd (deployer_public_key config) (\<lambda>key.
     andthen (build_seed_iso x (seed_of config host) (hostname host) (ssh_user (cfg_ssh config)) key None) (ret ()))"

definition insert_seed :: "'e env \<Rightarrow> path \<Rightarrow> cluster_config \<Rightarrow> host_config \<Rightarrow> ('e, unit) prog" where
  "insert_seed x exe config host =
     andthen (write_seed x config host) (attach_optical x exe (vm_name host) (seed_of config host))"

text \<open>The last part of \<open>provision_host\<close>: the guest's own report, over its first session.\<close>

definition check_identity :: "'e env \<Rightarrow> cluster_config \<Rightarrow> host_config \<Rightarrow> remote_host \<Rightarrow> ('e, unit) prog" where
  "check_identity x config host guest =
     andthen (wait_for_cloud_init x guest (boot_timeout_seconds (cfg_virtualbox config)))
     (bnd (remote_hostname x guest) (\<lambda>actual.
     if actual \<noteq> hostname host
     then raise (VmDeployError (vm_name host @ '' reports hostname '' @ quoted actual @ '' after provisioning, ''
       @ ''expected '' @ quoted (hostname host) @ ''. The cloud-init seed was not applied.''))
     else ret ()))"

definition import_host :: "'e env \<Rightarrow> path \<Rightarrow> cluster_config \<Rightarrow> host_config \<Rightarrow> ('e, unit) prog" where
  "import_host x exe config host =
     (let vb = cfg_virtualbox config; vm = vm_name host in
     bnd (bridge_interface_of x exe (template_vm vb)) (\<lambda>bridge.
     andthen (destroy x exe vm)
     (andthen (import_appliance x exe (template_ova vb) vm)
     (andthen (configure x exe vm (memory_mb vb) (cpus vb))
     (only_if (bridge \<noteq> []) (set_bridge_adapter x exe vm bridge))))))"

text \<open>From the start of the machine on.\<close>

definition boot_host :: "'e env \<Rightarrow> path \<Rightarrow> cluster_config \<Rightarrow> host_config \<Rightarrow> ('e, string) prog" where
  "boot_host x exe config host =
     (let timeout = boot_timeout_seconds (cfg_virtualbox config); vm = vm_name host in
     andthen (start_headless x exe vm)
     (bnd (wait_for_guest_ip x exe vm (hostname host) timeout) (\<lambda>addr.
     andthen (wait_for_ssh x addr (cfg_ssh config) timeout)
     (andthen (with_host x addr (cfg_ssh config) (check_identity x config host))
     (ret addr)))))"

definition provision_host ::
  "'e env \<Rightarrow> path \<Rightarrow> cluster_config \<Rightarrow> host_config \<Rightarrow> ('e, string) prog" where
  "provision_host x exe config host =
     andthen (import_host x exe config host)
     (andthen (insert_seed x exe config host)
     (boot_host x exe config host))"

subsection \<open>The cluster\<close>

definition endpoints :: "cluster_config \<Rightarrow> string \<Rightarrow> (string \<times> string) list" where
  "endpoints config jump_address =
     [(''http://'' @ jump_address @ ''/'', ''load balancer''),
      (''http://'' @ jump_address @ '':'' @ show_int (service_port (cfg_inventory config)) @ ''/healthz'',
       ''inventory service'')]"

definition http_get :: "'e env \<Rightarrow> string \<Rightarrow> ('e, http_outcome) prog" where
  "http_get x url = ext_call (EvHttp url) (x_http x url 10)"

text \<open>\<open>response.ok\<close>\<close>

definition http_ok :: "int \<Rightarrow> bool" where
  "http_ok status \<longleftrightarrow> \<not> (400 \<le> status \<and> status < 600)"

text \<open>What one probe found: nothing to report, or the error to remember.\<close>

fun probe_error :: "http_outcome \<Rightarrow> string option" where
  "probe_error (HttpDone status reason body) = (if http_ok status then None else Some (''HTTP '' @ show_int status))"
| "probe_error (HttpCut status reason part msg) = Some msg"
| "probe_error (HttpFailed msg) = Some msg"

function await_endpoint ::
  "'e env \<Rightarrow> string \<Rightarrow> string \<Rightarrow> int \<Rightarrow> int \<Rightarrow> string \<Rightarrow> ('e, unit) prog" where
  "await_endpoint x url label timeout_seconds deadline last_error w =
     (if clock w < deadline then
        (case http_get x url w of
           (Inl e, v) \<Rightarrow> (Inl e, v)
         | (Inr out, v) \<Rightarrow>
             (case probe_error out of
                None \<Rightarrow> (Inr (), v)
              | Some error \<Rightarrow>
                  (case sleep x READINESS_POLL_MS v of
                     (Inl e, u) \<Rightarrow> (Inl e, u)
                   | (Inr _, u) \<Rightarrow> await_endpoint x url label timeout_seconds deadline error u)))
      else raise (ProvisioningTimeoutError (''The '' @ label @ '' at '' @ url
        @ '' did not become ready within '' @ show_int timeout_seconds @ ''s; ''
        @ ''last error: '' @ last_error)) w)"
  by pat_completeness auto
termination
proof (relation "measure (\<lambda>(x, url, label, t, deadline, l, w). nat (deadline - clock w))", goal_cases)
  case 1
  then show ?case by simp
next
  case (2 x url label t deadline l w a v out e c u k)
  then have "clock w \<le> clock v"
    using evolvesD[OF clk_ops(1)] unfolding http_get_def by (metis clock_le_def)
  moreover have "clock v + READINESS_POLL_MS \<le> clock u" using 2 by (metis sleep_advances)
  ultimately show ?case using 2(1) by (simp add: READINESS_POLL_MS_def)
qed

declare await_endpoint.simps [simp del]

definition wait_for_cluster_ready ::
  "'e env \<Rightarrow> cluster_config \<Rightarrow> string \<Rightarrow> int \<Rightarrow> ('e, unit) prog" where
  "wait_for_cluster_ready x config jump_address timeout_seconds =
     bnd monotonic (\<lambda>now.
     let deadline = now + 1000 * timeout_seconds in
     for_each (endpoints config jump_address) (\<lambda>(url, label).
       await_endpoint x url label timeout_seconds deadline ''no attempt completed''))"

definition provision_cluster :: "'e env \<Rightarrow> path \<Rightarrow> cluster_config \<Rightarrow> ('e, string dict) prog" where
  "provision_cluster x exe config =
     fold_prog (\<lambda>host addresses. bnd (provision_host x exe config host)
         (\<lambda>addr. ret (dset addresses (hostname host) addr)))
       (all_hosts config) []"

definition teardown_cluster :: "'e env \<Rightarrow> path \<Rightarrow> cluster_config \<Rightarrow> ('e, unit) prog" where
  "teardown_cluster x exe config = for_each (all_hosts config) (\<lambda>host. destroy x exe (vm_name host))"

text \<open>The address of one guest, added to those found so far.\<close>

definition add_address ::
  "'e env \<Rightarrow> path \<Rightarrow> host_config \<Rightarrow> string dict \<Rightarrow> ('e, string dict) prog" where
  "add_address x exe host addresses =
     bnd (vm_state_of x exe (vm_name host)) (\<lambda>s.
     if s \<noteq> RUNNING then ret addresses
     else catch (bnd (wait_for_guest_ip x exe (vm_name host) (hostname host) 30)
                  (\<lambda>addr. ret (dset addresses (hostname host) addr)))
            (\<lambda>e. if is_ProvisioningTimeoutError e then Some (ret addresses) else None))"

definition cluster_addresses :: "'e env \<Rightarrow> path \<Rightarrow> cluster_config \<Rightarrow> ('e, string dict) prog" where
  "cluster_addresses x exe config = fold_prog (add_address x exe) (all_hosts config) []"

section \<open>Effects\<close>

lemma hosts_only:
  "at_address a ev \<Longrightarrow> only_machines V ev" "awaits a u ev \<Longrightarrow> only_machines V ev"
  "at_or_http a ev \<Longrightarrow> only_machines V ev"
  by (auto simp: at_address_def awaits_def at_or_http_def only_machines_def split: event.splits)

lemma machine_only: "at_machine vm ev \<Longrightarrow> V vm \<Longrightarrow> only_machines V ev"
  by (auto simp: at_machine_def only_machines_def concerns_def split: event.splits option.splits)

lemma emit_machine:
  assumes "V vm"
  shows "evolves (emits (only_machines V)) (vm_exists x exe vm)"
    "evolves (emits (only_machines V)) (vm_state_of x exe vm)"
    "evolves (emits (only_machines V)) (power_off_within x exe vm n)"
    "evolves (emits (only_machines V)) (destroy_within x exe vm a)"
    "evolves (emits (only_machines V)) (import_appliance x exe p vm)"
    "evolves (emits (only_machines V)) (configure x exe vm i j)"
    "evolves (emits (only_machines V)) (set_bridge_adapter x exe vm b)"
    "evolves (emits (only_machines V)) (start_headless x exe vm)"
    "evolves (emits (only_machines V)) (attach_optical x exe vm p)"
    "evolves (emits (only_machines V)) (take_snapshot x exe vm s)"
    "evolves (emits (only_machines V)) (restore_snapshot x exe vm s)"
    "evolves (emits (only_machines V)) (delete_snapshot x exe vm s)"
    "evolves (emits (only_machines V)) (wait_for_guest_ip x exe vm host t)"
  by (rule evolves_emits_mono[where P = "at_machine vm"];
      (rule host_vm.ev_vm_exists host_vm.ev_vm_state_of host_vm.ev_power_off host_vm.ev_destroy
        host_vm.ev_import_appliance host_vm.ev_configure host_vm.ev_start_headless host_vm.ev_optical host_vm.ev_snapshots
        host_vm.ev_wait_for_guest_ip | simp add: machine_only assms))+

lemma emit_machine_free:
  "evolves (emits (only_machines V)) (list_vms x exe)" "evolves (emits (only_machines V)) (bridge_interface_of x exe vm)"
  "evolves (emits (only_machines V)) (export_appliance x exe vm p)"
  "evolves (emits (only_machines V)) (wait_for_ssh x addr cfg t)"
proof -
  have call: "mutates args = None \<Longrightarrow> evolves (emits (only_machines V)) (vbox_run x exe args c t)" for args c t
    by (rule emit_vbox_run) (simp add: only_machines_def)
  show "evolves (emits (only_machines V)) (list_vms x exe)" "evolves (emits (only_machines V)) (bridge_interface_of x exe vm)"
    "evolves (emits (only_machines V)) (export_appliance x exe vm p)"
    unfolding list_vms_def bridge_interface_of_def export_appliance_def vm_state_of_def
    by (intro evolve_intros call; simp)+
  show "evolves (emits (only_machines V)) (wait_for_ssh x addr cfg t)"
    by (rule evolves_emits_mono[OF emit_wait_for_ssh]) (rule hosts_only)
qed

lemma emit_session_only:
  "(\<And>h. evolves (emits (only_machines V)) (body h)) \<Longrightarrow> evolves (emits (only_machines V)) (with_host x addr cfg body)"
  by (rule emit_with_host) (auto intro: hosts_only)

lemma emit_guest_only:
  "evolves (emits (only_machines V)) (prepare_template x h config d)"
  "evolves (emits (only_machines V)) (sanitize_image x h u)" "evolves (emits (only_machines V)) (arm_cloud_init x h)"
  "evolves (emits (only_machines V)) (run_for x h cmd c t)"
  by (rule evolves_emits_mono[OF emit_host.ev_prepare_template] evolves_emits_mono[OF emit_guest.ev_sanitize]
      evolves_emits_mono[OF emit_guest.ev_arm_cloud_init] evolves_emits_mono[OF emit_guest.ev_run]; simp add: hosts_only)+

lemma emit_build_seed: "evolves (emits P) (build_seed_iso x dest h u k i)"
  unfolding build_seed_iso_def
  by (intro evolve_intros) (auto intro!: evolve_intros split: option.splits sum.splits if_splits)

lemma emit_deployer_key: "evolves (emits P) (deployer_public_key config)"
  unfolding deployer_public_key_def Let_def
  by (intro evolve_intros) (auto intro!: evolve_intros split: if_splits)

lemma emit_import_host: "evolves (emits (only_machines ((=) (vm_name host)))) (import_host x exe config host)"
  unfolding import_host_def Let_def by (intro evolve_intros emit_machine emit_machine_free refl)

lemma emit_insert_seed: "evolves (emits (only_machines ((=) (vm_name host)))) (insert_seed x exe config host)"
  unfolding insert_seed_def write_seed_def
  by (intro evolve_intros emit_machine emit_build_seed emit_deployer_key refl)

lemma emit_boot_host: "evolves (emits (only_machines ((=) (vm_name host)))) (boot_host x exe config host)"
  unfolding boot_host_def check_identity_def wait_for_cloud_init_def remote_hostname_def Let_def
  by (intro evolve_intros emit_machine emit_machine_free emit_session_only emit_guest_only refl)

lemma emit_provision_host: "evolves (emits (only_machines ((=) (vm_name host)))) (provision_host x exe config host)"
  unfolding provision_host_def by (intro evolve_intros emit_import_host emit_insert_seed emit_boot_host)

lemma emit_build_template:
  "evolves (emits (only_machines ((=) (template_vm (cfg_virtualbox config))))) (build_golden_template x exe config d)"
  unfolding build_golden_template_def snapshot_template_def bake_template_def roll_back_def template_missing_def Let_def
  by (intro evolve_intros emit_machine emit_machine_free emit_session_only emit_guest_only refl)

lemma emit_cluster:
  assumes "\<And>h. h \<in> set (all_hosts config) \<Longrightarrow> V (vm_name h)"
  shows "evolves (emits (only_machines V)) (provision_cluster x exe config)"
    "evolves (emits (only_machines V)) (teardown_cluster x exe config)"
    "evolves (emits (only_machines V)) (cluster_addresses x exe config)"
proof -
  have mono: "only_machines ((=) (vm_name h)) ev \<Longrightarrow> h \<in> set (all_hosts config) \<Longrightarrow> only_machines V ev" for h ev
    using assms by (auto simp: only_machines_def split: event.splits option.splits)
  show "evolves (emits (only_machines V)) (provision_cluster x exe config)"
    unfolding provision_cluster_def
    by (intro evolve_intros evolves_emits_mono[OF emit_provision_host]) (rule mono)
  show "evolves (emits (only_machines V)) (teardown_cluster x exe config)"
    unfolding teardown_cluster_def by (intro evolve_intros emit_machine assms)
  show "evolves (emits (only_machines V)) (cluster_addresses x exe config)"
    unfolding cluster_addresses_def add_address_def
    by (intro evolve_intros emit_machine assms) (auto intro: evolve_intros split: if_splits)
qed

section \<open>Properties\<close>

subsection \<open>The life of the cluster\<close>

text \<open>An event that changes no machine but the cluster's own, and not the template.\<close>

definition cluster_only :: "cluster_config \<Rightarrow> event \<Rightarrow> bool" where
  "cluster_only config = only_machines (\<lambda>vm. vm \<noteq> template_vm (cfg_virtualbox config)
     \<and> vm \<in> set (map vm_name (all_hosts config)))"

text \<open>
  C19: the cluster's operations never touch the template. In a configuration whose machine names are
  told apart, which loading checks, neither provisioning nor tearing down nor looking up addresses
  changes any machine but the cluster's own, so the template is not stopped, altered or deleted.
\<close>

theorem cluster_spares_template:
  assumes "distinct_machines config"
  shows "emits (cluster_only config) w (snd (provision_cluster x exe config w))
    \<and> emits (cluster_only config) w (snd (teardown_cluster x exe config w))
    \<and> emits (cluster_only config) w (snd (cluster_addresses x exe config w))"
proof -
  have "vm_name h \<noteq> template_vm (cfg_virtualbox config) \<and> vm_name h \<in> set (map vm_name (all_hosts config))"
    if "h \<in> set (all_hosts config)" for h
    using assms that unfolding distinct_machines_def by (metis image_eqI set_map)
  note e = emit_cluster[where V = "\<lambda>vm. vm \<noteq> template_vm (cfg_virtualbox config)
    \<and> vm \<in> set (map vm_name (all_hosts config))", OF this]
  show ?thesis using e unfolding evolves_def cluster_only_def by blast
qed

theorem cluster_spares_template_witness:
  "emits (cluster_only sample_config) quiet_world (snd (teardown_cluster quiet_env (Path ''/'' [''vbox'']) sample_config quiet_world))"
  using cluster_spares_template[of sample_config quiet_world] sample_valid unfolding valid_config_def by blast

text \<open>
  Tearing down is complete or it fails. When it returns, each of the cluster's machines was, when
  its turn came, last seen absent from the list of registered machines; failures are those of the
  hypervisor, a timeout or an interrupt, and no local file changes.
\<close>

definition each_absent :: "path \<Rightarrow> host_config list \<Rightarrow> event list \<Rightarrow> bool" where
  "each_absent exe hs es \<longleftrightarrow>
     list_all (\<lambda>h. \<exists>before after. es = before @ after \<and> seen_absent exe (vm_name h) before) hs"

lemma each_absent_append: "each_absent exe hs ys \<Longrightarrow> each_absent exe hs (xs @ ys)"
  unfolding each_absent_def list_all_iff seen_absent_def by (metis append.assoc)

theorem teardown_cluster_complete:
  "case teardown_cluster x exe config w of (r, w') \<Rightarrow>
     gives (\<lambda>_. \<exists>es. trace w' = trace w @ es \<and> each_absent exe (all_hosts config) es) r
     \<and> fails_as vbox_exn r \<and> files w' = files w"
proof -
  obtain r w' where run: "teardown_cluster x exe config w = (r, w')" by (cases "teardown_cluster x exe config w")
  have "throws vbox_exn (teardown_cluster x exe config)"
    unfolding teardown_cluster_def by (intro throws_intros)
  then have "fails_as vbox_exn r" using run unfolding throws_def by (metis fst_conv)
  moreover have "evolves (keeps_files (\<lambda>_. True)) (teardown_cluster x exe config)"
    unfolding teardown_cluster_def by (intro evolve_intros)
  then have "files w' = files w" using run by (metis evolvesD keeps_files_all)
  moreover have "\<exists>es. trace v' = trace v @ es \<and> each_absent exe hs es"
    if "for_each hs (\<lambda>host. destroy x exe (vm_name host)) v = (Inr u, v')" for hs v u v'
    using that
  proof (induction hs arbitrary: v)
    case Nil
    then show ?case by (simp add: run_inv each_absent_def)
  next
    case (Cons h hs)
    then obtain k z where 1: "destroy x exe (vm_name h) v = (Inr k, z)"
      and 2: "for_each hs (\<lambda>host. destroy x exe (vm_name host)) z = (Inr u, v')" by (auto simp: run_inv)
    obtain ds where ds: "trace z = trace v @ ds" "seen_absent exe (vm_name h) ds" using destroy_seen[OF 1] by blast
    obtain es where es: "trace v' = trace z @ es" "each_absent exe hs es" using Cons.IH[OF 2] by blast
    have "each_absent exe (h # hs) (ds @ es)"
      using ds(2) each_absent_append[OF es(2), of ds] by (auto simp: each_absent_def)
    then show ?case using ds es by (intro exI[of _ "ds @ es"]) simp
  qed
  ultimately show ?thesis using run by (auto simp: gives_def teardown_cluster_def)
qed

subsection \<open>The golden template\<close>

text \<open>
  What the roll back adds to the events once the machine was seen stopped: it is seen stopped a second
  time, the snapshot is restored with status zero, and its deletion is answered.
\<close>

definition rolled_back :: "path \<Rightarrow> string \<Rightarrow> event list \<Rightarrow> event list \<Rightarrow> bool" where
  "rolled_back exe vm before es \<longleftrightarrow> (\<exists>query out err status out' err'. es = before
     @ [query, EvProc [path_str exe, ''snapshot'', vm, ''restore'', PREBAKE_SNAPSHOT] (Some (ProcDone 0 out err)),
        EvProc [path_str exe, ''snapshot'', vm, ''delete'', PREBAKE_SNAPSHOT] (Some (ProcDone status out' err'))]
     \<and> seen_stopped exe vm (before @ [query]))"

abbreviation unwind :: "'e env \<Rightarrow> path \<Rightarrow> string \<Rightarrow> ('e, unit) prog" where
  "unwind x exe vm \<equiv> andthen (restore_snapshot x exe vm PREBAKE_SNAPSHOT) (delete_snapshot x exe vm PREBAKE_SNAPSHOT)"

lemma roll_back_done:
  assumes "unwind x exe vm w = (Inr u, w')"
  shows "rolled_back exe vm (trace w) (trace w')"
proof -
  from assms obtain s v2 r3 v3 r4 where
    2: "vm_state_of x exe vm w = (Inr s, v2)" and s: "s \<noteq> RUNNING"
    and 3: "vbox_run x exe [''snapshot'', vm, ''restore'', PREBAKE_SNAPSHOT] True 300 v2 = (Inr r3, v3)"
    and 4: "vbox_run x exe [''snapshot'', vm, ''delete'', PREBAKE_SNAPSHOT] False 300 v3 = (Inr r4, w')"
    unfolding restore_snapshot_def delete_snapshot_def by (auto simp: run_inv split: if_splits)
  obtain query where "trace v2 = trace w @ [query]" "seen_stopped exe vm (trace v2)"
    using vm_state_of_trace[OF 2] vm_state_of_stopped[OF 2 s] by blast
  then show ?thesis
    using vbox_run_trace[OF 3] vbox_run_trace(1)[OF 4] unfolding rolled_back_def
    by (intro exI[of _ query] exI) simp
qed

text \<open>Among the events, the machine was exported to the file with status zero.\<close>

definition exported :: "path \<Rightarrow> string \<Rightarrow> path \<Rightarrow> event list \<Rightarrow> bool" where
  "exported exe vm dest es \<longleftrightarrow> (\<exists>out err.
     EvProc [path_str exe, ''export'', vm, ''--output'', path_str dest, ''--ovf20''] (Some (ProcDone 0 out err)) \<in> set es)"

lemma export_done:
  assumes "export_appliance x exe vm dest w = (Inr u, w')"
  shows "\<exists>es. trace w' = trace w @ es \<and> exported exe vm dest es \<and> files w' dest \<noteq> None"
proof -
  from assms obtain s v1 r2 v2 p v3 r4 v4 r5 v5 where
    1: "vm_state_of x exe vm w = (Inr s, v1)" and 2: "mkdir (path_parent dest) v1 = (Inr r2, v2)"
    and 3: "path_exists x dest v2 = (Inr p, v3)" and 4: "only_if p (unlink dest) v3 = (Inr r4, v4)"
    and 5: "vbox_run x exe [''export'', vm, ''--output'', path_str dest, ''--ovf20''] True APPLIANCE_TIMEOUT_SECONDS v4 = (Inr r5, v5)"
    and 6: "collect_output x dest v5 = (Inr u, w')"
    unfolding export_appliance_def run_inv by (auto simp: run_inv split: if_splits)
  have "trace v2 = trace v1" "trace v3 = trace v2" "trace v4 = trace v3"
    using 2 3 4 by (auto simp: mkdir_def run_host_ops only_if_def run_inv unlink_def split: if_splits option.splits)
  moreover have "trace w' = trace v5" "files w' dest \<noteq> None"
    using 6 by (auto simp: collect_output_def split: option.splits)
  ultimately show ?thesis using vm_state_of_trace[OF 1] vbox_run_trace[OF 5]
    by (auto simp: exported_def)
qed

text \<open>
  In that order: the search for keys was answered with no name, as the last of the events \<open>es1\<close>; then
  cloud-init was armed and both drop-ins read back, in \<open>es2\<close>; then, in \<open>es3\<close>, the machine was exported.
\<close>

definition clean_image :: "path \<Rightarrow> cluster_config \<Rightarrow> event list \<Rightarrow> event list \<Rightarrow> event list \<Rightarrow> bool" where
  "clean_image exe config es1 es2 es3 \<longleftrightarrow> (\<exists>h out. ssh_user (host_ssh h) = ssh_user (cfg_ssh config)
     \<and> answered_last h find_keys_command out es1 \<and> words out = [] \<and> armed h es2
     \<and> exported exe (template_vm (cfg_virtualbox config)) (template_ova (cfg_virtualbox config)) es3)"

lemma session_done:
  assumes "andthen (prepare_template x h config d)
        (andthen (sanitize_image x h u) (arm_cloud_init x h)) w = (Inr r, w')"
  shows "\<exists>es1 es2 out. trace w' = trace w @ es1 @ es2 \<and> answered_last h find_keys_command out es1 \<and> words out = []
    \<and> armed h es2"
proof -
  from assms obtain r1 v1 r2 v2 where
    1: "prepare_template x h config d w = (Inr r1, v1)" and 2: "sanitize_image x h u v1 = (Inr r2, v2)"
    and 3: "arm_cloud_init x h v2 = (Inr r, w')" unfolding run_inv by blast
  obtain es1 where e1: "trace v1 = trace w @ es1" using emits_trace[OF emit_host.ev_prepare_template 1] by blast
  obtain es2 out where e2: "trace v2 = trace v1 @ es2" "answered_last h find_keys_command out es2" "words out = []"
    using sanitized[OF 2] by blast
  obtain es3 es4 where e3: "trace w' = trace v2 @ es3 @ es4" "armed h es4" using armed_image[OF 3] by blast
  show ?thesis using e1 e2 e3
    by (intro exI[of _ "es1 @ es2"] exI[of _ "es3 @ es4"] exI[of _ out]) (simp add: answered_last_append armed_append)
qed

lemma bake_done:
  assumes "bake_template x exe config d w = (Inr r, w')"
  shows "\<exists>es1 es2 es3. trace w' = trace w @ es1 @ es2 @ es3 \<and> clean_image exe config es1 es2 es3
    \<and> files w' (template_ova (cfg_virtualbox config)) \<noteq> None"
proof -
  let ?vm = "template_vm (cfg_virtualbox config)" and ?t = "boot_timeout_seconds (cfg_virtualbox config)"
  from assms obtain r1 v1 addr v2 r3 v3 r4 v4 r5 v5 where
    1: "start_headless x exe ?vm w = (Inr r1, v1)"
    and 2: "wait_for_guest_ip x exe ?vm ?vm ?t v1 = (Inr addr, v2)"
    and 3: "wait_for_ssh x addr (cfg_ssh config) ?t v2 = (Inr r3, v3)"
    and 4: "with_host x addr (cfg_ssh config) (\<lambda>h. andthen (prepare_template x h config d)
        (andthen (sanitize_image x h (ssh_user (cfg_ssh config))) (arm_cloud_init x h))) v3 = (Inr r4, v4)"
    and 5: "power_off x exe ?vm v4 = (Inr r5, v5)"
    and 6: "export_appliance x exe ?vm (template_ova (cfg_virtualbox config)) v5 = (Inr r, w')"
    unfolding bake_template_def Let_def run_inv by blast
  obtain fs1 where f1: "trace v1 = trace w @ fs1" using emits_trace[OF host_vm.ev_start_headless 1] by blast
  obtain fs2 where f2: "trace v2 = trace v1 @ fs2" using emits_trace[OF host_vm.ev_wait_for_guest_ip 2] by blast
  obtain fs3 where f3: "trace v3 = trace v2 @ fs3" using emits_trace[OF emit_wait_for_ssh 3] by blast
  obtain h u u' ds where h: "host_ssh h = cfg_ssh config"
    and s: "andthen (prepare_template x h config d)
        (andthen (sanitize_image x h (ssh_user (cfg_ssh config))) (arm_cloud_init x h)) u = (Inr r4, u')"
    and t: "trace u = trace v3 @ [EvConnect addr (ssh_user (cfg_ssh config)) (Some Connected)]" "trace v4 = trace u' @ ds"
    using with_host_trace[OF 4] by blast
  obtain gs1 gs2 out where g: "trace u' = trace u @ gs1 @ gs2" "answered_last h find_keys_command out gs1" "words out = []"
    "armed h gs2" using session_done[OF s] by blast
  obtain fs5 where f5: "trace v5 = trace v4 @ fs5" using emits_trace[OF host_vm.ev_power_off 5] by blast
  obtain fs6 where f6: "trace w' = trace v5 @ fs6" "exported exe ?vm (template_ova (cfg_virtualbox config)) fs6"
    "files w' (template_ova (cfg_virtualbox config)) \<noteq> None" using export_done[OF 6] by blast
  have "exported exe ?vm (template_ova (cfg_virtualbox config)) (ds @ fs5 @ fs6)"
    using f6(2) by (auto simp: exported_def)
  moreover have "answered_last h find_keys_command out
      ((fs1 @ fs2 @ fs3 @ [EvConnect addr (ssh_user (cfg_ssh config)) (Some Connected)]) @ gs1)"
    by (rule answered_last_append[OF g(2)])
  ultimately have "clean_image exe config ((fs1 @ fs2 @ fs3 @ [EvConnect addr (ssh_user (cfg_ssh config)) (Some Connected)]) @ gs1)
      gs2 (ds @ fs5 @ fs6)" using g(3,4) h unfolding clean_image_def by metis
  then show ?thesis using f1 f2 f3 t g(1) f5 f6(1,3)
    by (intro exI[of _ "(fs1 @ fs2 @ fs3 @ [EvConnect addr (ssh_user (cfg_ssh config)) (Some Connected)]) @ gs1"]
        exI[of _ gs2] exI[of _ "ds @ fs5 @ fs6"]) simp
qed

lemma idle_snapshot_template: "evolves (emits (\<lambda>ev. \<not> boots ev)) (snapshot_template x exe vm)"
proof -
  have "evolves (emits (\<lambda>ev. \<not> boots ev)) (list_vms x exe)"
    unfolding list_vms_def by (intro evolve_intros emit_vbox_run) (simp add: boots_def)
  then show ?thesis
    unfolding snapshot_template_def template_missing_def
    by (intro evolve_intros idle_vm.ev_vm_exists idle_vm.ev_power_off idle_vm.ev_snapshots)
qed

text \<open>
  C5: building the golden image always returns the template box to its snapshot. Once the snapshot was
  taken, whatever the bake does, an interrupt included, the machine is powered off next: if that fails
  its error is reported, otherwise the machine was seen stopped. Then the snapshot is restored and
  deleted: if that completes, the box was still stopped, the restore ended with status zero, the
  deletion was answered, and the outcome is that of the bake; otherwise its own error is reported.
  Until the snapshot is taken the box is not started, and a failure there is reported as it is. On
  success, in this order, the search for keys was answered with no name, cloud-init was armed and read
  back, and the machine was exported; nothing but the template is changed. That the search names no
  key means that there is none only on a guest that answers it truthfully: where sudo refuses it, it
  prints nothing either, and the image is exported all the same (theory Image).
\<close>

theorem build_golden_template_rolls_back:
  "case build_golden_template x exe config d w of (r, w') \<Rightarrow>
     let vm = template_vm (cfg_virtualbox config) in
     emits (only_machines ((=) vm)) w w' \<and> emits (\<lambda>ev. \<not> boots ev) w (snd (snapshot_template x exe vm w))
     \<and> (case snapshot_template x exe vm w of
          (Inl e, v) \<Rightarrow> r = Inl e \<and> w' = v
        | (Inr _, v) \<Rightarrow> (case bake_template x exe config d v of (q, z) \<Rightarrow>
            (case power_off x exe vm z of
               (Inl e, u) \<Rightarrow> r = Inl e \<and> w' = u
             | (Inr _, p) \<Rightarrow> seen_stopped exe vm (trace p)
                 \<and> (case unwind x exe vm p of
                      (Inl e, u) \<Rightarrow> r = Inl e \<and> w' = u
                    | (Inr _, u) \<Rightarrow> r = q \<and> w' = u \<and> rolled_back exe vm (trace p) (trace w')))
            \<and> gives (\<lambda>_. \<exists>es1 es2 es3. trace z = trace v @ es1 @ es2 @ es3 \<and> clean_image exe config es1 es2 es3) r))"
proof -
  let ?vm = "template_vm (cfg_virtualbox config)"
  obtain r w' where run: "build_golden_template x exe config d w = (r, w')" by (cases "build_golden_template x exe config d w")
  have em: "emits (only_machines ((=) ?vm)) w w'" by (rule evolvesD[OF emit_build_template run])
  have idle: "emits (\<lambda>ev. \<not> boots ev) w (snd (snapshot_template x exe ?vm w))"
    using idle_snapshot_template unfolding evolves_def by blast
  obtain a v where 1: "snapshot_template x exe ?vm w = (a, v)" by (cases "snapshot_template x exe ?vm w")
  obtain q z where 2: "bake_template x exe config d v = (q, z)" by (cases "bake_template x exe config d v")
  obtain b p where 3: "power_off x exe ?vm z = (b, p)" by (cases "power_off x exe ?vm z")
  obtain c u where 4: "unwind x exe ?vm p = (c, u)" by (cases "unwind x exe ?vm p")
  have "roll_back x exe ?vm z = (case b of Inl e \<Rightarrow> (Inl e, p) | Inr _ \<Rightarrow> (c, u))"
    using 3 4 by (simp add: roll_back_def run_simps(4) split: sum.splits)
  then have "build_golden_template x exe config d w = (case a of Inl e \<Rightarrow> (Inl e, v)
      | Inr _ \<Rightarrow> (case b of Inl e \<Rightarrow> (Inl e, p) | Inr _ \<Rightarrow> (case c of Inl e \<Rightarrow> (Inl e, u) | Inr _ \<Rightarrow> (q, u))))"
    using 1 2 by (simp add: build_golden_template_def Let_def run_simps(4,6) split: sum.splits)
  note eq = this[unfolded run]
  have eq: "r = (case a of Inl e \<Rightarrow> Inl e | Inr _ \<Rightarrow> (case b of Inl e \<Rightarrow> Inl e | Inr _ \<Rightarrow> (case c of Inl e \<Rightarrow> Inl e | Inr _ \<Rightarrow> q)))"
    "w' = (case a of Inl e \<Rightarrow> v | Inr _ \<Rightarrow> (case b of Inl e \<Rightarrow> p | Inr _ \<Rightarrow> u))"
    using arg_cong[OF eq, of fst] arg_cong[OF eq, of snd] by (cases a; cases b; cases c; simp only: sum.case fst_conv snd_conv)+
  have stopped: "seen_stopped exe ?vm (trace p)" if "b = Inr k" for k using power_off_stopped 3 that by blast
  have undone: "rolled_back exe ?vm (trace p) (trace u)" if "c = Inr k" for k using roll_back_done 4 that by blast
  have clean: "\<exists>es1 es2 es3. trace z = trace v @ es1 @ es2 @ es3 \<and> clean_image exe config es1 es2 es3" if "q = Inr k" for k
    using bake_done[of x exe config d v k z] 2 that by blast
  show ?thesis
  proof (cases a)
    case (Inl e)
    then have "r = Inl e" "w' = v" using eq by simp_all
    then show ?thesis using em idle Inl by (simp add: run 1)
  next
    case a: (Inr k)
    show ?thesis
    proof (cases b)
      case (Inl e)
      then have "r = Inl e" "w' = p" using eq a by simp_all
      then show ?thesis using em idle a Inl by (simp add: run 1 2 3)
    next
      case b: (Inr k)
      show ?thesis
      proof (cases c)
        case (Inl e)
        then have "r = Inl e" "w' = u" using eq a b by simp_all
        then show ?thesis using em idle a b Inl stopped by (simp add: run 1 2 3 4)
      next
        case (Inr k)
        then have "r = q" "w' = u" using eq a b by simp_all
        then show ?thesis using em idle a b Inr stopped undone clean by (simp add: run 1 2 3 4 gives_def)
      qed
    qed
  qed
qed

subsection \<open>Readiness\<close>

text \<open>A probe of the address was answered, completely, with a status that is no error.\<close>

definition served :: "string \<Rightarrow> event list \<Rightarrow> bool" where
  "served url es \<longleftrightarrow> (\<exists>status reason body. http_ok status \<and> EvHttp url (Some (HttpDone status reason body)) \<in> set es)"

definition probes :: "string list \<Rightarrow> event \<Rightarrow> bool" where
  "probes urls ev = (case ev of EvHttp url _ \<Rightarrow> url \<in> set urls | EvSleep ms \<Rightarrow> ms = READINESS_POLL_MS | _ \<Rightarrow> False)"

lemma probe_events [simp]: "probes urls (EvHttp url out) \<longleftrightarrow> url \<in> set urls" "probes urls (EvSleep READINESS_POLL_MS)"
  by (simp_all add: probes_def)

lemma probe_ok: "probe_error out = None \<longleftrightarrow> (\<exists>status reason body. out = HttpDone status reason body \<and> http_ok status)"
  by (cases out) auto

lemma await_endpoint_outcome:
  "case await_endpoint x url label t d l w of (r, w') \<Rightarrow>
     \<exists>es. trace w' = trace w @ es \<and> list_all (probes [url]) es \<and> files w' = files w \<and> clock w \<le> clock w'
       \<and> gives (\<lambda>_. served url es) r
       \<and> fails_as (\<lambda>e. is_ProvisioningTimeoutError e \<and> d \<le> clock w' \<or> e = KeyboardInterrupt) r"
proof (induction x url label t d l w rule: await_endpoint.induct)
  case (1 x url label t d l w)
  obtain r v where a: "http_get x url w = (r, v)" by (cases "http_get x url w")
  obtain s u where s: "sleep x READINESS_POLL_MS v = (s, u)" by (cases "sleep x READINESS_POLL_MS v")
  have v: "\<exists>out. trace v = trace w @ [EvHttp url out] \<and> files v = files w \<and> clock w \<le> clock v
      \<and> r = (case out of None \<Rightarrow> Inl KeyboardInterrupt | Some q \<Rightarrow> Inr q)"
    using a by (auto simp: http_get_def run_simps split: prod.splits)
  then obtain out where v: "trace v = trace w @ [EvHttp url out]" "files v = files w" "clock w \<le> clock v"
    "r = (case out of None \<Rightarrow> Inl KeyboardInterrupt | Some q \<Rightarrow> Inr q)" by blast
  have u: "trace u = trace v @ [EvSleep READINESS_POLL_MS]" "files u = files v" "clock v \<le> clock u"
    "s = Inl KeyboardInterrupt \<or> s = Inr ()"
    using s by (auto simp: sleep_def run_simps READINESS_POLL_MS_def split: prod.splits option.splits)
  show ?case
  proof (cases "clock w < d")
    case False
    then show ?thesis by (subst await_endpoint.simps) (simp add: run_simps)
  next
    case live: True
    show ?thesis
    proof (cases out)
      case None
      then show ?thesis using live a v by (subst await_endpoint.simps) simp
    next
      case (Some q)
      show ?thesis
      proof (cases "probe_error q")
        case None
        then show ?thesis using live a v Some
          by (subst await_endpoint.simps) (auto simp: served_def probe_ok)
      next
        case err: (Some e)
        show ?thesis
        proof (cases "s = Inr ()")
          case False
          then show ?thesis using live a v Some err s u
            by (subst await_endpoint.simps) auto
        next
          case True
          have r: "r = Inr q" using v(4) Some by simp
          obtain r' w' where rec: "await_endpoint x url label t d e u = (r', w')" by fastforce
          from 1[OF live a[symmetric] r err s[symmetric] True] rec obtain es where es: "trace w' = trace u @ es"
            "list_all (probes [url]) es" "files w' = files u" "clock u \<le> clock w'" "gives (\<lambda>_. served url es) r'"
            "fails_as (\<lambda>e. is_ProvisioningTimeoutError e \<and> d \<le> clock w' \<or> e = KeyboardInterrupt) r'" by auto
          have "await_endpoint x url label t d l w = (r', w')"
            using live a r err s True rec by (subst await_endpoint.simps) simp
          moreover have "gives (\<lambda>_. served url (EvHttp url out # EvSleep READINESS_POLL_MS # es)) r'"
            using es(5) by (auto simp: gives_def served_def)
          ultimately show ?thesis using es v u
            by (intro case_prodI2 exI[of _ "EvHttp url out # EvSleep READINESS_POLL_MS # es"]) simp
        qed
      qed
    qed
  qed
qed

lemma served_append: "served url xs \<Longrightarrow> served url (xs @ ys)" "served url ys \<Longrightarrow> served url (xs @ ys)"
  by (auto simp: served_def)

lemma await_all_outcome:
  "case for_each eps (\<lambda>(url, label). await_endpoint x url label t d lerr) w of (r, w') \<Rightarrow>
     \<exists>es. trace w' = trace w @ es \<and> list_all (probes (map fst eps)) es \<and> files w' = files w \<and> clock w \<le> clock w'
       \<and> gives (\<lambda>_. list_all (\<lambda>url. served url es) (map fst eps)) r
       \<and> fails_as (\<lambda>e. is_ProvisioningTimeoutError e \<and> d \<le> clock w' \<or> e = KeyboardInterrupt) r"
proof (induction eps arbitrary: w)
  case Nil
  then show ?case by (simp add: run_simps)
next
  case (Cons ep eps)
  obtain url label where ep: "ep = (url, label)" by (cases ep)
  obtain r v where a: "await_endpoint x url label t d lerr w = (r, v)" by (cases "await_endpoint x url label t d lerr w")
  with await_endpoint_outcome[where x = x and url = url and label = label and t = t and d = d and l = lerr and w = w] obtain es where es: "trace v = trace w @ es"
    "list_all (probes [url]) es" "files v = files w" "clock w \<le> clock v" "gives (\<lambda>_. served url es) r"
    "fails_as (\<lambda>e. is_ProvisioningTimeoutError e \<and> d \<le> clock v \<or> e = KeyboardInterrupt) r" by auto
  have p: "list_all (probes (map fst (ep # eps))) es"
    using es(2) ep by (auto simp: list_all_iff probes_def split: event.splits)
  show ?case
  proof (cases r)
    case (Inl e)
    then have "for_each (ep # eps) (\<lambda>(url, label). await_endpoint x url label t d lerr) w = (Inl e, v)"
      using a by (simp add: ep run_simps)
    then show ?thesis using es p Inl by (simp only: prod.case) (intro exI[of _ es]; simp)
  next
    case (Inr k)
    obtain q z where b: "for_each eps (\<lambda>(url, label). await_endpoint x url label t d lerr) v = (q, z)" by fastforce
    with Cons.IH[of v] obtain fs where fs: "trace z = trace v @ fs" "list_all (probes (map fst eps)) fs"
      "files z = files v" "clock v \<le> clock z" "gives (\<lambda>_. list_all (\<lambda>url. served url fs) (map fst eps)) q"
      "fails_as (\<lambda>e. is_ProvisioningTimeoutError e \<and> d \<le> clock z \<or> e = KeyboardInterrupt) q" by auto
    have "list_all (probes (map fst (ep # eps))) fs"
      using fs(2) by (auto simp: list_all_iff probes_def split: event.splits)
    moreover have "gives (\<lambda>_. list_all (\<lambda>url. served url (es @ fs)) (map fst (ep # eps))) q"
      using es(5) fs(5) Inr ep by (auto simp: gives_def list_all_iff served_append)
    moreover have "for_each (ep # eps) (\<lambda>(url, label). await_endpoint x url label t d lerr) w = (q, z)"
      using a b Inr by (simp add: ep run_simps)
    ultimately show ?thesis using es fs p by (simp only: prod.case) (intro exI[of _ "es @ fs"]; simp)
  qed
qed

lemma cluster_ready:
  "case wait_for_cluster_ready x config addr t w of (r, w') \<Rightarrow>
     let urls = map fst (endpoints config addr) in
     \<exists>es. trace w' = trace w @ es \<and> list_all (probes urls) es \<and> files w' = files w
       \<and> gives (\<lambda>_. list_all (\<lambda>url. served url es) urls) r
       \<and> fails_as (\<lambda>e. is_ProvisioningTimeoutError e \<and> clock w + 1000 * t \<le> clock w' \<or> e = KeyboardInterrupt) r"
  using await_all_outcome[where eps = "endpoints config addr" and x = x and t = t and d = "clock w + 1000 * t"
      and lerr = "''no attempt completed''" and w = w]
  by (auto simp: wait_for_cluster_ready_def run_simps Let_def split: prod.splits)

text \<open>
  C15: waiting for the cluster always ends. It returns only when both endpoints, the balancer and the
  inventory service's health check, answered a probe completely with a status that is no error; a
  timeout is reported only once the whole time has passed. It sends nothing but those probes.
\<close>

theorem wait_for_cluster_ready_outcome:
  "case wait_for_cluster_ready x config addr t w of (r, w') \<Rightarrow>
     let urls = map fst (endpoints config addr) in
     \<exists>es. trace w' = trace w @ es \<and> list_all (probes urls) es \<and> files w' = files w
       \<and> gives (\<lambda>_. list_all (\<lambda>url. served url es) urls) r
       \<and> fails_as (\<lambda>e. is_ProvisioningTimeoutError e \<and> clock w + 1000 * t \<le> clock w' \<or> e = KeyboardInterrupt) r"
  by (rule cluster_ready)

subsection \<open>One guest\<close>

text \<open>Among the events, the seed was put into a slot of the machine with status zero.\<close>

definition seed_attached :: "path \<Rightarrow> string \<Rightarrow> path \<Rightarrow> event list \<Rightarrow> bool" where
  "seed_attached exe vm disc es \<longleftrightarrow> (\<exists>s out err.
     EvProc (path_str exe # storageattach vm s (path_str disc)) (Some (ProcDone 0 out err)) \<in> set es)"

text \<open>The image on disk holds the guest's documents, with the deployer's public key as it was on disk before.\<close>

definition seed_written :: "'e env \<Rightarrow> cluster_config \<Rightarrow> host_config \<Rightarrow> 'e world \<Rightarrow> 'e world \<Rightarrow> bool" where
  "seed_written x config host w w' \<longleftrightarrow> (\<exists>b t i ud md img.
     files w (public_half (ssh_key_path (cfg_ssh config))) = Some b \<and> ascii_decode b = Some t
     \<and> render_user_data (hostname host) (ssh_user (cfg_ssh config)) (strip (universal_newlines t)) = Inr ud
     \<and> render_meta_data (hostname host) i = Inr md
     \<and> x_iso x SEED_ISO [seed_file ''user-data'' ud, seed_file ''meta-data'' md] = Inr img
     \<and> files w' (seed_of config host) = Some img)"

text \<open>Over its session, the guest reported its seed applied and its name.\<close>

definition identity_confirmed :: "string \<Rightarrow> ssh_config \<Rightarrow> string \<Rightarrow> event list \<Rightarrow> bool" where
  "identity_confirmed addr cfg name es \<longleftrightarrow> (\<exists>status report err out err'.
     EvExec addr (ssh_user cfg) ''cloud-init status --wait --long || true'' None (Some (ExecDone status report err)) \<in> set es
     \<and> contains ''status: done'' (strip report)
     \<and> EvExec addr (ssh_user cfg) ''hostname'' None (Some (ExecDone 0 out err')) \<in> set es \<and> strip out = name)"

lemma idle_import_host: "evolves (emits (\<lambda>ev. \<not> boots ev)) (import_host x exe config host)"
  unfolding import_host_def Let_def
  by (intro evolve_intros idle_vm.ev_configure idle_vm.ev_destroy idle_vm.ev_import_appliance)

lemma idle_insert_seed: "evolves (emits (\<lambda>ev. \<not> boots ev)) (insert_seed x exe config host)"
  unfolding insert_seed_def write_seed_def
  by (intro evolve_intros idle_vm.ev_optical emit_build_seed emit_deployer_key)

lemma attach_done:
  assumes "attach_optical x exe vm disc w = (Inr u, w')"
  shows "\<exists>es. trace w' = trace w @ es \<and> seed_attached exe vm disc es"
proof -
  from assms obtain s v r where 1: "optical_slot x exe vm w = (Inr s, v)"
    and 2: "vbox_run x exe (storageattach vm s (path_str disc)) True 120 v = (Inr r, w')"
    unfolding attach_optical_def run_inv by (auto simp: run_inv)
  obtain es where "trace v = trace w @ es" using emits_trace[OF host_vm.ev_optical(1) 1] by blast
  moreover have "seed_attached exe vm disc (es @ [EvProc (path_str exe # storageattach vm s (path_str disc))
      (Some (ProcDone (p_status r) (p_stdout r) (p_stderr r)))])"
    using vbox_run_trace(2)[OF 2] unfolding seed_attached_def by (intro exI[of _ s] exI[of _ "p_stdout r"] exI[of _ "p_stderr r"]) simp
  ultimately show ?thesis using vbox_run_trace(1)[OF 2]
    by (intro exI[of _ "es @ [EvProc (path_str exe # storageattach vm s (path_str disc))
      (Some (ProcDone (p_status r) (p_stdout r) (p_stderr r)))]"]) simp
qed

lemma deployer_key_Inr:
  assumes "deployer_public_key config w = (Inr key, w')"
  shows "w' = w \<and> (\<exists>b t. files w (public_half (ssh_key_path (cfg_ssh config))) = Some b \<and> ascii_decode b = Some t
    \<and> key = strip (universal_newlines t))"
  using assms
  by (auto simp: deployer_public_key_def Let_def catch_Inr run_inv read_text_ascii_def read_ascii_def read_bytes_def
      split: if_splits option.splits)

lemma keep_attach: "attach_optical x exe vm disc w = (r, w') \<Longrightarrow> files w' = files w"
  by (drule evolvesD[OF keep_vm.ev_optical(2)[where P = "\<lambda>_. True"]]) (rule keeps_files_all)

lemma seed_made:
  assumes "write_seed x config host w = (Inr u, w')"
  shows "trace w' = trace w \<and> seed_written x config host w w'"
proof -
  from assms obtain key v1 q where
    1: "deployer_public_key config w = (Inr key, v1)"
    and 2: "build_seed_iso x (seed_of config host) (hostname host) (ssh_user (cfg_ssh config)) key None v1 = (Inr q, w')"
    unfolding write_seed_def by (auto simp: run_inv)
  obtain b t where k: "v1 = w" "files w (public_half (ssh_key_path (cfg_ssh config))) = Some b"
    "ascii_decode b = Some t" "key = strip (universal_newlines t)" using deployer_key_Inr[OF 1] by blast
  from build_seed_run[where x = x and dest = "seed_of config host" and h = "hostname host"
      and u = "ssh_user (cfg_ssh config)" and k = key and iid = None and w = v1]
  obtain i ud md img where s: "render_user_data (hostname host) (ssh_user (cfg_ssh config)) key = Inr ud"
    "render_meta_data (hostname host) i = Inr md"
    "x_iso x SEED_ISO [seed_file ''user-data'' ud, seed_file ''meta-data'' md] = Inr img"
    "files w' = (files v1)(seed_of config host \<mapsto> img)" unfolding 2 by (auto simp: gives_def)
  have "seed_written x config host w w'"
    unfolding seed_written_def using k s
    by (intro exI[of _ b] exI[of _ t] exI[of _ i] exI[of _ ud] exI[of _ md] exI[of _ img]) simp
  moreover have "trace w' = trace v1" using emits_trace[OF emit_build_seed[where P = "\<lambda>_. False"] 2] by (auto simp: list_all_iff)
  ultimately show ?thesis using k(1) by simp
qed

lemma identity_checked:
  assumes "with_host x addr cfg (check_identity x config host) w = (Inr u, w')"
  shows "\<exists>es. trace w' = trace w @ es \<and> identity_confirmed addr cfg (hostname host) es \<and> files w' = files w"
proof -
  from with_host_trace[OF assms] obtain h v v' es where h: "address h = addr" "host_ssh h = cfg"
    and b: "check_identity x config host h v = (Inr u, v')"
    and t: "trace v = trace w @ [EvConnect addr (ssh_user cfg) (Some Connected)]" "trace w' = trace v' @ es"
    "files v = files w" "files w' = files v'" by blast
  from b obtain r1 v1 r2 where
    1: "run_for x h ''cloud-init status --wait --long || true'' False (Some (boot_timeout_seconds (cfg_virtualbox config))) v = (Inr r1, v1)"
    "contains ''status: done'' (strip (stdout r1))"
    and 2: "run x h ''hostname'' True v1 = (Inr r2, v')" "strip (stdout r2) = hostname host"
    unfolding check_identity_def wait_for_cloud_init_def remote_hostname_def Let_def
    by (auto simp: run_inv split: if_splits)
  have "ok r2" using 2(1) by (auto simp: run_run_for Let_def ok_def split: prod.splits option.splits exec_outcome.splits if_splits)
  then have "trace v' = trace v @ [EvExec addr (ssh_user cfg) ''cloud-init status --wait --long || true'' None
      (Some (ExecDone (exit_status r1) (stdout r1) (stderr r1))),
      EvExec addr (ssh_user cfg) ''hostname'' None (Some (ExecDone 0 (stdout r2) (stderr r2)))]"
    using run_answer[OF 1(1)] run_event[OF 2(1)] h by simp
  moreover have "files v' = files v" using keeps_all[OF keep_host_ops(3) 1(1)] keeps_all[OF keep_host_ops(3) 2(1)] by simp
  ultimately show ?thesis using t 1(2) 2(2) unfolding identity_confirmed_def by fastforce
qed

lemma keep_import_host: "evolves (keeps_files P) (import_host x exe config host)"
  unfolding import_host_def Let_def by (intro evolve_intros)

text \<open>
  The stages before the machine is started, each from the world the one before it left: the import in
  \<open>w\<close>, then in \<open>v0\<close> the seed is written, which leaves \<open>v1\<close> with the seed on disk, then it is attached, and
  \<open>v2\<close> is the world in which the machine is started, the seed still there.
\<close>

definition seed_ready :: "'e env \<Rightarrow> path \<Rightarrow> cluster_config \<Rightarrow> host_config \<Rightarrow> 'e world \<Rightarrow> 'e world \<Rightarrow> bool" where
  "seed_ready x exe config host w v2 \<longleftrightarrow> (\<exists>v0 v1 es.
     import_host x exe config host w = (Inr (), v0)
     \<and> write_seed x config host v0 = (Inr (), v1) \<and> trace v1 = trace v0 \<and> seed_written x config host w v1
     \<and> attach_optical x exe (vm_name host) (seed_of config host) v1 = (Inr (), v2) \<and> trace v2 = trace v1 @ es
     \<and> seed_attached exe (vm_name host) (seed_of config host) es \<and> seed_written x config host w v2)"

lemma provision_stages:
  assumes "provision_host x exe config host w = (r, w')"
  shows "(\<exists>e. r = Inl e) \<and> emits (\<lambda>ev. \<not> boots ev) w w'
    \<or> (\<exists>v2. emits (\<lambda>ev. \<not> boots ev) w v2 \<and> seed_ready x exe config host w v2 \<and> boot_host x exe config host v2 = (r, w'))"
proof -
  obtain a v0 where 1: "import_host x exe config host w = (a, v0)" by (cases "import_host x exe config host w")
  obtain b v2 where 2: "insert_seed x exe config host v0 = (b, v2)" by (cases "insert_seed x exe config host v0")
  have e1: "emits (\<lambda>ev. \<not> boots ev) w v0" by (rule evolvesD[OF idle_import_host 1])
  have e2: "emits (\<lambda>ev. \<not> boots ev) w v2" by (rule emit.trans[OF e1 evolvesD[OF idle_insert_seed 2]])
  show ?thesis
  proof (cases "(\<exists>e. a = Inl e) \<or> (\<exists>e. b = Inl e)")
    case True
    then have "(\<exists>e. r = Inl e) \<and> (w' = v0 \<or> w' = v2)"
      using assms 1 2 by (cases a) (auto simp: provision_host_def run_simps)
    then show ?thesis using e1 e2 by blast
  next
    case False
    then have ab: "a = Inr ()" "b = Inr ()" by (cases a; cases b; simp)+
    from 2[unfolded ab(2)] obtain v1 where 3: "write_seed x config host v0 = (Inr (), v1)"
      and 4: "attach_optical x exe (vm_name host) (seed_of config host) v1 = (Inr (), v2)"
      unfolding insert_seed_def by (auto simp: run_inv)
    note made = seed_made[OF 3]
    have "files v0 = files w" by (rule keeps_files_all[OF evolvesD[OF keep_import_host 1]])
    then have "seed_written x config host w v1" "seed_written x config host w v2"
      using made keep_attach[OF 4] by (simp_all add: seed_written_def)
    then have "seed_ready x exe config host w v2"
      using 1 ab 3 4 made attach_done[OF 4] unfolding seed_ready_def by blast
    moreover have "boot_host x exe config host v2 = (r, w')"
      using assms 1 2 ab by (simp add: provision_host_def run_simps)
    ultimately show ?thesis using e2 by blast
  qed
qed

lemma boot_done:
  assumes "boot_host x exe config host w = (Inr addr, w')"
  shows "\<exists>es. trace w' = trace w @ es \<and> identity_confirmed addr (cfg_ssh config) (hostname host) es \<and> files w' = files w"
proof -
  let ?vm = "vm_name host" and ?t = "boot_timeout_seconds (cfg_virtualbox config)"
  from assms obtain r3 v3 v4 r5 v5 r6 where
    3: "start_headless x exe ?vm w = (Inr r3, v3)"
    and 4: "wait_for_guest_ip x exe ?vm (hostname host) ?t v3 = (Inr addr, v4)"
    and 5: "wait_for_ssh x addr (cfg_ssh config) ?t v4 = (Inr r5, v5)"
    and 6: "with_host x addr (cfg_ssh config) (check_identity x config host) v5 = (Inr r6, w')"
    unfolding boot_host_def Let_def run_inv by blast
  obtain es3 where e3: "trace v3 = trace w @ es3" using emits_trace[OF host_vm.ev_start_headless 3] by blast
  obtain es4 where e4: "trace v4 = trace v3 @ es4" using emits_trace[OF host_vm.ev_wait_for_guest_ip 4] by blast
  obtain es5 where e5: "trace v5 = trace v4 @ es5" using emits_trace[OF emit_wait_for_ssh 5] by blast
  obtain es6 where e6: "trace w' = trace v5 @ es6" "identity_confirmed addr (cfg_ssh config) (hostname host) es6"
    "files w' = files v5" using identity_checked[OF 6] by blast
  have "files w' = files w"
    using keeps_files_all[OF evolvesD[OF keep_vm.ev_start_headless 3]] keeps_files_all[OF evolvesD[OF keep_vm.ev_wait_for_guest_ip 4]]
      keeps_files_all[OF evolvesD[OF wait_for_ssh_kept(1) 5]] e6(3) by simp
  moreover have "identity_confirmed addr (cfg_ssh config) (hostname host) ((es3 @ es4 @ es5) @ es6)"
    using e6(2) unfolding identity_confirmed_def set_append Un_iff by blast
  ultimately show ?thesis using e3 e4 e5 e6(1) by (intro exI[of _ "(es3 @ es4 @ es5) @ es6"]) simp
qed


end
