(* ===== verification/Doubles.thy ===== *)
theory Doubles
  imports PyStr Complex_Main
begin

text \<open>
  The arithmetic of Python's \<open>float\<close> that the disk check uses, on non-negative numbers: a double is
  a mantissa below \<open>2\<^sup>5\<^sup>3\<close> and an exponent, its value \<open>m * 2\<^sup>e\<close>. Every operation computes the exact
  result and rounds it to 53 bits, to the nearest, ties to even, as IEEE 754 asks. Overflow and
  subnormal numbers, which no disk and no image file reaches, are left out.
\<close>

type_synonym double = "nat \<times> int"

definition dval :: "double \<Rightarrow> real" where
  "dval d = real (fst d) * 2 powi snd d"

fun bit_len :: "nat \<Rightarrow> nat" where
  "bit_len n = (if n = 0 then 0 else Suc (bit_len (n div 2)))"

declare bit_len.simps [simp del]

text \<open>\<open>n / 2\<^sup>k\<close> to the nearest whole number, the even one of two.\<close>

definition half_even :: "nat \<Rightarrow> nat \<Rightarrow> nat" where
  "half_even n k =
     (let q = n div 2 ^ k; r = n mod 2 ^ k in
      if 2 ^ k < 2 * r \<or> (2 * r = 2 ^ k \<and> odd q) then Suc q else q)"

definition round53 :: "double \<Rightarrow> double" where
  "round53 d = (let k = bit_len (fst d) - 53 in (half_even (fst d) k, snd d + int k))"

definition double_of_nat :: "nat \<Rightarrow> double" where
  "double_of_nat n = round53 (n, 0)"

definition dmul :: "double \<Rightarrow> double \<Rightarrow> double" where
  "dmul a b = round53 (fst a * fst b, snd a + snd b)"

text \<open>Dividing by \<open>2\<^sup>j\<close> only moves the exponent.\<close>

definition dscale :: "double \<Rightarrow> int \<Rightarrow> double" where
  "dscale d j = (fst d, snd d - j)"

definition dle :: "double \<Rightarrow> double \<Rightarrow> bool" where
  "dle a b \<longleftrightarrow> (if snd a \<le> snd b then fst a \<le> fst b * 2 ^ nat (snd b - snd a)
     else fst a * 2 ^ nat (snd a - snd b) \<le> fst b)"

text \<open>\<open>int(d)\<close>\<close>

definition truncated :: "double \<Rightarrow> nat" where
  "truncated d = (if 0 \<le> snd d then fst d * 2 ^ nat (snd d) else fst d div 2 ^ nat (- snd d))"

text \<open>\<open>f"{d:.1f}"\<close>: the exact value to the nearest tenth.\<close>

definition tenths :: "double \<Rightarrow> nat" where
  "tenths d = (if 0 \<le> snd d then 10 * fst d * 2 ^ nat (snd d) else half_even (10 * fst d) (nat (- snd d)))"

definition fixed1 :: "double \<Rightarrow> string" where
  "fixed1 d = show_nat (tenths d div 10) @ ''.'' @ show_nat (tenths d mod 10)"

section \<open>Accuracy\<close>

lemma half_even_error: "\<bar>real (half_even n k) * 2 ^ k - real n\<bar> \<le> 2 ^ k / 2"
proof -
  define q r where "q = n div 2 ^ k" and "r = n mod 2 ^ k"
  have "n = q * 2 ^ k + r" unfolding q_def r_def by (rule div_mult_mod_eq[symmetric])
  then have n: "real n = real q * 2 ^ k + real r" by simp
  have "r < 2 ^ k" by (simp add: r_def)
  then have r: "real r < 2 ^ k" by (metis of_nat_less_iff of_nat_numeral of_nat_power)
  show ?thesis
  proof (cases "2 ^ k < 2 * r \<or> (2 * r = 2 ^ k \<and> odd q)")
    case True
    then have "2 ^ k \<le> 2 * r" by auto
    then have "real (2 ^ k) \<le> real (2 * r)" by (simp only: of_nat_le_iff)
    then have "(2::real) ^ k \<le> 2 * real r" by simp
    moreover have "half_even n k = Suc q" using True by (simp add: half_even_def q_def r_def Let_def)
    then have "real (half_even n k) * 2 ^ k = real q * 2 ^ k + 2 ^ k" by (simp add: distrib_right)
    ultimately show ?thesis using n r by linarith
  next
    case False
    then have "2 * r \<le> 2 ^ k" by auto
    then have "real (2 * r) \<le> real (2 ^ k)" by (simp only: of_nat_le_iff)
    then have "2 * real r \<le> 2 ^ k" by simp
    moreover have "half_even n k = q" using False by (simp add: half_even_def q_def r_def Let_def)
    ultimately show ?thesis using n by simp
  qed
qed

lemma bit_len_0: "bit_len 0 = 0" and bit_len_pos: "n \<noteq> 0 \<Longrightarrow> bit_len n = Suc (bit_len (n div 2))"
  by (subst bit_len.simps; simp)+

lemma bit_len_lower: "n \<noteq> 0 \<Longrightarrow> 2 ^ (bit_len n - 1) \<le> n"
proof (induction n rule: bit_len.induct)
  case (1 n)
  show ?case
  proof (cases "n div 2 = 0")
    case True
    then have "bit_len n = 1" using bit_len_pos[OF 1(2)] by (simp add: bit_len_0)
    then show ?thesis using 1(2) by simp
  next
    case False
    then have "bit_len n = Suc (Suc (bit_len (n div 2) - 1))"
      using bit_len_pos[OF 1(2)] bit_len_pos[OF False] by simp
    then have "2 ^ (bit_len n - 1) = 2 * 2 ^ (bit_len (n div 2) - 1)" by simp
    also have "\<dots> \<le> 2 * (n div 2)" using 1(1)[OF 1(2) False] by simp
    finally show ?thesis by linarith
  qed
qed

text \<open>\<open>near k a b\<close>: \<open>a\<close> is \<open>b\<close> after at most \<open>k\<close> roundings.\<close>

definition near :: "nat \<Rightarrow> real \<Rightarrow> real \<Rightarrow> bool" where
  "near k a b \<longleftrightarrow> b * (1 - 1 / 2 ^ 53) ^ k \<le> a \<and> a \<le> b * (1 + 1 / 2 ^ 53) ^ k"

lemma near_trans:
  assumes "near i a b" and "near j b c"
  shows "near (j + i) a c"
proof -
  have "c * (1 - 1 / 2 ^ 53) ^ j * (1 - 1 / 2 ^ 53) ^ i \<le> b * (1 - 1 / 2 ^ 53) ^ i"
    "b * (1 + 1 / 2 ^ 53) ^ i \<le> c * (1 + 1 / 2 ^ 53) ^ j * (1 + 1 / 2 ^ 53) ^ i"
    using assms(2) by (intro mult_right_mono; simp add: near_def)+
  then show ?thesis using assms(1) unfolding near_def power_add mult.assoc by linarith
qed

lemma near_mult:
  assumes "near i a b" and "near j c d" and "0 \<le> b" and "0 \<le> d"
  shows "near (i + j) (a * c) (b * d)"
proof -
  have l: "0 \<le> b * (1 - 1 / 2 ^ 53) ^ i" "0 \<le> d * (1 - 1 / 2 ^ 53) ^ j"
    "0 \<le> b * (1 + 1 / 2 ^ 53) ^ i" using assms(3,4) by simp_all
  have pos: "0 \<le> a" "0 \<le> c" using assms(1,2) l unfolding near_def by linarith+
  have "b * (1 - 1 / 2 ^ 53) ^ i * (d * (1 - 1 / 2 ^ 53) ^ j) \<le> a * c"
    "a * c \<le> b * (1 + 1 / 2 ^ 53) ^ i * (d * (1 + 1 / 2 ^ 53) ^ j)"
    using assms(1,2) l pos unfolding near_def by (auto intro!: mult_mono)
  then show ?thesis unfolding near_def power_add by (simp only: mult_ac)
qed

lemma near_refl: "near 0 a a"
  by (simp add: near_def)

text \<open>Rounding is off by at most one part in \<open>2\<^sup>5\<^sup>3\<close>.\<close>

lemma round53_near: "near 1 (dval (round53 d)) (dval d)"
proof -
  define n k where "n = fst d" and "k = bit_len n - 53"
  have v: "dval (round53 d) = real (half_even n k) * 2 ^ k * 2 powi snd d"
    by (simp add: dval_def round53_def n_def k_def Let_def power_int_add)
  have "\<bar>real (half_even n k) * 2 ^ k - real n\<bar> \<le> real n / 2 ^ 53"
  proof (cases "k = 0")
    case True
    then show ?thesis by (simp add: half_even_def)
  next
    case False
    then have "bit_len n - 1 = 52 + k" by (simp add: k_def)
    moreover have "n \<noteq> 0" using False by (metis bit_len_0 k_def zero_diff)
    ultimately have "2 ^ (52 + k) \<le> n" using bit_len_lower[of n] by simp
    then have "(2::real) ^ (52 + k) \<le> real n" by (metis of_nat_le_iff of_nat_numeral of_nat_power)
    then have "(2::real) ^ k / 2 \<le> real n / 2 ^ 53" by (simp add: power_add)
    then show ?thesis using half_even_error[of n k] by linarith
  qed
  then have "real n - real n / 2 ^ 53 \<le> real (half_even n k) * 2 ^ k"
    "real (half_even n k) * 2 ^ k \<le> real n + real n / 2 ^ 53" by linarith+
  then have e: "real n * (1 - 1 / 2 ^ 53) \<le> real (half_even n k) * 2 ^ k"
    "real (half_even n k) * 2 ^ k \<le> real n * (1 + 1 / 2 ^ 53)"
    by (simp_all only: right_diff_distrib distrib_left mult_1_right times_divide_eq_right)
  have p: "(0::real) \<le> 2 powi snd d" by simp
  have d: "dval d = real n * 2 powi snd d" by (simp add: dval_def n_def)
  show ?thesis unfolding near_def v d power_one_right
    using mult_right_mono[OF e(1) p] mult_right_mono[OF e(2) p] by (simp add: mult.assoc mult.left_commute mult.commute)
qed

lemma dval_nonneg: "0 \<le> dval d"
  by (simp add: dval_def)

lemma double_of_nat_near: "near 1 (dval (double_of_nat n)) (real n)"
  using round53_near[of "(n, 0)"] by (simp add: double_of_nat_def dval_def)

lemma dmul_near: "near 1 (dval (dmul a b)) (dval a * dval b)"
  using round53_near[of "(fst a * fst b, snd a + snd b)"]
  by (simp add: dmul_def dval_def power_int_add mult_ac)

lemma dval_dscale: "dval (dscale d j) = dval d / 2 powi j"
  by (simp add: dval_def dscale_def power_int_diff)

lemma dle_iff: "dle a b \<longleftrightarrow> dval a \<le> dval b"
proof -
  have shift: "real m * 2 powi e \<le> real n * 2 powi f \<longleftrightarrow> m \<le> n * 2 ^ nat (f - e)"
    "real n * 2 powi f \<le> real m * 2 powi e \<longleftrightarrow> n * 2 ^ nat (f - e) \<le> m" if "e \<le> f" for m n :: nat and e f :: int
  proof -
    define k where "k = nat (f - e)"
    then have f: "f = e + int k" using that by simp
    have p: "(2::real) powi f = 2 powi e * 2 ^ k" unfolding f by (simp add: power_int_add)
    have q: "real n * 2 powi f = real (n * 2 ^ nat (f - e)) * 2 powi e"
      unfolding p k_def[symmetric] of_nat_mult of_nat_power of_nat_numeral by (simp only: mult_ac)
    show "real m * 2 powi e \<le> real n * 2 powi f \<longleftrightarrow> m \<le> n * 2 ^ nat (f - e)"
      "real n * 2 powi f \<le> real m * 2 powi e \<longleftrightarrow> n * 2 ^ nat (f - e) \<le> m"
      unfolding q using zero_less_power_int[of "2::real" e]
      by (simp_all only: mult_le_cancel_right_pos of_nat_le_iff zero_less_numeral simp_thms)
  qed
  show ?thesis
  proof (cases "snd a \<le> snd b")
    case True
    then show ?thesis unfolding dval_def shift(1)[OF True] dle_def by simp
  next
    case False
    then have le: "snd b \<le> snd a" by simp
    show ?thesis unfolding dval_def shift(2)[OF le] using False by (simp add: dle_def)
  qed
qed

text \<open>
  Two numbers that went through five and one roundings compare as the exact ones do, up to one part
  in \<open>2\<^sup>5\<^sup>0\<close>.
\<close>

lemma near_compare:
  assumes "near 5 r a" and "near 1 f b" and "0 \<le> a"
  shows "r \<le> f \<Longrightarrow> a * (1 - 1 / 2 ^ 50) \<le> b" and "f < r \<Longrightarrow> b < a * (1 + 1 / 2 ^ 50)"
proof -
  have u: "(1 - 1 / 2 ^ 50) * (1 + 1 / 2 ^ 53) \<le> (1 - 1 / 2 ^ 53 :: real) ^ 5"
    "(1 + 1 / 2 ^ 53 :: real) ^ 5 \<le> (1 + 1 / 2 ^ 50) * (1 - 1 / 2 ^ 53)" by (simp_all add: power_divide)
  have n: "a * (1 - 1 / 2 ^ 53) ^ 5 \<le> r" "r \<le> a * (1 + 1 / 2 ^ 53) ^ 5"
    "b * (1 - 1 / 2 ^ 53) \<le> f" "f \<le> b * (1 + 1 / 2 ^ 53)" using assms(1,2) by (simp_all only: near_def power_one_right)
  have m: "a * ((1 - 1 / 2 ^ 50) * (1 + 1 / 2 ^ 53)) \<le> r" "r \<le> a * ((1 + 1 / 2 ^ 50) * (1 - 1 / 2 ^ 53))"
    using mult_left_mono[OF u(1) assms(3)] mult_left_mono[OF u(2) assms(3)] n(1,2) by linarith+
  show "a * (1 - 1 / 2 ^ 50) \<le> b" if "r \<le> f"
  proof -
    have "a * (1 - 1 / 2 ^ 50) * (1 + 1 / 2 ^ 53) \<le> b * (1 + 1 / 2 ^ 53)"
      using m(1) n(4) that unfolding mult.assoc by linarith
    then show ?thesis by (rule mult_right_le_imp_le) simp
  qed
  show "b < a * (1 + 1 / 2 ^ 50)" if "f < r"
  proof -
    have "b * (1 - 1 / 2 ^ 53) < a * (1 + 1 / 2 ^ 50) * (1 - 1 / 2 ^ 53)"
      using m(2) n(3) that unfolding mult.assoc by linarith
    then show ?thesis by (rule mult_right_less_imp_less) simp
  qed
qed

text \<open>What is printed is within half a tenth of the value.\<close>

lemma tenths_error: "\<bar>real (tenths d) / 10 - dval d\<bar> \<le> 1 / 20"
proof (cases "0 \<le> snd d")
  case True
  then have p: "(2::real) powi snd d = 2 ^ nat (snd d)" by (simp add: power_int_def)
  have "tenths d = 10 * (fst d * 2 ^ nat (snd d))" using True by (simp only: tenths_def if_True mult.assoc)
  then have "real (tenths d) = 10 * dval d"
    unfolding dval_def p by (simp only: of_nat_mult of_nat_power of_nat_numeral)
  then show ?thesis by simp
next
  case False
  define k where "k = nat (- snd d)"
  define h where "h = real (half_even (10 * fst d) k)"
  have "(2::real) powi snd d = inverse (2 ^ k)" using False by (simp only: power_int_def k_def if_False power_inverse)
  then have "real (10 * fst d) = 10 * dval d * 2 ^ k" by (simp add: dval_def)
  moreover have "\<bar>h * 2 ^ k - real (10 * fst d)\<bar> \<le> 2 ^ k / 2" unfolding h_def by (rule half_even_error)
  ultimately have "\<bar>(h - 10 * dval d) * 2 ^ k\<bar> \<le> 2 ^ k / 2" by (simp only: left_diff_distrib)
  then have "\<bar>h - 10 * dval d\<bar> * 2 ^ k \<le> 1 / 2 * 2 ^ k" by (simp add: abs_mult)
  then have "\<bar>h - 10 * dval d\<bar> \<le> 1 / 2" by (rule mult_right_le_imp_le) simp
  then have "\<bar>real (tenths d) - 10 * dval d\<bar> \<le> 1 / 2" using False by (simp only: h_def tenths_def k_def if_False)
  then show ?thesis by linarith
qed

end
