(* ===== verification/Preflight.thy ===== *)
theory Preflight
  imports Provision Doubles
begin

text \<open>
  \<^verbatim>\<open>src/vmdeploy/preflight.py\<close>: the checks run before a deployment. \<open>platform.system()\<close> is \<open>x_system\<close> of the environment. On Windows
  the free memory comes from \<open>GlobalMemoryStatusEx\<close>, reached through \<open>ctypes\<close>: \<open>x_memory_status\<close> is
  that call, as a function of the structure it is given, with \<open>None\<close> as its failure, or \<open>None\<close>
  where there is no \<open>ctypes.windll\<close>. Elsewhere it is what \<open>os.sysconf\<close> answers, \<open>x_sysconf\<close>, and
  \<open>None\<close> there stands for each way it can fail. \<open>x_is_dir\<close> and \<open>x_disk_free\<close> are the other questions
  put to the operating system. Sizes are compared as doubles (theory \<open>Doubles\<close>).
\<close>

datatype check_status = PASS | WARN | FAIL

fun check_value :: "check_status \<Rightarrow> string" where
  "check_value PASS = ''PASS''"
| "check_value WARN = ''WARN''"
| "check_value FAIL = ''FAIL''"

fun severity :: "check_status \<Rightarrow> nat" where
  "severity PASS = 0"
| "severity WARN = 1"
| "severity FAIL = 2"

lemma severity_inj: "severity a = severity b \<Longrightarrow> a = b"
  by (cases a; cases b) simp_all

instantiation check_status :: linorder
begin

definition less_eq_check_status :: "check_status \<Rightarrow> check_status \<Rightarrow> bool" where
  "a \<le> b \<longleftrightarrow> severity a \<le> severity b"

definition less_check_status :: "check_status \<Rightarrow> check_status \<Rightarrow> bool" where
  "a < b \<longleftrightarrow> severity a < severity b"

instance
  by standard (auto simp: less_eq_check_status_def less_check_status_def intro: severity_inj)

end

record check_result =
  check_name :: string
  status_of :: check_status
  detail :: string

definition check_result :: "string \<Rightarrow> check_status \<Rightarrow> string \<Rightarrow> check_result" where
  "check_result n s d = \<lparr>check_name = n, status_of = s, detail = d\<rparr>"

definition HOST_RAM_HEADROOM_MB :: int where "HOST_RAM_HEADROOM_MB = 1024"

text \<open>\<open>1.3\<close>: the double nearest to it.\<close>

definition DISK_SLACK :: double where "DISK_SLACK = (5854679515581645, -52)"

text \<open>\<open>n / _MB\<close> cut to an integer, and \<open>n / _GB\<close>: \<open>_MB\<close> is \<open>2\<^sup>2\<^sup>0\<close>, \<open>_GB\<close> is \<open>2\<^sup>3\<^sup>0\<close>.\<close>

definition MB_EXPONENT :: int where "MB_EXPONENT = 20"
definition GB_EXPONENT :: int where "GB_EXPONENT = 30"

definition in_mb :: "int \<Rightarrow> int" where
  "in_mb n = sgn n * int (truncated (dscale (double_of_nat (nat \<bar>n\<bar>)) MB_EXPONENT))"

definition in_gb :: "nat \<Rightarrow> double" where
  "in_gb n = dscale (double_of_nat n) GB_EXPONENT"

text \<open>\<open>path.stat().st_size\<close>\<close>

definition stat_size :: "path \<Rightarrow> ('e, nat) prog" where
  "stat_size p = (\<lambda>w. case files w p of
       None \<Rightarrow> (Inl (no_such_file p), w)
     | Some b \<Rightarrow> (Inr (length b), w))"

section \<open>The checks\<close>

text \<open>The structure as \<open>ctypes\<close> creates it, all zero, and its size: two words of 4 bytes, seven of 8.\<close>

definition fresh_memory_status :: memory_status where
  "fresh_memory_status = \<lparr>dwLength = 0, dwMemoryLoad = 0, ullTotalPhys = 0, ullAvailPhys = 0, ullTotalPageFile = 0,
     ullAvailPageFile = 0, ullTotalVirtual = 0, ullAvailVirtual = 0, ullAvailExtendedVirtual = 0\<rparr>"

definition SIZEOF_MEMORY_STATUS :: "32 word" where "SIZEOF_MEMORY_STATUS = 2 * 4 + 7 * 8"

definition windows_available_ram_mb :: "'e env \<Rightarrow> ('e, int option) prog" where
  "windows_available_ram_mb x =
     (case x_memory_status x of
        None \<Rightarrow> ret None
      | Some call \<Rightarrow>
          let status = fresh_memory_status\<lparr>dwLength := SIZEOF_MEMORY_STATUS\<rparr> in
          bnd (asking (\<lambda>s. call s status)) (\<lambda>filled.
          ret (case filled of None \<Rightarrow> None | Some st \<Rightarrow> Some (in_mb (uint (ullAvailPhys st))))))"

definition host_available_ram_mb :: "'e env \<Rightarrow> ('e, int option) prog" where
  "host_available_ram_mb x =
     (if x_system x = ''Windows'' then windows_available_ram_mb x
      else bnd (asking (x_sysconf x)) (\<lambda>answer.
        ret (case answer of None \<Rightarrow> None | Some (pages, bytes) \<Rightarrow> Some (in_mb (pages * bytes)))))"

definition machine_folder_of_output :: "string \<Rightarrow> path option" where
  "machine_folder_of_output out =
     (case find (\<lambda>line. startswith line ''Default machine folder:'') (splitlines out) of
        None \<Rightarrow> None
      | Some line \<Rightarrow> Some (path_of (strip (after_first CHR '':'' line))))"

definition vbox_machine_folder :: "'e env \<Rightarrow> path \<Rightarrow> ('e, path option) prog" where
  "vbox_machine_folder x exe =
     bnd (vbox_run x exe [''list'', ''systemproperties''] False 120) (\<lambda>r.
     ret (if \<not> p_ok r then None else machine_folder_of_output (p_stdout r)))"

definition check_vboxmanage :: "'e env \<Rightarrow> cluster_config \<Rightarrow> ('e, check_result) prog" where
  "check_vboxmanage x config =
     (let path = vboxmanage (cfg_virtualbox config) in
     bnd (is_file path) (\<lambda>present.
     if \<not> present
     then ret (check_result ''VBoxManage'' FAIL
       (''not found at '' @ path_str path @ ''; set [virtualbox].vboxmanage in the configuration''))
     else catch
       (bnd (vboxmanage_init path) (\<lambda>exe.
        bnd (vbox_version x exe) (\<lambda>version.
        ret (check_result ''VBoxManage'' PASS (''VirtualBox '' @ version @ '' at '' @ path_str path)))))
       (\<lambda>e. if is_OSError e \<or> is_ValueError e
            then Some (ret (check_result ''VBoxManage'' FAIL (''found but not runnable: '' @ exn_str e)))
            else None)))"

definition check_ssh_key :: "cluster_config \<Rightarrow> ('e, check_result) prog" where
  "check_ssh_key config =
     (let path = ssh_key_path (cfg_ssh config) in
     bnd (is_file path) (\<lambda>present.
     ret (if \<not> present
       then check_result ''SSH key'' FAIL (''private key not found at '' @ path_str path @ ''; set [ssh].key_path'')
       else check_result ''SSH key'' PASS (''present at '' @ path_str path))))"

definition write_probe :: "cluster_config \<Rightarrow> path" where
  "write_probe config = path_join (path_parent (manifest_file (cfg_inventory config))) ''.vmdeploy-write-test''"

definition check_key_directory_writable :: "cluster_config \<Rightarrow> ('e, check_result) prog" where
  "check_key_directory_writable config =
     (let target = path_parent (manifest_file (cfg_inventory config)); probe = write_probe config in
     catch
       (andthen (mkdir target)
       (andthen (write_text_ascii probe ''ok'')
       (andthen (unlink probe)
       (ret (check_result ''Key/manifest dir'' PASS (path_str target @ '' is writable''))))))
       (\<lambda>e. if is_OSError e
            then Some (ret (check_result ''Key/manifest dir'' FAIL
              (path_str target @ '' is not writable: '' @ exn_str e)))
            else None))"

definition check_host_ram :: "'e env \<Rightarrow> cluster_config \<Rightarrow> ('e, check_result) prog" where
  "check_host_ram x config =
     (let guests = int (length (all_hosts config));
          memory = memory_mb (cfg_virtualbox config);
          required = guests * memory + HOST_RAM_HEADROOM_MB in
     bnd (host_available_ram_mb x) (\<lambda>available.
     ret (case available of
       None \<Rightarrow> check_result ''Host RAM'' WARN ''could not determine available RAM on this platform''
     | Some free \<Rightarrow>
         let summary = show_int free @ '' MB available, need ~'' @ show_int required @ '' MB ('' @ show_int guests
               @ '' guest(s) x '' @ show_int memory @ '' MB + '' @ show_int HOST_RAM_HEADROOM_MB @ '' MB headroom)'' in
         if required \<le> free then check_result ''Host RAM'' PASS summary
         else if guests * memory \<le> free
         then check_result ''Host RAM'' WARN (summary @ ''; guests fit but headroom is tight, expect paging'')
         else check_result ''Host RAM'' FAIL summary)))"

text \<open>The directory measured, the footprint of one guest, and the verdict on both.\<close>

definition probe_directory :: "'e env \<Rightarrow> cluster_config \<Rightarrow> ('e, path) prog" where
  "probe_directory x config =
     (let vbox_path = vboxmanage (cfg_virtualbox config) in
     bnd (is_file vbox_path) (\<lambda>present.
     bnd (if present then bnd (vboxmanage_init vbox_path) (vbox_machine_folder x) else ret None) (\<lambda>machine_folder.
     ret (case machine_folder of
            Some folder \<Rightarrow> folder
          | None \<Rightarrow> path_parent (template_ova (cfg_virtualbox config))))))"

definition disk_usage :: "'e env \<Rightarrow> path \<Rightarrow> ('e, string + nat) prog" where
  "disk_usage x probe_dir =
     bnd (path_exists x probe_dir) (\<lambda>present.
     asking (\<lambda>s. x_disk_free x s (if present then path_str probe_dir else root_of probe_dir)))"

definition guest_footprint :: "cluster_config \<Rightarrow> ('e, double) prog" where
  "guest_footprint config =
     (let ova = template_ova (cfg_virtualbox config) in
     bnd (is_file ova) (\<lambda>present.
     if present then bnd (stat_size ova) (\<lambda>size. ret (in_gb size)) else ret (8, 0)))"

definition required_disk :: "double \<Rightarrow> nat \<Rightarrow> double" where
  "required_disk per_guest guests = dmul (dmul per_guest (double_of_nat guests)) DISK_SLACK"

definition disk_verdict :: "path \<Rightarrow> nat \<Rightarrow> double \<Rightarrow> nat \<Rightarrow> check_result" where
  "disk_verdict probe_dir free per_guest_gb guests =
     (let required_gb = required_disk per_guest_gb guests; free_gb = in_gb free;
          summary = fixed1 free_gb @ '' GB free on '' @ path_str probe_dir @ '', need ~'' @ fixed1 required_gb
            @ '' GB ('' @ show_nat guests @ '' guest(s) x '' @ fixed1 per_guest_gb @ '' GB)'' in
      if dle required_gb free_gb then check_result ''Host disk'' PASS summary
      else check_result ''Host disk'' FAIL summary)"

definition check_host_disk :: "'e env \<Rightarrow> cluster_config \<Rightarrow> ('e, check_result) prog" where
  "check_host_disk x config =
     bnd (probe_directory x config) (\<lambda>probe_dir.
     bnd (disk_usage x probe_dir) (\<lambda>usage.
     case usage of
       Inl msg \<Rightarrow> ret (check_result ''Host disk'' WARN
         (''could not measure '' @ path_str probe_dir @ '': '' @ exn_str (OSError msg)))
     | Inr free \<Rightarrow>
         bnd (guest_footprint config) (\<lambda>per_guest_gb.
         ret (disk_verdict probe_dir free per_guest_gb (length (all_hosts config))))))"

definition check_template_or_ova :: "'e env \<Rightarrow> cluster_config \<Rightarrow> ('e, check_result) prog" where
  "check_template_or_ova x config =
     (let vb = cfg_virtualbox config; ova = template_ova vb;
          missing = ret (check_result ''Template/OVA'' FAIL (''neither a golden OVA ('' @ path_str ova
            @ '') nor the template VM '' @ quoted (template_vm vb) @ '' is available'')) in
     bnd (is_file ova) (\<lambda>built.
     if built then bnd (stat_size ova) (\<lambda>size.
       ret (check_result ''Template/OVA'' PASS
         (''golden OVA present at '' @ path_str ova @ '' ('' @ fixed1 (in_gb size) @ '' GB)'')))
     else bnd (is_file (vboxmanage vb)) (\<lambda>present.
       if \<not> present then missing
       else bnd (vboxmanage_init (vboxmanage vb)) (\<lambda>exe.
         bnd (vm_exists x exe (template_vm vb)) (\<lambda>registered.
         if registered
         then ret (check_result ''Template/OVA'' WARN (''no golden OVA yet, but template VM ''
           @ quoted (template_vm vb) @ '' is registered; run ''
           @ quoted ''vmdeploy template'' @ '' to build the image first''))
         else missing)))))"

definition run_preflight :: "'e env \<Rightarrow> cluster_config \<Rightarrow> ('e, check_result list) prog" where
  "run_preflight x config =
     bnd (check_vboxmanage x config) (\<lambda>c1.
     bnd (check_ssh_key config) (\<lambda>c2.
     bnd (check_key_directory_writable config) (\<lambda>c3.
     bnd (check_host_ram x config) (\<lambda>c4.
     bnd (check_host_disk x config) (\<lambda>c5.
     bnd (check_template_or_ova x config) (\<lambda>c6.
     ret [c1, c2, c3, c4, c5, c6]))))))"

definition worst_status :: "check_result list \<Rightarrow> check_status" where
  "worst_status results =
     (let statuses = status_of ` set results in
      if FAIL \<in> statuses then FAIL else if WARN \<in> statuses then WARN else PASS)"

definition format_report :: "check_result list \<Rightarrow> string" where
  "format_report results =
     (let width = foldr max (map (\<lambda>r. length (check_name r)) results) 0 in
      join [c_nl] (map (\<lambda>r. ''  ['' @ ljust 4 (check_value (status_of r)) @ ''] ''
        @ ljust width (check_name r) @ ''  '' @ detail r) results))"

section \<open>Effects and exceptions\<close>

lemma stat_size_effects [evolve_intros]: "evolution R \<Longrightarrow> evolves R (stat_size p)"
  by (auto simp: evolves_def stat_size_def evolution_def split: option.splits)

lemma unlink_or_write [evolve_intros]: "evolves (emits P) (write_text_ascii p t)"
  unfolding write_text_ascii_def by (intro evolve_intros)

lemmas check_defs = check_vboxmanage_def check_ssh_key_def check_key_directory_writable_def check_host_ram_def
  host_available_ram_mb_def windows_available_ram_mb_def check_host_disk_def probe_directory_def vbox_machine_folder_def disk_usage_def
  guest_footprint_def check_template_or_ova_def vbox_version_def vm_exists_def list_vms_def

text \<open>The calls a check makes: VBoxManage, asked for its version or for a list.\<close>

definition inspects :: "cluster_config \<Rightarrow> event \<Rightarrow> bool" where
  "inspects config ev \<longleftrightarrow> (\<exists>args out. ev = EvProc (path_str (vboxmanage (cfg_virtualbox config)) # args) out
     \<and> args \<in> {[''--version''], [''list'', ''vms''], [''list'', ''systemproperties'']})"

lemma emit_inspects:
  "args \<in> {[''--version''], [''list'', ''vms''], [''list'', ''systemproperties'']} \<Longrightarrow>
   evolves (emits (inspects config)) (vbox_run x (vboxmanage (cfg_virtualbox config)) args c t)"
  by (rule emit_vbox_run) (auto simp: inspects_def)

lemma vboxmanage_init_bnd:
  "bnd (vboxmanage_init p) k = bnd (is_file p) (\<lambda>present. if present then k p
     else raise (VirtualBoxError [path_str p] (-1) ''VBoxManage executable not found''))"
  by (rule ext) (simp add: vboxmanage_init_def run_simps)

lemma emit_checks:
  "evolves (emits (inspects config)) (check_vboxmanage x config)"
  "evolves (emits (inspects config)) (check_ssh_key config)"
  "evolves (emits (inspects config)) (check_key_directory_writable config)"
  "evolves (emits (inspects config)) (check_host_ram x config)"
  "evolves (emits (inspects config)) (check_host_disk x config)"
  "evolves (emits (inspects config)) (check_template_or_ova x config)"
  unfolding vboxmanage_init_bnd check_defs Let_def bnd_assoc
  by (intro evolve_intros emit_inspects; auto split: if_splits intro!: evolve_intros)+

text \<open>The checks other than that of the key directory touch no file.\<close>

lemma keep_checks:
  "evolves (keeps_files P) (check_vboxmanage x config)"
  "evolves (keeps_files P) (check_ssh_key config)"
  "evolves (keeps_files P) (check_host_ram x config)"
  "evolves (keeps_files P) (check_host_disk x config)"
  "evolves (keeps_files P) (check_template_or_ova x config)"
  unfolding check_defs vboxmanage_init_def Let_def
  by (intro evolve_intros; auto split: if_splits intro!: evolve_intros)+

section \<open>Free memory\<close>

text \<open>
  Below \<open>2\<^sup>5\<^sup>3\<close> bytes the division by a mebibyte in doubles is the exact quotient, so that the
  memory check passes on Windows exactly when the bytes the system reports free are enough.
\<close>

lemma in_mb_exact: "0 \<le> n \<Longrightarrow> n < 2 ^ 53 \<Longrightarrow> in_mb n = n div 2 ^ 20"
proof -
  assume n: "0 \<le> n" "n < 2 ^ 53"
  define m where "m = nat n"
  have m: "m < 2 ^ 53" "n = int m" using n by (simp_all add: m_def nat_less_iff)
  have "bit_len m \<le> 53"
  proof (rule ccontr)
    assume "\<not> bit_len m \<le> 53"
    then have "m \<noteq> 0" "(53::nat) \<le> bit_len m - 1" by (auto simp: bit_len_0 intro: ccontr)
    then have "(2::nat) ^ 53 \<le> 2 ^ (bit_len m - 1)" by (intro power_increasing) simp_all
    with bit_len_lower[OF \<open>m \<noteq> 0\<close>] m show False by linarith
  qed
  then have "double_of_nat m = (m, 0)" by (simp add: double_of_nat_def round53_def half_even_def Let_def)
  then have "in_mb n = sgn n * int (m div 2 ^ 20)"
    by (simp add: in_mb_def m_def dscale_def truncated_def MB_EXPONENT_def n)
  moreover have "int (m div 2 ^ 20) = n div 2 ^ 20" unfolding m(2) zdiv_int by simp
  ultimately show ?thesis using m by (cases "m = 0") (simp_all add: sgn_if)
qed

lemma check_host_ram_windows:
  assumes "x_system x = ''Windows''" and "x_memory_status x = Some call"
    and "call (ext w) (fresh_memory_status\<lparr>dwLength := 64\<rparr>) = Some st" and "uint (ullAvailPhys st) < 2 ^ 53"
  shows "\<exists>c. check_host_ram x config w = (Inr c, w)
    \<and> (status_of c = PASS \<longleftrightarrow> (int (length (all_hosts config)) * memory_mb (cfg_virtualbox config) + 1024) * 2 ^ 20
         \<le> uint (ullAvailPhys st))"
proof -
  have "in_mb (uint (ullAvailPhys st)) = uint (ullAvailPhys st) div 2 ^ 20"
    by (rule in_mb_exact) (use assms(4) in simp_all)
  moreover have "a \<le> b div 2 ^ 20 \<longleftrightarrow> a * 2 ^ 20 \<le> b" for a b :: int
  proof -
    have "b = b div 1048576 * 1048576 + b mod 1048576" "0 \<le> b mod 1048576" "b mod 1048576 < 1048576" by simp_all
    then have "a \<le> b div 1048576 \<longleftrightarrow> a * 1048576 \<le> b" by linarith
    then show ?thesis by simp
  qed
  ultimately show ?thesis using assms
    by (simp add: check_host_ram_def host_available_ram_mb_def windows_available_ram_mb_def run_simps Let_def
        SIZEOF_MEMORY_STATUS_def HOST_RAM_HEADROOM_MB_def check_result_def)
qed

section \<open>Verdicts\<close>

text \<open>
  C40: the verdict on a list of checks is the most severe status of the list, in the order
  PASS, WARN, FAIL, and PASS for no check at all.
\<close>

theorem worst_status_maximum:
  "worst_status results = Max (insert PASS (status_of ` set results))"
proof -
  have fin: "finite (insert PASS (status_of ` set results))" by simp
  have "s \<le> FAIL" "PASS \<le> s" "s = FAIL \<or> s \<le> WARN" "s = FAIL \<or> s = WARN \<or> s \<le> PASS" for s
    by (cases s; simp add: less_eq_check_status_def)+
  then show ?thesis unfolding worst_status_def Let_def
    by (intro Max_eqI[OF fin, symmetric]) (auto split: if_splits, (metis image_eqI)+)
qed

lemma run_stat_size: "files w p = Some b \<Longrightarrow> stat_size p w = (Inr (length b), w)"
  by (simp add: stat_size_def)

text \<open>What the guests need, counted exactly, in bytes.\<close>

definition disk_need :: "cluster_config \<Rightarrow> 'e world \<Rightarrow> real" where
  "disk_need config w = 13 / 10 * real (length (all_hosts config))
     * (case files w (template_ova (cfg_virtualbox config)) of None \<Rightarrow> 8 * 2 ^ 30 | Some ova \<Rightarrow> real (length ova))"

lemma near_gb: "near 1 (dval (in_gb n)) (real n / 2 ^ 30)"
proof -
  have "dval (in_gb n) = dval (double_of_nat n) / 2 ^ 30"
    by (simp add: in_gb_def dval_dscale GB_EXPONENT_def)
  then show ?thesis using double_of_nat_near[of n] by (simp add: near_def divide_right_mono)
qed

lemma near_slack: "near 1 (dval DISK_SLACK) (13 / 10)"
  by (simp add: near_def dval_def DISK_SLACK_def)

lemma near_weaken:
  assumes "near 0 a b" and "0 \<le> b"
  shows "near 1 a b"
  using assms by (simp add: near_def algebra_simps)

lemma near_required:
  assumes "near 1 (dval d) a" and "0 \<le> a"
  shows "near 5 (dval (required_disk d n)) (a * real n * (13 / 10))"
proof -
  have "near 2 (dval d * dval (double_of_nat n)) (a * real n)"
    using near_mult[OF assms(1) double_of_nat_near assms(2)] by (simp add: numeral_2_eq_2)
  from near_trans[OF dmul_near this] have "near 3 (dval (dmul d (double_of_nat n))) (a * real n)" by simp
  from near_mult[OF this near_slack]
  have "near 4 (dval (dmul d (double_of_nat n)) * dval DISK_SLACK) (a * real n * (13 / 10))" using assms(2) by simp
  from near_trans[OF dmul_near this] show ?thesis by (simp add: required_disk_def)
qed

lemma run_guest_footprint:
  "guest_footprint config w = (Inr (case files w (template_ova (cfg_virtualbox config)) of
     None \<Rightarrow> (8, 0) | Some ova \<Rightarrow> in_gb (length ova)), w)"
  by (simp add: guest_footprint_def run_simps stat_size_def Let_def split: option.splits)

lemma near_footprint:
  "near 1 (dval (case files w p of None \<Rightarrow> (8, 0) | Some ova \<Rightarrow> in_gb (length ova)))
     ((case files w p of None \<Rightarrow> 8 * 2 ^ 30 | Some ova \<Rightarrow> real (length ova)) / 2 ^ 30)"
proof (cases "files w p")
  case None
  then show ?thesis by (simp add: near_def dval_def)
next
  case (Some ova)
  then show ?thesis using near_gb[of "length ova"] by simp
qed

text \<open>
  C16: the disk check is right up to rounding. The directory measured is the machine folder that
  VirtualBox reports, else that of the golden image. Write \<open>need\<close> for 1.3 times the size of the
  image (8 GB without one) times the number of guests, in bytes. When the free space cannot be
  read the check warns; when it passes, the free space is at least \<open>need\<close> less one part in
  \<open>2\<^sup>5\<^sup>0\<close>; when it fails, it is below \<open>need\<close> plus one part in \<open>2\<^sup>5\<^sup>0\<close>. Nothing else is asked or changed,
  and the check fails with an exception only where the machine folder was asked for.
\<close>

theorem check_host_disk_accurate:
  "case probe_directory x config w of
     (Inl e, v) \<Rightarrow> check_host_disk x config w = (Inl e, v)
   | (Inr dir, v) \<Rightarrow>
       let answer = x_disk_free x (ext v) (if files v dir = None \<and> \<not> x_is_dir x (ext v) dir then root_of dir else path_str dir) in
       \<exists>c. check_host_disk x config w = (Inr c, v) \<and> files v = files w
         \<and> (case (status_of c, answer) of
              (PASS, Inr free) \<Rightarrow> disk_need config w * (1 - 1 / 2 ^ 50) \<le> real free
            | (FAIL, Inr free) \<Rightarrow> real free < disk_need config w * (1 + 1 / 2 ^ 50)
            | (WARN, Inl msg) \<Rightarrow> True
            | _ \<Rightarrow> False)"
proof (cases "probe_directory x config w")
  case (Pair r v)
  have "evolves (keeps_files (\<lambda>_. True)) (probe_directory x config)"
    unfolding probe_directory_def vbox_machine_folder_def vboxmanage_init_def Let_def
    by (intro evolve_intros; auto split: if_splits intro!: evolve_intros)
  then have files: "files v = files w" using Pair by (metis evolvesD keeps_files_all)
  show ?thesis
  proof (cases r)
    case (Inl e)
    then show ?thesis using Pair by (simp add: check_host_disk_def run_simps)
  next
    case (Inr dir)
    define answer where "answer = x_disk_free x (ext v)
      (if files v dir = None \<and> \<not> x_is_dir x (ext v) dir then root_of dir else path_str dir)"
    define per where "per = (case files w (template_ova (cfg_virtualbox config)) of
      None \<Rightarrow> (8, 0) | Some ova \<Rightarrow> in_gb (length ova))"
    define n where "n = length (all_hosts config)"
    have run: "check_host_disk x config w = (case answer of
        Inl msg \<Rightarrow> (Inr (check_result ''Host disk'' WARN (''could not measure '' @ path_str dir @ '': '' @ exn_str (OSError msg))), v)
      | Inr free \<Rightarrow> (Inr (disk_verdict dir free per n), v))"
      unfolding answer_def per_def n_def using Pair Inr files
      by (simp add: check_host_disk_def run_simps disk_usage_def run_guest_footprint split: sum.splits)
    have need: "near 5 (dval (required_disk per n)) (disk_need config w / 2 ^ 30)"
      using near_required[OF near_footprint, of w "template_ova (cfg_virtualbox config)" n]
      unfolding per_def[symmetric] disk_need_def n_def by (simp add: mult_ac split: option.splits)
    have pos: "0 \<le> disk_need config w / 2 ^ 30" by (simp add: disk_need_def split: option.splits)
    have cmp: "if dle (required_disk per n) (in_gb free)
        then disk_need config w * (1 - 1 / 2 ^ 50) \<le> real free
        else real free < disk_need config w * (1 + 1 / 2 ^ 50)" for free
      using near_compare[OF need near_gb[of free] pos] unfolding dle_iff
      by (auto simp: field_simps)
    show ?thesis
    proof (cases answer)
      case (Inl msg)
      then show ?thesis unfolding Pair \<open>r = Inr dir\<close> prod.case sum.case Let_def answer_def[symmetric]
        using run files by (simp add: check_result_def)
    next
      case (Inr free)
      then show ?thesis unfolding Pair \<open>r = Inr dir\<close> prod.case sum.case Let_def answer_def[symmetric]
        using run files cmp[of free] by (auto simp: disk_verdict_def check_result_def Let_def)
    qed
  qed
qed

text \<open>
  C38: the check of VBoxManage, on every outcome of the program it runs. Without the file it
  reports a failure and runs nothing; a version printed with status 0 is a pass; every other
  outcome, a non-zero status, a timeout or an operating system error, is not reported as a
  failed check but escapes as an exception.
\<close>

theorem check_vboxmanage_outcome:
  "let path = vboxmanage (cfg_virtualbox config) in
   case check_vboxmanage x config w of (r, w') \<Rightarrow>
     if files w path = None then w' = w \<and> gives (\<lambda>c. status_of c = FAIL) r \<and> fails_as (\<lambda>_. False) r
     else case x_proc x [path_str path, ''--version''] 120 (ext w) of (out, _) \<Rightarrow>
       (case out of
          Some (ProcDone status text err) \<Rightarrow>
            if status = 0
            then r = Inr (check_result ''VBoxManage'' PASS (''VirtualBox '' @ strip text @ '' at '' @ path_str path))
            else r = Inl (VirtualBoxError [''--version''] status err)
        | Some ProcTimeout \<Rightarrow> r = Inl (VirtualBoxError [''--version''] (-1) (''timed out after '' @ show_int 120 @ ''s''))
        | Some (ProcOSError msg) \<Rightarrow> r = Inl (VirtualBoxError [''--version''] (-1) msg)
        | None \<Rightarrow> r = Inl KeyboardInterrupt)"
  by (auto simp: check_vboxmanage_def run_simps vboxmanage_init_def vbox_version_def run_vbox_run Let_def
      check_result_def gives_def fails_as_def
      split: prod.splits option.splits proc_outcome.splits)

definition preflight_exn :: "exn \<Rightarrow> bool" where
  "preflight_exn e \<longleftrightarrow> is_VirtualBoxError e \<or> e = KeyboardInterrupt"

lemma preflight_exn_simps [simp]:
  "preflight_exn (VirtualBoxError a n s)" "preflight_exn KeyboardInterrupt" "\<not> preflight_exn (OSError m)"
  by (simp_all add: preflight_exn_def)

lemma throws_inspection [throws_intros]: "throws preflight_exn (vbox_run x exe args c t)"
  unfolding vbox_run_def Let_def by (intro throws_intros) auto

lemma throws_checks:
  "throws preflight_exn (check_vboxmanage x config)" "throws preflight_exn (check_ssh_key config)"
  "throws preflight_exn (check_host_ram x config)" "throws preflight_exn (probe_directory x config)"
  unfolding check_defs vboxmanage_init_def Let_def
  by (intro throws_intros throws_catch[where Q = preflight_exn]; auto split: if_splits intro!: throws_intros)+

lemma run_check_ssh_key:
  "check_ssh_key config w = (Inr (if files w (ssh_key_path (cfg_ssh config)) = None
      then check_result ''SSH key'' FAIL (''private key not found at '' @ path_str (ssh_key_path (cfg_ssh config)) @ ''; set [ssh].key_path'')
      else check_result ''SSH key'' PASS (''present at '' @ path_str (ssh_key_path (cfg_ssh config)))), w)"
  by (simp add: check_ssh_key_def run_simps Let_def)

text \<open>
  The directory check passes exactly when its three steps succeed, each of which can be refused on its
  own; and what it leaves of the probe: nothing when all three succeed, the file as it was when it could
  not be opened, what was written of it when the disk was full or its removal refused.
\<close>

definition key_directory_ok :: "cluster_config \<Rightarrow> 'e world \<Rightarrow> bool" where
  "key_directory_ok config w \<longleftrightarrow> \<not> denied w Making (path_parent (manifest_file (cfg_inventory config)))
     \<and> \<not> denied w Opening (write_probe config) \<and> fits w (write_probe config) (ascii_encode ''ok'')
     \<and> \<not> denied w Removing (write_probe config)"

definition probe_left :: "cluster_config \<Rightarrow> 'e world \<Rightarrow> bytes option" where
  "probe_left config w =
     (let probe = write_probe config; payload = ascii_encode ''ok'' in
      if denied w Making (path_parent (manifest_file (cfg_inventory config))) \<or> denied w Opening probe then files w probe
      else if \<not> fits w probe payload then Some (take (the (room w probe)) payload)
      else if denied w Removing probe then Some payload
      else None)"

lemma check_key_directory_outcome:
  "case check_key_directory_writable config w of (r, w') \<Rightarrow>
     \<exists>c. r = Inr c \<and> check_name c = ''Key/manifest dir''
       \<and> status_of c = (if key_directory_ok config w then PASS else FAIL)
       \<and> w' = w\<lparr>files := (files w)(write_probe config := probe_left config w)\<rparr>"
  by (auto simp: check_key_directory_writable_def run_simps mkdir_def write_text_ascii_def write_bytes_def unlink_def
      check_result_def is_ascii_def Let_def key_directory_ok_def probe_left_def fun_upd_idem)

lemma check_names:
  "check_vboxmanage x config w = (Inr c, w') \<Longrightarrow> check_name c = ''VBoxManage''
     \<and> status_of c = (if files w (vboxmanage (cfg_virtualbox config)) = None then FAIL else PASS)"
  "check_host_ram x config w = (Inr c, w') \<Longrightarrow> check_name c = ''Host RAM''"
  "check_host_disk x config w = (Inr c, w') \<Longrightarrow> check_name c = ''Host disk''"
  by (auto simp: check_vboxmanage_def vboxmanage_init_def vbox_version_def run_vbox_run check_host_ram_def
      check_host_disk_def disk_verdict_def run_simps run_inv check_result_def Let_def
      split: prod.splits option.splits sum.splits proc_outcome.splits if_splits)

lemma throws_check_host_disk: "throws preflight_exn (check_host_disk x config)"
proof -
  have "throws preflight_exn (guest_footprint config)" by (rule throwsI) (simp add: run_guest_footprint)
  then show ?thesis unfolding check_host_disk_def disk_usage_def by (intro throws_intros throws_checks)
qed

text \<open>VirtualBox listed the template, in the last call made.\<close>

definition template_listed :: "cluster_config \<Rightarrow> 'e world \<Rightarrow> bool" where
  "template_listed config w \<longleftrightarrow> (\<exists>before out err. trace w = before
      @ [EvProc [path_str (vboxmanage (cfg_virtualbox config)), ''list'', ''vms''] (Some (ProcDone 0 out err))]
    \<and> template_vm (cfg_virtualbox config) \<in> set (vms_of_output out))"

lemma check_template_outcome:
  assumes "check_template_or_ova x config w = (r, w')"
  shows "fails_as preflight_exn r \<and> gives (\<lambda>c. check_name c = ''Template/OVA''
    \<and> (status_of c = FAIL \<or> files w (template_ova (cfg_virtualbox config)) \<noteq> None \<or> template_listed config w')) r"
  using assms
  by (auto simp: check_template_or_ova_def vboxmanage_init_def vm_exists_def list_vms_def run_vbox_run run_simps
      stat_size_def check_result_def template_listed_def gives_def fails_as_def Let_def
      split: prod.splits option.splits proc_outcome.splits if_splits)

lemma worst_not_fail: "worst_status cs \<noteq> FAIL \<longleftrightarrow> (\<forall>c \<in> set cs. status_of c \<noteq> FAIL)"
  by (auto simp: worst_status_def Let_def) (metis image_eqI)+

lemma run_preflight_result:
  "case run_preflight x config w of (r, w') \<Rightarrow>
     let vb = cfg_virtualbox config in
     emits (inspects config) w w' \<and> fails_as preflight_exn r
     \<and> files w' \<in> {files w, (files w)(write_probe config := probe_left config w)}
     \<and> gives (\<lambda>cs. map check_name cs =
            [''VBoxManage'', ''SSH key'', ''Key/manifest dir'', ''Host RAM'', ''Host disk'', ''Template/OVA'']
          \<and> (if worst_status cs = FAIL then True
             else files w (vboxmanage vb) \<noteq> None \<and> files w (ssh_key_path (cfg_ssh config)) \<noteq> None
               \<and> key_directory_ok config w \<and> files w' = (files w)(write_probe config := None)
               \<and> (if files w' (template_ova vb) = None then template_listed config w' else True))) r"
proof -
  let ?left = "(files w)(write_probe config := probe_left config w)"
  obtain r w' where run: "run_preflight x config w = (r, w')" by (cases "run_preflight x config w")
  have em: "emits (inspects config) w w'"
  proof -
    have "evolves (emits (inspects config)) (run_preflight x config)"
      unfolding run_preflight_def by (intro evolve_intros emit_checks)
    from evolvesD[OF this run] show ?thesis .
  qed
  have ex: "fails_as preflight_exn r"
  proof -
    have "throws preflight_exn (check_key_directory_writable config)"
    proof (rule throwsI)
      fix u e u'
      assume "check_key_directory_writable config u = (Inl e, u')"
      then show "preflight_exn e" using check_key_directory_outcome[of config u] by (simp add: Let_def)
    qed
    moreover have "throws preflight_exn (check_template_or_ova x config)"
      by (rule throwsI) (auto dest!: check_template_outcome)
    ultimately have "throws preflight_exn (run_preflight x config)"
      unfolding run_preflight_def by (intro throws_intros throws_checks throws_check_host_disk)
    then show ?thesis using run by (metis throws_def fst_conv)
  qed
  obtain r1 v1 where r1: "check_vboxmanage x config w = (r1, v1)" by (cases "check_vboxmanage x config w")
  have k1: "files v1 = files w" "denied v1 = denied w" "room v1 = room w"
    using evolvesD[OF keep_checks(1)[of "\<lambda>_. True"] r1] by (auto simp: keeps_files_def)
  obtain c3 v3 where r3: "check_key_directory_writable config v1 = (Inr c3, v3)"
    and c3: "check_name c3 = ''Key/manifest dir''"
      "status_of c3 = (if key_directory_ok config w then PASS else FAIL)" "files v3 = ?left"
    using check_key_directory_outcome[of config v1] k1
    by (cases "check_key_directory_writable config v1")
      (auto simp: key_directory_ok_def probe_left_def fits_def Let_def)
  obtain r4 v4 where r4: "check_host_ram x config v3 = (r4, v4)" by (cases "check_host_ram x config v3")
  obtain r5 v5 where r5: "check_host_disk x config v4 = (r5, v5)" by (cases "check_host_disk x config v4")
  obtain r6 v6 where r6: "check_template_or_ova x config v5 = (r6, v6)" by (cases "check_template_or_ova x config v5")
  have k: "files v4 = files v3" "files v5 = files v3" "files v6 = files v3"
    using evolvesD[OF keep_checks(3)[of "\<lambda>_. True"] r4] evolvesD[OF keep_checks(4)[of "\<lambda>_. True"] r5]
      evolvesD[OF keep_checks(5)[of "\<lambda>_. True"] r6] by (auto simp: keeps_files_def)
  have run': "(r, w') = (case r1 of Inl e \<Rightarrow> (Inl e, v1) | Inr c1 \<Rightarrow> (case r4 of Inl e \<Rightarrow> (Inl e, v4) | Inr c4 \<Rightarrow>
      (case r5 of Inl e \<Rightarrow> (Inl e, v5) | Inr c5 \<Rightarrow> (case r6 of Inl e \<Rightarrow> (Inl e, v6) | Inr c6 \<Rightarrow>
        (Inr [c1, projr (fst (check_ssh_key config v1)), c3, c4, c5, c6], v6)))))"
    unfolding run[symmetric]
    by (simp add: run_preflight_def run_simps r1 r3 r4 r5 r6 run_check_ssh_key split: sum.splits)
  have fl: "files w' \<in> {files w, ?left}"
    using run' k c3(3) k1 by (auto split: sum.splits)
  show ?thesis
  proof (cases r)
    case (Inl e)
    then show ?thesis using run em ex fl by (simp add: gives_def Let_def)
  next
    case (Inr cs)
    then obtain c1 c4 c5 c6 where c: "r1 = Inr c1" "r4 = Inr c4" "r5 = Inr c5" "r6 = Inr c6" "w' = v6"
      "cs = [c1, projr (fst (check_ssh_key config v1)), c3, c4, c5, c6]"
      using run' by (auto split: sum.splits)
    have t: "check_name c6 = ''Template/OVA''"
      "status_of c6 = FAIL \<or> files w' (template_ova (cfg_virtualbox config)) \<noteq> None \<or> template_listed config w'"
      using check_template_outcome[OF r6] c k by (auto simp: gives_def)
    note n1 = check_names(1)[OF r1[unfolded c(1)]] and n4 = check_names(2)[OF r4[unfolded c(2)]]
      and n5 = check_names(3)[OF r5[unfolded c(3)]]
    have key: "check_name (projr (fst (check_ssh_key config v1))) = ''SSH key''"
      "status_of (projr (fst (check_ssh_key config v1)))
        = (if files w (ssh_key_path (cfg_ssh config)) = None then FAIL else PASS)"
      by (simp_all add: run_check_ssh_key check_result_def k1)
    have n: "map check_name cs =
        [''VBoxManage'', ''SSH key'', ''Key/manifest dir'', ''Host RAM'', ''Host disk'', ''Template/OVA'']"
      unfolding c(6) by (simp only: list.map n1 n4 n5 t(1) c3(1) key)
    have "files w (vboxmanage (cfg_virtualbox config)) \<noteq> None \<and> files w (ssh_key_path (cfg_ssh config)) \<noteq> None
        \<and> key_directory_ok config w \<and> files w' = (files w)(write_probe config := None)
        \<and> (files w' (template_ova (cfg_virtualbox config)) = None \<longrightarrow> template_listed config w')"
      if "worst_status cs \<noteq> FAIL"
    proof -
      have "status_of c1 \<noteq> FAIL" "status_of (projr (fst (check_ssh_key config v1))) \<noteq> FAIL" "status_of c3 \<noteq> FAIL"
        "status_of c6 \<noteq> FAIL" using that unfolding worst_not_fail c(6) by simp_all
      moreover have "files w' = ?left" using c(5) k c3(3) by simp
      moreover have "probe_left config w = None" if "key_directory_ok config w"
        using that by (simp add: key_directory_ok_def probe_left_def)
      ultimately show ?thesis using n1 key(2) c3(2) t(2) by (auto split: if_splits)
    qed
    then show ?thesis using run Inr em ex fl n by (simp add: gives_def Let_def)
  qed
qed


end
