(* ===== verification/Cli.thy ===== *)
theory Cli
  imports Preflight
begin

text \<open>
  \<^verbatim>\<open>src/vmdeploy/cli.py\<close>: the commands. \<open>argparse.Namespace\<close> is the record \<open>namespace\<close>; a
  command's own options are read only by that command, and the two options read with \<open>getattr\<close>
  are \<open>None\<close> where the command does not declare them. The log is not modelled.
\<close>

record namespace =
  command :: string
  config_path :: path
  goservice_dir :: path
  export_only :: "bool option"
  skip_preflight :: "bool option"
  new_user :: string
  new_key :: string
  keys_only :: bool
  restore_user :: string
  pubkey_file :: string
  leave_running :: bool
  yes :: bool

definition DEFAULT_CONFIG :: path where "DEFAULT_CONFIG = path_of ''config/cluster.toml''"
definition GOSERVICE_DIR :: path where "GOSERVICE_DIR = path_of ''goservice''"
definition EXIT_OK :: int where "EXIT_OK = 0"
definition EXIT_FAILURE :: int where "EXIT_FAILURE = 1"
definition EXIT_INTERRUPTED :: int where "EXIT_INTERRUPTED = 130"

section \<open>The parser\<close>

text \<open>
  \<open>build_parser\<close> as tables: the spellings of an option, the attribute it sets and whether it takes a
  value; the options common to all commands come before the command.
\<close>

type_synonym option_table = "(string list \<times> string \<times> bool) list"

definition common_options :: option_table where
  "common_options = [([''-c'', ''--config''], ''config'', True), ([''--goservice-dir''], ''goservice_dir'', True),
     ([''-v'', ''--verbose''], ''verbose'', False)]"

definition command_options :: "(string \<times> option_table) list" where
  "command_options =
     [(''template'', [([''--export-only''], ''export_only'', False)]),
      (''setup'', [([''--new-user''], ''new_user'', True), ([''--new-key''], ''new_key'', True),
         ([''--keys-only''], ''keys_only'', False)]),
      (''restore-bootstrap'', [([''--user''], ''user'', True), ([''--pubkey-file''], ''pubkey_file'', True),
         ([''--leave-running''], ''leave_running'', False)]),
      (''provision'', []), (''configure'', []), (''preflight'', []),
      (''deploy'', [([''--export-only''], ''export_only'', False), ([''--skip-preflight''], ''skip_preflight'', False)]),
      (''status'', []),
      (''teardown'', [([''--yes''], ''yes'', False)])]"

definition required_options :: "string \<Rightarrow> string list" where
  "required_options cmd = (if cmd = ''restore-bootstrap'' then [''user'', ''pubkey_file''] else [])"

text \<open>
  The options at the head of an argument list, each spelled out in full and a value in the next
  argument, not starting with a hyphen; the last of several wins. \<open>None\<close> for every other list:
  those \<open>argparse\<close> refuses, and its other spellings (abbreviations, \<open>--name=value\<close>, joined short
  options, \<open>--\<close>), which the model leaves out.
\<close>

fun parse_options :: "option_table \<Rightarrow> string list \<Rightarrow> string dict \<Rightarrow> (string dict \<times> string list) option" where
  "parse_options table [] given = Some (given, [])"
| "parse_options table (arg # args) given =
     (case find (\<lambda>(names, dest, valued). arg \<in> set names) table of
        None \<Rightarrow> if startswith arg ''-'' then None else Some (given, arg # args)
      | Some (names, dest, valued) \<Rightarrow>
          if \<not> valued then parse_options table args (dset given dest [])
          else (case args of
              [] \<Rightarrow> None
            | v # rest \<Rightarrow> if startswith v ''-'' then None else parse_options table rest (dset given dest v)))"

definition namespace_of :: "string \<Rightarrow> string dict \<Rightarrow> string dict \<Rightarrow> namespace" where
  "namespace_of cmd common own =
     (let text_of = (\<lambda>given dest default. case dget given dest of None \<Rightarrow> default | Some v \<Rightarrow> v);
          set_in = (\<lambda>dest. dget own dest \<noteq> None) in
      \<lparr>command = cmd,
       config_path = (case dget common ''config'' of None \<Rightarrow> DEFAULT_CONFIG | Some v \<Rightarrow> path_of v),
       goservice_dir = (case dget common ''goservice_dir'' of None \<Rightarrow> GOSERVICE_DIR | Some v \<Rightarrow> path_of v),
       export_only = (if cmd \<in> {''template'', ''deploy''} then Some (set_in ''export_only'') else None),
       skip_preflight = (if cmd = ''deploy'' then Some (set_in ''skip_preflight'') else None),
       new_user = text_of own ''new_user'' DEFAULT_ADMIN_USER,
       new_key = text_of own ''new_key'' ''~/.vmdeploy/keys/vm_key'',
       keys_only = set_in ''keys_only'', restore_user = text_of own ''user'' [],
       pubkey_file = text_of own ''pubkey_file'' [], leave_running = set_in ''leave_running'',
       yes = set_in ''yes''\<rparr>)"

definition parse_args :: "string list \<Rightarrow> namespace option" where
  "parse_args argv =
     (case parse_options common_options argv [] of
        Some (common, cmd # args) \<Rightarrow>
          (case dget command_options cmd of
             None \<Rightarrow> None
           | Some table \<Rightarrow>
               (case parse_options table args [] of
                  Some (own, []) \<Rightarrow>
                    if list_all (\<lambda>dest. dget own dest \<noteq> None) (required_options cmd)
                    then Some (namespace_of cmd common own) else None
                | _ \<Rightarrow> None))
      | _ \<Rightarrow> None)"

text \<open>\<open>getattr(args, name, False)\<close>\<close>

definition flag :: "bool option \<Rightarrow> bool" where
  "flag f = (case f of None \<Rightarrow> False | Some b \<Rightarrow> b)"

text \<open>\<open>Path(text).expanduser()\<close>: only a first component that starts with \<open>~\<close> is replaced.\<close>

definition path_expanduser :: "'e env \<Rightarrow> path \<Rightarrow> ('e, path) prog" where
  "path_expanduser x p = (\<lambda>w.
     if root_of p \<noteq> [] \<or> parts_of p = [] \<or> \<not> startswith (hd (parts_of p)) ''~'' then (Inr p, w)
     else let home = expanduser (environ w) (x_home x) (hd (parts_of p)) in
       if startswith home ''~'' then (Inl (RuntimeError ''Could not determine home directory.''), w)
       else (Inr (Path (root_of (path_of home)) (parts_of (path_of home) @ tl (parts_of p))), w))"

section \<open>The commands\<close>

definition cmd_template :: "'e env \<Rightarrow> cluster_config \<Rightarrow> namespace \<Rightarrow> ('e, int) prog" where
  "cmd_template x config args =
     bnd (vboxmanage_init (vboxmanage (cfg_virtualbox config))) (\<lambda>exe.
     andthen (if flag (export_only args) then export_golden_template x exe config
              else build_golden_template x exe config (goservice_dir args))
     (ret EXIT_OK))"

definition cmd_provision :: "'e env \<Rightarrow> cluster_config \<Rightarrow> namespace \<Rightarrow> ('e, int) prog" where
  "cmd_provision x config args =
     bnd (vboxmanage_init (vboxmanage (cfg_virtualbox config))) (\<lambda>exe.
     bnd (provision_cluster x exe config) (\<lambda>addresses.
     ret EXIT_OK))"

text \<open>The lines of \<open>_print_endpoints\<close>, in order.\<close>

definition endpoint_lines :: "cluster_config \<Rightarrow> string option \<Rightarrow> string list" where
  "endpoint_lines config jump_address =
     (let host = hostname (cfg_jump config); jport = http_port (cfg_jump config);
          jump_port = (if jport = 80 then [] else '':'' @ show_int jport);
          port = show_int (service_port (cfg_inventory config));
          inventory_base = ''http://'' @ host @ '':'' @ port in
      [[],
       ''Endpoints (use hostnames; the DHCP address changes across reboots):'',
       ''  Load balancer      http://'' @ host @ jump_port @ ''/'',
       ''  Inventory (HTML)   '' @ inventory_base @ ''/clusterview'',
       ''  Inventory (JSON)   '' @ inventory_base @ ''/api/inventory'',
       ''  Local manifest     scripts/manifest.ps1 show'']
      @ (case jump_address of
           None \<Rightarrow> []
         | Some addr \<Rightarrow> if addr = [] then [] else [''  ('' @ host @ '' currently resolves to '' @ addr @ '')''])
      @ [[],
       ''  Remote access from off the jump station:'',
       ''    curl http://'' @ host @ '':'' @ port @ ''/api/inventory'',
       ''    # or tunnel over SSH, then browse http://localhost:'' @ port @ ''/clusterview :'',
       ''    ssh -L '' @ port @ '':localhost:'' @ port @ '' '' @ ssh_user (cfg_ssh config) @ ''@'' @ host])"

definition print_endpoints :: "cluster_config \<Rightarrow> string option \<Rightarrow> ('e, unit) prog" where
  "print_endpoints config jump_address = for_each (endpoint_lines config jump_address) print"

text \<open>
  \<open>cmd_configure\<close>, in the order of its text: one backend, then the jump station. The subscript
  \<open>addresses[host]\<close> is reached only after every host was found in \<open>addresses\<close>.
\<close>

definition configure_one_backend ::
  "'e env \<Rightarrow> cluster_config \<Rightarrow> string dict \<Rightarrow> host_config \<Rightarrow> ('e, unit) prog" where
  "configure_one_backend x config addresses backend =
     with_host x (the (dget addresses (hostname backend))) (cfg_ssh config) (\<lambda>guest.
       andthen (configure_backend x guest backend (document_root (cfg_website config)))
       (publish_site x guest (cfg_website config) (hostname backend)))"

definition configure_jump ::
  "'e env \<Rightarrow> cluster_config \<Rightarrow> path \<Rightarrow> string dict \<Rightarrow> remote_host \<Rightarrow> ('e, unit) prog" where
  "configure_jump x config source_dir addresses jump =
     andthen (configure_balancer x jump config addresses)
     (andthen (deploy_service x jump config source_dir)
     (bnd (enrich_with_ipv6 x config addresses) (\<lambda>ipv6.
      bnd (build_records x config addresses (Some ipv6)) (\<lambda>records.
      seed_inventory x jump config records))))"

definition missing_addresses :: "cluster_config \<Rightarrow> string dict \<Rightarrow> string list" where
  "missing_addresses config addresses =
     filter (\<lambda>h. h \<notin> set (dkeys addresses)) (map hostname (all_hosts config))"

definition cmd_configure :: "'e env \<Rightarrow> cluster_config \<Rightarrow> namespace \<Rightarrow> ('e, int) prog" where
  "cmd_configure x config args =
     bnd (vboxmanage_init (vboxmanage (cfg_virtualbox config))) (\<lambda>exe.
     bnd (cluster_addresses x exe config) (\<lambda>addresses.
     if missing_addresses config addresses \<noteq> []
     then raise (VmDeployError (''Cannot configure the cluster; no address for ''
       @ py_repr_list (missing_addresses config addresses) @ ''. Run '' @ quoted ''vmdeploy provision'' @ '' first.''))
     else
       andthen (for_each (cfg_backends config) (configure_one_backend x config addresses))
       (let jump_address = the (dget addresses (hostname (cfg_jump config))) in
       andthen (with_host x jump_address (cfg_ssh config) (configure_jump x config (goservice_dir args) addresses))
       (andthen (wait_for_cluster_ready x config jump_address 180)
       (andthen (print_endpoints config (Some jump_address))
       (ret EXIT_OK))))))"

definition report_preflight :: "check_result list \<Rightarrow> ('e, unit) prog" where
  "report_preflight results = andthen (print ''Preflight checks:'') (print (format_report results))"

definition deploy_steps :: "'e env \<Rightarrow> cluster_config \<Rightarrow> namespace \<Rightarrow> ('e, int) prog" where
  "deploy_steps x config args =
     bnd (cmd_template x config args) (\<lambda>s1.
     if s1 \<noteq> EXIT_OK then ret s1 else
     bnd (cmd_provision x config args) (\<lambda>s2.
     if s2 \<noteq> EXIT_OK then ret s2 else
     bnd (cmd_configure x config args) (\<lambda>s3.
     if s3 \<noteq> EXIT_OK then ret s3 else ret EXIT_OK)))"

definition cmd_deploy :: "'e env \<Rightarrow> cluster_config \<Rightarrow> namespace \<Rightarrow> ('e, int) prog" where
  "cmd_deploy x config args =
     (if flag (skip_preflight args) then deploy_steps x config args
      else bnd (run_preflight x config) (\<lambda>results.
        andthen (report_preflight results)
        (if worst_status results = FAIL then ret EXIT_FAILURE else deploy_steps x config args)))"

text \<open>One line of \<open>cmd_status\<close>; the accumulator is \<open>all_running\<close>.\<close>

definition status_line :: "string \<Rightarrow> string \<Rightarrow> string \<Rightarrow> string \<Rightarrow> string" where
  "status_line h r s a = ljust 16 h @ ljust 10 r @ ljust 14 s @ ljust 16 a"

definition status_of_host ::
  "'e env \<Rightarrow> path \<Rightarrow> string dict \<Rightarrow> host_config \<Rightarrow> bool \<Rightarrow> ('e, bool) prog" where
  "status_of_host x exe addresses host all_running =
     bnd (vm_state_of x exe (vm_name host)) (\<lambda>state.
     let addr = (case dget addresses (hostname host) of None \<Rightarrow> ''-'' | Some a \<Rightarrow> a) in
     andthen (print (status_line (hostname host) (role_value (role host)) (state_value state) addr))
     (ret (if state_value state \<noteq> ''running'' then False else all_running)))"

definition cmd_status :: "'e env \<Rightarrow> cluster_config \<Rightarrow> namespace \<Rightarrow> ('e, int) prog" where
  "cmd_status x config args =
     bnd (vboxmanage_init (vboxmanage (cfg_virtualbox config))) (\<lambda>exe.
     bnd (cluster_addresses x exe config) (\<lambda>addresses.
     andthen (print (status_line ''HOSTNAME'' ''ROLE'' ''VM STATE'' ''ADDRESS''))
     (bnd (fold_prog (status_of_host x exe addresses) (all_hosts config) True) (\<lambda>all_running.
     andthen (print_endpoints config (dget addresses (hostname (cfg_jump config))))
     (ret (if all_running then EXIT_OK else EXIT_FAILURE))))))"

definition cmd_setup :: "'e env \<Rightarrow> cluster_config \<Rightarrow> namespace \<Rightarrow> ('e, int) prog" where
  "cmd_setup x config args =
     bnd (path_expanduser x (path_of (new_key args))) (\<lambda>new_key_path.
     andthen ((if keys_only args then run_keys_only_setup else run_setup)
                x config (config_path args) (new_user args) new_key_path)
     (ret EXIT_OK))"

definition cmd_restore_bootstrap :: "'e env \<Rightarrow> cluster_config \<Rightarrow> namespace \<Rightarrow> ('e, int) prog" where
  "cmd_restore_bootstrap x config args =
     bnd (path_expanduser x (path_of (pubkey_file args))) (\<lambda>key_source.
     bnd (catch (bnd (read_text_ascii key_source) (\<lambda>t. ret (strip t)))
       (\<lambda>e. if is_OSError e
            then Some (raise (VmDeployError (''Cannot read public key from '' @ path_str key_source @ '': '' @ exn_str e)))
            else None)) (\<lambda>public_key.
     andthen (restore_bootstrap x config (restore_user args) public_key (leave_running args))
     (ret EXIT_OK)))"

definition cmd_preflight :: "'e env \<Rightarrow> cluster_config \<Rightarrow> namespace \<Rightarrow> ('e, int) prog" where
  "cmd_preflight x config args =
     bnd (run_preflight x config) (\<lambda>results.
     andthen (report_preflight results)
     (ret (if worst_status results = FAIL then EXIT_FAILURE else EXIT_OK)))"

definition cmd_teardown :: "'e env \<Rightarrow> cluster_config \<Rightarrow> namespace \<Rightarrow> ('e, int) prog" where
  "cmd_teardown x config args =
     (let targets = map vm_name (all_hosts config) in
     if \<not> yes args
     then andthen (print (''This permanently deletes '' @ show_nat (length targets) @ '' VM(s) and their disks: ''
            @ py_repr_list targets))
          (andthen (print ''Re-run with --yes to proceed.'') (ret EXIT_FAILURE))
     else
       bnd (vboxmanage_init (vboxmanage (cfg_virtualbox config))) (\<lambda>exe.
       andthen (teardown_cluster x exe config)
       (andthen (catch (bnd (mark_manifest_removed x config) (\<lambda>_. ret ()))
          (\<lambda>e. if is_InventoryError e then Some (ret ()) else None))
       (ret EXIT_OK))))"

text \<open>\<open>_COMMANDS.get(args.command)\<close>\<close>

definition command_handler ::
  "string \<Rightarrow> ('e env \<Rightarrow> cluster_config \<Rightarrow> namespace \<Rightarrow> ('e, int) prog) option" where
  "command_handler cmd = dget
     [(''setup'', cmd_setup), (''restore-bootstrap'', cmd_restore_bootstrap), (''template'', cmd_template),
      (''provision'', cmd_provision), (''configure'', cmd_configure), (''preflight'', cmd_preflight),
      (''deploy'', cmd_deploy), (''status'', cmd_status), (''teardown'', cmd_teardown)] cmd"

text \<open>
  \<open>main\<close> on parsed arguments; \<open>parser.error\<close> ends the process with status 2. \<open>main_with\<close> is \<open>main\<close> on
  the argument lists that the modelled part of the parser reads.
\<close>

definition run_main :: "'e env \<Rightarrow> namespace \<Rightarrow> ('e, int) prog" where
  "run_main x args =
     (case command_handler (command args) of
        None \<Rightarrow> ret 2
      | Some handler \<Rightarrow>
          catch (bnd (load_cluster_config x (config_path args)) (\<lambda>config. handler x config args))
            (\<lambda>e. if is_VmDeployError e then Some (ret EXIT_FAILURE)
                 else if e = KeyboardInterrupt then Some (ret EXIT_INTERRUPTED)
                 else None))"

definition main_with :: "'e env \<Rightarrow> string list \<Rightarrow> ('e, int) prog option" where
  "main_with x argv = map_option (run_main x) (parse_args argv)"

section \<open>The helper scripts\<close>

text \<open>\<^verbatim>\<open>scripts/_resolve_inventory_paths.py\<close> and \<^verbatim>\<open>scripts/_resolve_template_ova.py\<close>.\<close>

definition script_config :: "string list \<Rightarrow> path" where
  "script_config argv = (if 1 < length argv then path_of (argv ! 1) else path_of ''config/cluster.toml'')"

definition resolve_inventory_paths :: "'e env \<Rightarrow> string list \<Rightarrow> ('e, unit) prog" where
  "resolve_inventory_paths x argv =
     bnd (load_cluster_config x (script_config argv)) (\<lambda>config.
     andthen (print (path_str (key_file (cfg_inventory config))))
     (print (path_str (manifest_file (cfg_inventory config)))))"

definition resolve_template_ova :: "'e env \<Rightarrow> string list \<Rightarrow> ('e, unit) prog" where
  "resolve_template_ova x argv =
     bnd (load_cluster_config x (script_config argv)) (\<lambda>config.
     andthen (print (path_str (template_ova (cfg_virtualbox config))))
     (print (template_image_ref (cfg_virtualbox config))))"

section \<open>Tearing down\<close>

lemma mark_manifest_effects:
  "evolves (emits (\<lambda>_. False)) (mark_manifest_removed x config)"
  "evolves (keeps_files (\<lambda>q. \<not> (q = key_file (cfg_inventory config) \<or> q = manifest_file (cfg_inventory config))))
     (mark_manifest_removed x config)"
  "throws is_InventoryError (mark_manifest_removed x config)"
proof -
  have read: "read_local_manifest x config u = (r, v) \<Longrightarrow> v = u" for u r v
    using read_manifest_pure by blast
  have r: "R w w \<Longrightarrow> R w (snd (read_local_manifest x config w))" for R :: "'a world \<Rightarrow> 'a world \<Rightarrow> bool" and w
    using read by (metis prod.collapse)
  have ev: "evolution R \<Longrightarrow> evolves R (read_local_manifest x config)" "evolution R \<Longrightarrow> evolves R (utc_timestamp x)" for R
    using r run_utc unfolding evolves_def evolution_def by (metis snd_conv)+
  show "evolves (emits (\<lambda>_. False)) (mark_manifest_removed x config)"
    unfolding mark_manifest_removed_def Let_def by (intro evolve_intros ev silent_manifest)
  show "evolves (keeps_files (\<lambda>q. \<not> (q = key_file (cfg_inventory config) \<or> q = manifest_file (cfg_inventory config))))
     (mark_manifest_removed x config)"
    unfolding mark_manifest_removed_def Let_def by (intro evolve_intros ev keep_write_manifest)
  have "throws is_InventoryError (read_local_manifest x config)"
  proof (rule throwsI)
    fix u e v
    assume "read_local_manifest x config u = (Inl e, v)"
    from read_manifest_pure[OF this] show "is_InventoryError e" by simp
  qed
  moreover have "throws is_InventoryError (utc_timestamp x)" for x :: "'a env"
  proof (rule throwsI)
    fix u :: "'a world" and e v
    assume "utc_timestamp x u = (Inl e, v)"
    then show "is_InventoryError e" using run_utc[of x u] by auto
  qed
  ultimately show "throws is_InventoryError (mark_manifest_removed x config)"
    unfolding mark_manifest_removed_def Let_def by (intro throws_intros throws_write_manifest)
qed

lemma vboxmanage_init_Inr: "vboxmanage_init p w = (Inr exe, v) \<Longrightarrow> exe = p \<and> v = w"
  by (auto simp: vboxmanage_init_def run_simps split: if_splits)

text \<open>
  C4: nothing is destroyed without \<open>--yes\<close>. Without it the command sends nothing, changes no file and
  exits with 1. With it only machines of the cluster are changed; when it exits with 0 each of them
  was seen absent from VirtualBox's list during this very call; of the local files only the key and
  the manifest can differ, and a manifest that cannot be updated does not make the command fail: what
  escapes comes from VirtualBox or the user.
\<close>

theorem teardown_confirmed:
  "case cmd_teardown x config args w of (r, w') \<Rightarrow>
     let exe = vboxmanage (cfg_virtualbox config) in
     if \<not> yes args then r = Inr EXIT_FAILURE \<and> ext w' = ext w \<and> trace w' = trace w \<and> files w' = files w
     else emits (only_machines (\<lambda>vm. vm \<in> set (map vm_name (all_hosts config)))) w w'
       \<and> keeps_files (\<lambda>q. \<not> (q = key_file (cfg_inventory config) \<or> q = manifest_file (cfg_inventory config))) w w'
       \<and> fails_as vbox_exn r
       \<and> gives (\<lambda>s. s = EXIT_OK \<and> (\<exists>es. trace w' = trace w @ es \<and> each_absent exe (all_hosts config) es)) r"
proof (cases "yes args")
  case False
  then show ?thesis by (simp add: cmd_teardown_def run_simps Let_def)
next
  case True
  let ?exe = "vboxmanage (cfg_virtualbox config)"
  let ?mark = "catch (bnd (mark_manifest_removed x config) (\<lambda>_. ret ()))
    (\<lambda>e. if is_InventoryError e then Some (ret ()) else None)"
  let ?own = "\<lambda>q. \<not> (q = key_file (cfg_inventory config) \<or> q = manifest_file (cfg_inventory config))"
  let ?V = "\<lambda>vm. vm \<in> set (map vm_name (all_hosts config))"
  have cmd: "cmd_teardown x config args = bnd (vboxmanage_init ?exe) (\<lambda>exe.
      andthen (teardown_cluster x exe config) (andthen ?mark (ret EXIT_OK)))"
    using True by (simp add: cmd_teardown_def Let_def)
  obtain r w' where run: "cmd_teardown x config args w = (r, w')" by (cases "cmd_teardown x config args w")
  have down: "evolves (emits (only_machines ?V)) (teardown_cluster x exe config)"
    "evolves (keeps_files ?own) (teardown_cluster x exe config)" "throws vbox_exn (teardown_cluster x exe config)" for exe
    by (rule emit_cluster(2), simp) (unfold teardown_cluster_def, (intro evolve_intros throws_intros)+)
  have silent: "evolves (emits (\<lambda>_. False)) ?mark"
    by (intro evolve_intros mark_manifest_effects) (auto intro: evolve_intros split: if_splits)
  have mark: "evolves (emits (only_machines ?V)) ?mark" "evolves (keeps_files ?own) ?mark" "throws vbox_exn ?mark"
    by (rule evolves_emits_mono[OF silent], simp)
      (intro evolve_intros throws_intros throws_catch[where Q = is_InventoryError] mark_manifest_effects;
        auto intro: evolve_intros throws_intros split: if_splits)+
  have "evolves (emits (only_machines ?V)) (cmd_teardown x config args)"
    "evolves (keeps_files ?own) (cmd_teardown x config args)" "throws vbox_exn (cmd_teardown x config args)"
    unfolding cmd vboxmanage_init_def by (intro evolve_intros throws_intros down mark; simp)+
  then have eff: "emits (only_machines ?V) w w'" "keeps_files ?own w w'" "fails_as vbox_exn r"
    using run by (metis evolvesD, metis evolvesD, metis throws_def fst_conv)
  have "s = EXIT_OK \<and> (\<exists>es. trace w' = trace w @ es \<and> each_absent ?exe (all_hosts config) es)" if "r = Inr s" for s
  proof -
    from run[unfolded that cmd run_inv] obtain exe v0 u v u' v' where
      0: "vboxmanage_init ?exe w = (Inr exe, v0)" and 1: "teardown_cluster x exe config v0 = (Inr u, v)"
      and 2: "?mark v = (Inr u', v')" and 3: "s = EXIT_OK" "w' = v'" by blast
    note 0 = vboxmanage_init_Inr[OF 0]
    have "trace v' = trace v" by (rule silentD[OF silent 2])
    then show ?thesis using teardown_cluster_complete[where x = x and exe = exe and config = config and w = v0] 0 1 3 by (auto simp: gives_def)
  qed
  then show ?thesis using run eff True by (auto simp: gives_def Let_def)
qed

section \<open>Configuring the cluster\<close>

lemma keep_await: "keeps_files P w (snd (await_endpoint x url label t d l w))"
proof (induction x url label t d l w rule: await_endpoint.induct)
  case (1 x url label t d l w)
  show ?case
  proof (cases "clock w < d")
    case False
    then show ?thesis by (subst await_endpoint.simps) (simp add: run_simps keep.refl)
  next
    case True
    obtain r v where g: "http_get x url w = (r, v)" by (cases "http_get x url w")
    have kv: "keeps_files P w v" using evolvesD[OF keep_ops(1) g[unfolded http_get_def]] .
    show ?thesis
    proof (cases r)
      case (Inl e)
      then show ?thesis using True g kv by (subst await_endpoint.simps) simp
    next
      case (Inr out)
      show ?thesis
      proof (cases "probe_error out")
        case None
        then show ?thesis using True g kv Inr by (subst await_endpoint.simps) simp
      next
        case (Some err)
        obtain q u where s: "sleep x READINESS_POLL_MS v = (q, u)" by (cases "sleep x READINESS_POLL_MS v")
        have ku: "keeps_files P w u" using keep.trans[OF kv evolvesD[OF sleep_ops(2) s]] .
        show ?thesis
        proof (cases q)
          case (Inl e)
          then show ?thesis using True g Inr Some s ku by (subst await_endpoint.simps) simp
        next
          case (Inr k)
          have "keeps_files P u (snd (await_endpoint x url label t d err u))"
            using 1 True g \<open>r = Inr out\<close> Some s Inr by simp
          from keep.trans[OF ku this] show ?thesis
            using True g \<open>r = Inr out\<close> Some s Inr by (subst await_endpoint.simps) simp
        qed
      qed
    qed
  qed
qed

lemma keep_ready: "evolves (keeps_files P) (wait_for_cluster_ready x config a t)"
  unfolding wait_for_cluster_ready_def Let_def
  by (intro evolve_intros) (auto intro!: evolvesI keep_await)

lemma read_manifest_cong:
  assumes run: "read_local_manifest x config w = (Inr rs, v)" and same: "files w' = files w" "denied w' = denied w"
  shows "read_local_manifest x config w' = (Inr rs, w')"
proof (cases "files w (manifest_file (cfg_inventory config))")
  case None
  then show ?thesis using run same by (simp add: read_local_manifest_def run_simps Let_def)
next
  case (Some blob)
  from run[unfolded read_local_manifest_def Let_def run_inv] Some obtain key z where
    k: "load_key (key_file (cfg_inventory config)) w = (Inr key, z)"
    by (auto simp: run_simps run_inv split: sum.splits prod.splits)
  moreover have "z = w" using load_key_Inr[OF k] by blast
  moreover have "load_key (key_file (cfg_inventory config)) w' = (Inr key, w')" using load_key_cong[OF k, of w'] same by simp
  ultimately show ?thesis using run same Some
    by (simp add: read_local_manifest_def run_simps read_bytes_def Let_def permission_denied_def split: if_splits)
qed

text \<open>Apache was seen active at the address, in these events.\<close>

definition active_at :: "string \<Rightarrow> event list \<Rightarrow> bool" where
  "active_at a es \<longleftrightarrow> (\<exists>h before after. address h = a \<and> es = before @ after \<and> seen_active h before)"

lemma active_at_within: "active_at a ys \<Longrightarrow> active_at a (xs @ ys @ zs)"
  unfolding active_at_def seen_active_def by (metis append.assoc)

lemma active_at_append: "active_at a es \<Longrightarrow> active_at a (es @ zs)" "active_at a es \<Longrightarrow> active_at a (ys @ es)"
  using active_at_within[of a es "[]" zs] active_at_within[of a es ys "[]"] by simp_all

lemma configure_backend_active:
  assumes "configure_backend x h b docs w = (Inr u, w')"
  shows "\<exists>es. trace w' = trace w @ es \<and> active_at (address h) es"
proof -
  let ?pre = "andthen (install_apache x h) (andthen (enable_modules x h BACKEND_MODULES)
    (andthen (ensure_listen_port x h (http_port b))
    (put_bytes x h (utf8_encode (render_backend_vhost b docs)) SITE_CONF 420)))"
  from assms[unfolded configure_backend_def run_inv] obtain u1 v1 u2 v2 u3 v3 u4 v4 where
    "install_apache x h w = (Inr u1, v1)" "enable_modules x h BACKEND_MODULES v1 = (Inr u2, v2)"
    "ensure_listen_port x h (http_port b) v2 = (Inr u3, v3)"
    "put_bytes x h (utf8_encode (render_backend_vhost b docs)) SITE_CONF 420 v3 = (Inr u4, v4)"
    and last: "restart_apache x h v4 = (Inr u, w')" by blast
  then have "?pre w = (Inr u4, v4)" by (simp add: run_simps)
  moreover have "evolves (emits (at_address (address h))) ?pre" by (intro evolve_intros)
  ultimately obtain ds where ds: "trace v4 = trace w @ ds" using emits_trace by blast
  obtain es where es: "trace w' = trace v4 @ es" "seen_active h es" using restart_apache_active[OF last] by blast
  have "active_at (address h) es" unfolding active_at_def using es(2) by (intro exI[of _ h] exI[of _ es] exI[of _ "[]"]) simp
  then show ?thesis using ds es(1) by (intro exI[of _ "ds @ es"]) (simp add: active_at_append)
qed

lemma one_backend_active:
  assumes "configure_one_backend x config addresses b w = (Inr u, w')"
  shows "\<exists>es. trace w' = trace w @ es \<and> active_at (the (dget addresses (hostname b))) es"
proof -
  from with_host_trace[OF assms[unfolded configure_one_backend_def]] obtain h v v' fs where
    h: "address h = the (dget addresses (hostname b))" and v: "trace v = trace w @ [EvConnect (address h) (ssh_user (cfg_ssh config)) (Some Connected)]"
    and body: "andthen (configure_backend x h b (document_root (cfg_website config)))
      (publish_site x h (cfg_website config) (hostname b)) v = (Inr u, v')" and w': "trace w' = trace v' @ fs" by auto
  from body obtain k z where 1: "configure_backend x h b (document_root (cfg_website config)) v = (Inr k, z)"
    and 2: "publish_site x h (cfg_website config) (hostname b) z = (Inr u, v')" unfolding run_inv by blast
  obtain es where es: "trace z = trace v @ es" "active_at (address h) es" using configure_backend_active[OF 1] by blast
  obtain ds where ds: "trace v' = trace z @ ds" using emits_trace[OF emit_guest.ev_publish_site 2] by blast
  show ?thesis
    using v es ds w' h active_at_within[OF es(2), of "[EvConnect (address h) (ssh_user (cfg_ssh config)) (Some Connected)]" "ds @ fs"]
    by (intro exI[of _ "[EvConnect (address h) (ssh_user (cfg_ssh config)) (Some Connected)] @ es @ ds @ fs"]) simp
qed

lemma backends_active:
  assumes "for_each bs (configure_one_backend x config addresses) w = (Inr u, w')"
  shows "\<exists>es. trace w' = trace w @ es \<and> list_all (\<lambda>b. active_at (the (dget addresses (hostname b))) es) bs"
  using assms
proof (induction bs arbitrary: w)
  case Nil
  then show ?case by (simp add: run_inv)
next
  case (Cons b bs)
  then obtain k v where 1: "configure_one_backend x config addresses b w = (Inr k, v)"
    and 2: "for_each bs (configure_one_backend x config addresses) v = (Inr u, w')" by (auto simp: run_inv)
  obtain es where es: "trace v = trace w @ es" "active_at (the (dget addresses (hostname b))) es"
    using one_backend_active[OF 1] by blast
  obtain fs where fs: "trace w' = trace v @ fs" "list_all (\<lambda>b. active_at (the (dget addresses (hostname b))) fs) bs"
    using Cons.IH[OF 2] by blast
  show ?case using es fs
    by (intro exI[of _ "es @ fs"]) (auto simp: active_at_append list_all_iff)
qed

text \<open>The registry of a deployment, and its two copies: the delivered datastore and the local manifest.\<close>

definition deployed_registry :: "cluster_config \<Rightarrow> string dict \<Rightarrow> string dict \<Rightarrow> string \<Rightarrow> inventory_record list" where
  "deployed_registry config addresses ipv6 timestamp =
     foldl upsert [] (map (deployed_record addresses ipv6 timestamp) (all_hosts config))"

definition registry_delivered ::
  "'e env \<Rightarrow> cluster_config \<Rightarrow> string dict \<Rightarrow> remote_host \<Rightarrow> event list \<Rightarrow> 'e world \<Rightarrow> bool" where
  "registry_delivered x config addresses h es w \<longleftrightarrow> (\<exists>blob key ipv6 t.
     delivered h blob (remote_dir (cfg_inventory config) @ ''/'' @ datastore_name (cfg_inventory config)) 432 es
     \<and> decrypt_records x blob key = Inr (deployed_registry config addresses ipv6 t)
     \<and> read_local_manifest x config w = (Inr (deployed_registry config addresses ipv6 t), w))"

lemma registry_delivered_later:
  assumes "registry_delivered x config addresses h es w" and "files w' = files w" "denied w' = denied w"
  shows "registry_delivered x config addresses h (xs @ es @ ys) w'"
proof -
  from assms(1) obtain blob key ipv6 t where
    d: "delivered h blob (remote_dir (cfg_inventory config) @ ''/'' @ datastore_name (cfg_inventory config)) 432 es"
    and r: "decrypt_records x blob key = Inr (deployed_registry config addresses ipv6 t)"
    "read_local_manifest x config w = (Inr (deployed_registry config addresses ipv6 t), w)"
    unfolding registry_delivered_def by blast
  have "read_local_manifest x config w' = (Inr (deployed_registry config addresses ipv6 t), w')"
    by (rule read_manifest_cong[OF r(2) assms(2,3)])
  with r(1) d show ?thesis unfolding registry_delivered_def by (blast intro: delivered_append)
qed

lemma jump_configured:
  assumes "configure_jump x config d addresses h w = (Inr u, w')"
  shows "\<exists>es. trace w' = trace w @ es \<and> (\<exists>before after. es = before @ after \<and> service_active h before)
    \<and> (aead x \<longrightarrow> key_file (cfg_inventory config) \<noteq> manifest_file (cfg_inventory config) \<longrightarrow>
        registry_delivered x config addresses h es w')"
proof -
  from assms[unfolded configure_jump_def run_inv] obtain u1 v1 u2 v2 ipv6 v3 rs v4 where
    1: "configure_balancer x h config addresses w = (Inr u1, v1)"
    and 2: "deploy_service x h config d v1 = (Inr u2, v2)"
    and 3: "enrich_with_ipv6 x config addresses v2 = (Inr ipv6, v3)"
    and 4: "build_records x config addresses (Some ipv6) v3 = (Inr rs, v4)"
    and 5: "seed_inventory x h config rs v4 = (Inr u, w')" by blast
  obtain t where rs: "v4 = v3" "rs = deployed_registry config addresses ipv6 t"
    using build_records_result[OF 4] unfolding deployed_registry_def by auto
  obtain es1 where e1: "trace v1 = trace w @ es1" using emits_trace[OF emit_guest.ev_configure_apache(2) 1] by blast
  obtain es2 where e2: "trace v2 = trace v1 @ es2" "service_active h es2" using deploy_parts[OF 2] by blast
  have "evolves (emits (\<lambda>_. True)) (enrich_with_ipv6 x config addresses)"
  proof (rule evolvesI)
    fix u
    show "emits (\<lambda>_. True) u (snd (enrich_with_ipv6 x config addresses u))"
      using enrich_with_ipv6_harmless[where x = x and config = config and addresses = addresses and w = u]
      by (auto simp: split_beta intro: emits_mono)
  qed
  from emits_trace[OF this 3] obtain es3 where e3: "trace v3 = trace v2 @ es3" by blast
  have "evolves (emits (\<lambda>_. True)) (seed_inventory x h config rs)"
    unfolding seed_inventory_def encrypt_records_def Let_def
    by (intro evolve_intros emits_any_session evolves_emits_mono[OF silent_key] evolves_emits_mono[OF silent_manifest];
        auto intro: evolve_intros split: if_splits)
  from emits_trace[OF this 5] obtain es4 where e4: "trace w' = trace v4 @ es4" by blast
  let ?es = "es1 @ es2 @ es3 @ es4"
  have tr: "trace w' = trace w @ ?es" using e1 e2 e3 e4 rs(1) by simp
  moreover have "\<exists>before after. ?es = before @ after \<and> service_active h before"
    using e2(2) unfolding service_active_def
    by (metis append.assoc)
  moreover have "registry_delivered x config addresses h ?es w'"
    if hyp: "aead x" "key_file (cfg_inventory config) \<noteq> manifest_file (cfg_inventory config)"
  proof -
    from seed_inventory_result[OF hyp, where h = h and rs = rs and w = v4] 5 obtain es key blob where
      *: "trace w' = trace v4 @ es" "delivered h blob (remote_dir (cfg_inventory config) @ ''/'' @ datastore_name (cfg_inventory config)) 432 es"
      "decrypt_records x blob key = Inr rs" "read_local_manifest x config w' = (Inr rs, w')"
      by (auto simp: gives_def)
    have "es = es4" using * e4 by simp
    then have "registry_delivered x config addresses h es4 w'" unfolding registry_delivered_def using * rs(2) by blast
    from registry_delivered_later[OF this refl refl, of "es1 @ es2 @ es3" "[]"] show ?thesis by simp
  qed
  ultimately show ?thesis by blast
qed

lemma print_endpoints_silent:
  "print_endpoints config a w = (r, w') \<Longrightarrow> trace w' = trace w \<and> files w' = files w \<and> denied w' = denied w \<and> r = Inr ()"
proof -
  assume run: "print_endpoints config a w = (r, w')"
  have "for_each ls print v = (q, v') \<Longrightarrow> trace v' = trace v \<and> files v' = files v \<and> denied v' = denied v \<and> q = Inr ()"
    for ls v q v'
    by (induction ls arbitrary: v) (auto simp: run_simps)
  with run show ?thesis unfolding print_endpoints_def by blast
qed

definition jump_urls :: "cluster_config \<Rightarrow> string dict \<Rightarrow> string list" where
  "jump_urls config addresses = map fst (endpoints config (the (dget addresses (hostname (cfg_jump config)))))"

text \<open>
  What a finished configuration has shown, in order: every backend's Apache active, the inventory
  service active and the registry stored twice over, and both endpoints answering.
\<close>

definition configured ::
  "'e env \<Rightarrow> cluster_config \<Rightarrow> string dict \<Rightarrow> event list \<Rightarrow> 'e world \<Rightarrow> bool" where
  "configured x config addresses es w \<longleftrightarrow> missing_addresses config addresses = []
     \<and> (\<exists>es1 es2 es3 h. es = es1 @ es2 @ es3
        \<and> list_all (\<lambda>b. active_at (the (dget addresses (hostname b))) es1) (cfg_backends config)
        \<and> address h = the (dget addresses (hostname (cfg_jump config)))
        \<and> (\<exists>before after. es2 = before @ after \<and> service_active h before)
        \<and> (if aead x \<and> key_file (cfg_inventory config) \<noteq> manifest_file (cfg_inventory config)
           then registry_delivered x config addresses h es2 w else True)
        \<and> list_all (probes (jump_urls config addresses)) es3
        \<and> list_all (\<lambda>url. served url es3) (jump_urls config addresses))"

lemma cmd_configure_done:
  assumes "cmd_configure x config args w = (Inr s, w')"
  shows "s = EXIT_OK \<and> (\<exists>addresses es. trace w' = trace w @ es \<and> configured x config addresses es w')"
proof -
  let ?jump = "\<lambda>addresses. the (dget addresses (hostname (cfg_jump config)))"
  from assms[unfolded cmd_configure_def run_inv] obtain exe v0 addresses v1 where
    0: "vboxmanage_init (vboxmanage (cfg_virtualbox config)) w = (Inr exe, v0)"
    and 1: "cluster_addresses x exe config v0 = (Inr addresses, v1)"
    and rest: "(if missing_addresses config addresses \<noteq> []
     then raise (VmDeployError (''Cannot configure the cluster; no address for ''
       @ py_repr_list (missing_addresses config addresses) @ ''. Run '' @ quoted ''vmdeploy provision'' @ '' first.''))
     else
       andthen (for_each (cfg_backends config) (configure_one_backend x config addresses))
       (let jump_address = ?jump addresses in
       andthen (with_host x jump_address (cfg_ssh config) (configure_jump x config (goservice_dir args) addresses))
       (andthen (wait_for_cluster_ready x config jump_address 180)
       (andthen (print_endpoints config (Some jump_address)) (ret EXIT_OK))))) v1 = (Inr s, w')" by blast
  note v0 = vboxmanage_init_Inr[OF 0]
  have none: "missing_addresses config addresses = []" using rest by (auto simp: run_inv split: if_splits)
  with rest have "andthen (for_each (cfg_backends config) (configure_one_backend x config addresses))
       (andthen (with_host x (?jump addresses) (cfg_ssh config) (configure_jump x config (goservice_dir args) addresses))
       (andthen (wait_for_cluster_ready x config (?jump addresses) 180)
       (andthen (print_endpoints config (Some (?jump addresses))) (ret EXIT_OK)))) v1 = (Inr s, w')"
    by (simp add: Let_def)
  from this[unfolded run_inv] obtain u2 v2 u3 v3 u4 v4 u5 v5 where
    2: "for_each (cfg_backends config) (configure_one_backend x config addresses) v1 = (Inr u2, v2)"
    and 3: "with_host x (?jump addresses) (cfg_ssh config) (configure_jump x config (goservice_dir args) addresses) v2 = (Inr u3, v3)"
    and 4: "wait_for_cluster_ready x config (?jump addresses) 180 v3 = (Inr u4, v4)"
    and 5: "print_endpoints config (Some (?jump addresses)) v4 = (Inr u5, v5)" and s: "s = EXIT_OK" "w' = v5" by blast
  obtain es0 where e0: "trace v1 = trace v0 @ es0"
    using emits_trace[OF emit_cluster(3)[where V = "\<lambda>_. True", OF TrueI] 1] by blast
  obtain es1 where e1: "trace v2 = trace v1 @ es1"
    "list_all (\<lambda>b. active_at (the (dget addresses (hostname b))) es1) (cfg_backends config)"
    using backends_active[OF 2] by blast
  from with_host_trace[OF 3] obtain h z z' fs where h: "address h = ?jump addresses"
    and b: "configure_jump x config (goservice_dir args) addresses h z = (Inr u3, z')"
    and z: "trace z = trace v2 @ [EvConnect (?jump addresses) (ssh_user (cfg_ssh config)) (Some Connected)]"
    and z': "trace v3 = trace z' @ fs" "files v3 = files z'" "denied v3 = denied z'" by blast
  from jump_configured[OF b] obtain es2 before after where e2: "trace z' = trace z @ es2"
    "es2 = before @ after" "service_active h before"
    and reg: "aead x \<Longrightarrow> key_file (cfg_inventory config) \<noteq> manifest_file (cfg_inventory config) \<Longrightarrow>
        registry_delivered x config addresses h es2 z'" by blast
  from cluster_ready[where x = x and config = config and addr = "?jump addresses" and t = 180 and w = v3] 4
  obtain es3 where e3: "trace v4 = trace v3 @ es3" "files v4 = files v3" "list_all (probes (jump_urls config addresses)) es3"
    "list_all (\<lambda>url. served url es3) (jump_urls config addresses)"
    by (auto simp: Let_def jump_urls_def)
  have d4: "denied v4 = denied v3" using evolvesD[OF keep_ready 4] by (simp add: keeps_files_def)
  note p = print_endpoints_silent[OF 5]
  let ?c = "[EvConnect (?jump addresses) (ssh_user (cfg_ssh config)) (Some Connected)]"
  let ?es2 = "?c @ es2 @ fs"
  have tr: "trace w' = trace w @ (es0 @ es1) @ ?es2 @ es3" using v0 e0 e1 z z' e2 e3 p s by simp
  have "service_active h (?c @ before)" using e2(3) unfolding service_active_def by (metis append.assoc)
  then have act: "\<exists>before after. ?es2 = before @ after \<and> service_active h before"
    using e2(2) by (intro exI[of _ "?c @ before"] exI[of _ "after @ fs"]) simp
  have reg': "registry_delivered x config addresses h ?es2 w'"
    if "aead x" "key_file (cfg_inventory config) \<noteq> manifest_file (cfg_inventory config)"
    by (rule registry_delivered_later[OF reg[OF that]]) (use z' e3(2) d4 p s in simp_all)
  have backs: "list_all (\<lambda>b. active_at (the (dget addresses (hostname b))) (es0 @ es1)) (cfg_backends config)"
    using e1(2) by (auto simp: list_all_iff active_at_append)
  have regs: "if aead x \<and> key_file (cfg_inventory config) \<noteq> manifest_file (cfg_inventory config)
      then registry_delivered x config addresses h ?es2 w' else True" using reg' by simp
  have "configured x config addresses ((es0 @ es1) @ ?es2 @ es3) w'"
    unfolding configured_def
    by (rule conjI[OF none], rule exI[of _ "es0 @ es1"], rule exI[of _ ?es2], rule exI[of _ es3], rule exI[of _ h])
      (intro conjI refl backs h act regs e3(3,4))
  with tr s show ?thesis by blast
qed

text \<open>
  C3: a configuration that succeeds has shown a working cluster. It exits with 0 only after, in this
  order: an address was found for every host; on every backend Apache was seen active; on the jump
  station the inventory service was seen active and, for a cipher that keeps its laws and a key file
  that is not the manifest, the datastore delivered there and the local manifest both hold exactly the records of the configured hosts under
  these addresses; and then, with nothing sent but probes, the balancer and the service both answered.
\<close>

theorem cmd_configure_serves:
  "case cmd_configure x config args w of (r, w') \<Rightarrow>
     gives (\<lambda>s. s = EXIT_OK \<and> (\<exists>addresses es. trace w' = trace w @ es \<and> configured x config addresses es w')) r"
proof (cases "cmd_configure x config args w")
  case (Pair r w')
  then show ?thesis using cmd_configure_done[of x config args w _ w'] by (auto simp: gives_def)
qed

section \<open>Deploying\<close>

lemma emits_template: "evolves (emits (only_machines (\<lambda>_. True))) (cmd_template x config args)"
  unfolding cmd_template_def vboxmanage_init_def export_golden_template_def template_missing_def Let_def
  by (intro evolve_intros evolves_emits_mono[OF emit_build_template] emit_machine emit_machine_free;
      auto simp: only_machines_def split: event.splits option.splits)

lemma emits_provision: "evolves (emits (only_machines (\<lambda>_. True))) (cmd_provision x config args)"
  unfolding cmd_provision_def vboxmanage_init_def by (intro evolve_intros emit_cluster) simp_all

lemma deploy_steps_done:
  assumes "deploy_steps x config args w = (Inr s, w')"
  shows "s = EXIT_OK \<and> (\<exists>addresses pre es. trace w' = trace w @ pre @ es \<and> configured x config addresses es w')"
proof -
  have ok: "cmd_template x config args u = (Inr s, v) \<Longrightarrow> s = EXIT_OK"
    "cmd_provision x config args u = (Inr s, v) \<Longrightarrow> s = EXIT_OK" for u v s
    by (auto simp: cmd_template_def cmd_provision_def run_inv)
  from assms obtain s1 v1 s2 v2 s3 v3 where
    1: "cmd_template x config args w = (Inr s1, v1)" and 2: "cmd_provision x config args v1 = (Inr s2, v2)"
    and 3: "cmd_configure x config args v2 = (Inr s3, v3)" and s: "s = s3" "w' = v3"
    unfolding deploy_steps_def by (auto simp: run_inv dest: ok split: if_splits)
  obtain es1 es2 where "trace v1 = trace w @ es1" "trace v2 = trace v1 @ es2"
    using emits_trace[OF emits_template 1] emits_trace[OF emits_provision 2] by blast
  with cmd_configure_done[OF 3] s show ?thesis by (metis append.assoc)
qed

lemma report_silent:
  "report_preflight cs w = (r, w') \<Longrightarrow> r = Inr () \<and> trace w' = trace w \<and> files w' = files w"
  by (auto simp: report_preflight_def run_simps)

lemma cmd_deploy_done:
  assumes "cmd_deploy x config args w = (Inr s, w')"
  shows "if s = EXIT_OK
    then \<exists>addresses pre es. trace w' = trace w @ pre @ es \<and> configured x config addresses es w'
    else s = EXIT_FAILURE \<and> emits (inspects config) w w' \<and> files w' \<in> {files w, (files w)(write_probe config := probe_left config w)}"
proof (cases "flag (skip_preflight args)")
  case True
  then show ?thesis using assms deploy_steps_done[of x config args w s w'] by (simp add: cmd_deploy_def)
next
  case False
  with assms obtain cs v u z where 1: "run_preflight x config w = (Inr cs, v)" and 2: "report_preflight cs v = (Inr u, z)"
    and 3: "(if worst_status cs = FAIL then ret EXIT_FAILURE else deploy_steps x config args) z = (Inr s, w')"
    by (auto simp: cmd_deploy_def run_inv)
  note 2 = report_silent[OF 2]
  have pre: "emits (inspects config) w v" "files v \<in> {files w, (files w)(write_probe config := probe_left config w)}"
    using run_preflight_result[where x = x and config = config and w = w] 1 by (simp_all add: Let_def)
  show ?thesis
  proof (cases "worst_status cs = FAIL")
    case True
    then show ?thesis using 3 2 pre by (simp add: run_inv EXIT_OK_def EXIT_FAILURE_def emits_def)
  next
    case False
    obtain es where es: "trace v = trace w @ es" using pre(1) by (auto simp: emits_def)
    from deploy_steps_done[of x config args z s w'] 3 False obtain addresses pre' es' where
      "s = EXIT_OK" "trace w' = trace z @ pre' @ es'" "configured x config addresses es' w'" by auto
    then show ?thesis using es 2 by (metis append.assoc)
  qed
qed

text \<open>
  C1: deploying is gated by the preflight run. Unless it is skipped, an exception of the preflight run
  ends the command, and a failed check makes it exit with 1; whenever it exits with 1 nothing was
  sent but the preflight's questions and no file changed but its write probe (which stays behind
  when its removal was refused), so the template and the cluster are as they were. It exits with 0 only after the configuration has shown a working
  cluster.
\<close>

theorem cmd_deploy_gated:
  "case cmd_deploy x config args w of (r, w') \<Rightarrow>
     gives (\<lambda>s. if s = EXIT_OK
       then \<exists>addresses pre es. trace w' = trace w @ pre @ es \<and> configured x config addresses es w'
       else s = EXIT_FAILURE \<and> emits (inspects config) w w'
         \<and> files w' \<in> {files w, (files w)(write_probe config := probe_left config w)}) r
     \<and> (if flag (skip_preflight args) then True else
        (case run_preflight x config w of
           (Inl e, v) \<Rightarrow> r = Inl e \<and> w' = v
         | (Inr cs, v) \<Rightarrow> if worst_status cs = FAIL then r = Inr EXIT_FAILURE else True))"
proof (cases "cmd_deploy x config args w")
  case (Pair r w')
  then show ?thesis using cmd_deploy_done[of x config args w _ w']
    by (auto simp: gives_def cmd_deploy_def run_simps report_preflight_def split: prod.splits sum.splits)
qed

text \<open>Every command the parser reads has a handler, and the other way round.\<close>

lemma parsed_commands:
  "set (map fst command_options) = {c. command_handler c \<noteq> (None :: ('e env \<Rightarrow> cluster_config \<Rightarrow> namespace \<Rightarrow> ('e, int) prog) option)}"
  by (auto simp: command_options_def command_handler_def split: if_splits)

lemma parsed_handler:
  assumes "parse_args argv = Some args"
  shows "command_handler (command args) \<noteq> (None :: ('e env \<Rightarrow> cluster_config \<Rightarrow> namespace \<Rightarrow> ('e, int) prog) option)"
proof -
  from assms obtain common cmd rest table own where
    "dget command_options cmd = Some table" and "args = namespace_of cmd common own"
    unfolding parse_args_def by (auto split: option.splits prod.splits list.splits if_splits)
  then have "command args \<in> set (map fst command_options)"
    by (simp add: namespace_of_def Let_def rev_image_eqI[OF map_of_SomeD])
  then show ?thesis using parsed_commands[where 'e = 'e] by blast
qed

lemma parse_examples:
  "map_option yes (parse_args [''teardown'']) = Some False"
  "map_option yes (parse_args [''-c'', ''site.toml'', ''teardown'', ''--yes'']) = Some True"
  "map_option skip_preflight (parse_args [''deploy'']) = Some (Some False)"
  "parse_args [''restore-bootstrap'', ''--user'', ''ops''] = None" "parse_args [''status'', ''--yes''] = None"
  by code_simp+

section \<open>The exit status\<close>

lemma handler_status:
  assumes "command_handler c = Some f" and "f x config args w = (Inr s, w')"
  shows "s = EXIT_OK \<or> s = EXIT_FAILURE"
proof -
  have "f \<in> {cmd_setup, cmd_restore_bootstrap, cmd_template, cmd_provision, cmd_configure, cmd_preflight, cmd_deploy,
      cmd_status, cmd_teardown}"
    using map_of_SomeD[OF assms(1)[unfolded command_handler_def]] by auto
  moreover have "cmd_setup x config args w = (Inr s, w') \<Longrightarrow> ?thesis"
    "cmd_restore_bootstrap x config args w = (Inr s, w') \<Longrightarrow> ?thesis"
    "cmd_template x config args w = (Inr s, w') \<Longrightarrow> ?thesis" "cmd_provision x config args w = (Inr s, w') \<Longrightarrow> ?thesis"
    "cmd_preflight x config args w = (Inr s, w') \<Longrightarrow> ?thesis" "cmd_status x config args w = (Inr s, w') \<Longrightarrow> ?thesis"
    "cmd_teardown x config args w = (Inr s, w') \<Longrightarrow> ?thesis"
    unfolding cmd_setup_def cmd_restore_bootstrap_def cmd_template_def cmd_provision_def cmd_preflight_def
      cmd_status_def cmd_teardown_def Let_def
    by (auto simp: run_inv split: if_splits)
  moreover have "cmd_configure x config args w = (Inr s, w') \<Longrightarrow> ?thesis" using cmd_configure_done by blast
  moreover have "cmd_deploy x config args w = (Inr s, w') \<Longrightarrow> ?thesis" by (drule cmd_deploy_done) (simp split: if_splits)
  ultimately show ?thesis using assms(2) by blast
qed

lemma run_main_status:
  "case run_main (x :: 'e env) args w of (r, w') \<Rightarrow>
     gives (\<lambda>s. s = EXIT_OK \<or> s = EXIT_FAILURE \<or> s = EXIT_INTERRUPTED
       \<or> s = 2 \<and> command_handler (command args) = (None :: ('e env \<Rightarrow> cluster_config \<Rightarrow> namespace \<Rightarrow> ('e, int) prog) option)) r
     \<and> fails_as (\<lambda>e. \<not> (is_VmDeployError e \<or> e = KeyboardInterrupt)) r
     \<and> (case fst (load_cluster_config x (config_path args) w) of
          Inl e \<Rightarrow> (r = Inr EXIT_FAILURE
            \<or> r = Inr 2 \<and> command_handler (command args) = (None :: ('e env \<Rightarrow> cluster_config \<Rightarrow> namespace \<Rightarrow> ('e, int) prog) option)) \<and> w' = w
        | Inr config \<Rightarrow> valid_config config \<and> gives (\<lambda>s. if command args = ''deploy'' \<and> s = EXIT_OK
            then \<exists>addresses pre es. trace w' = trace w @ pre @ es \<and> configured x config addresses es w' else True) r)"
proof -
  obtain q v where l: "load_cluster_config x (config_path args) w = (q, v)"
    by (cases "load_cluster_config x (config_path args) w")
  have v: "v = w" and e: "fails_as is_ConfigurationError q" and c: "gives valid_config q"
    using load_config_result[where x = x and p = "config_path args" and w = w] l by (auto simp: gives_def)
  have conf: "is_ConfigurationError e \<Longrightarrow> is_VmDeployError e" for e by (cases e) simp_all
  obtain r w' where run: "run_main x args w = (r, w')" by (cases "run_main x args w")
  show ?thesis
  proof (cases "command_handler (command args) :: ('e env \<Rightarrow> cluster_config \<Rightarrow> namespace \<Rightarrow> ('e, int) prog) option")
    case None
    then have "run_main x args w = (Inr 2, w)" "command args \<noteq> ''deploy''"
      by (auto simp: run_main_def run_simps command_handler_def)
    then show ?thesis using None l c by (auto simp: gives_def EXIT_OK_def split: sum.splits)
  next
    case (Some f)
    show ?thesis
    proof (cases q)
      case (Inl err)
      then have "run_main x args w = (Inr EXIT_FAILURE, w)"
        using Some l v e conf[of err] by (simp add: run_main_def run_simps fails_as_def)
      then show ?thesis using Some l Inl by (simp add: gives_def)
    next
      case (Inr config)
      obtain p z where h: "f x config args w = (p, z)" by (cases "f x config args w")
      have run: "run_main x args w = (case p of Inr s \<Rightarrow> (Inr s, z)
          | Inl err \<Rightarrow> if is_VmDeployError err then (Inr EXIT_FAILURE, z)
              else if err = KeyboardInterrupt then (Inr EXIT_INTERRUPTED, z) else (Inl err, z))"
        using Some l v Inr h by (simp add: run_main_def run_simps split: sum.splits)
      have dep: "command args = ''deploy'' \<Longrightarrow> f = cmd_deploy" using Some by (simp add: command_handler_def)
      show ?thesis
      proof (cases p)
        case (Inl err)
        then show ?thesis using run l c \<open>q = Inr config\<close>
          by (simp add: gives_def EXIT_OK_def EXIT_FAILURE_def EXIT_INTERRUPTED_def)
      next
        case (Inr s)
        have "if command args = ''deploy'' \<and> s = EXIT_OK
            then \<exists>addresses pre es. trace z = trace w @ pre @ es \<and> configured x config addresses es z else True"
          using cmd_deploy_done[of x config args w s z] h dep Inr by auto
        then show ?thesis using run l c \<open>q = Inr config\<close> Inr handler_status[OF Some h[unfolded Inr]]
          by (auto simp: gives_def)
      qed
    qed
  qed
qed

text \<open>
  C2: what the exit status means, for every argument list the modelled parser reads: each of them
  names a command that has a handler, and the status is 0, 1 or 130. A configuration that cannot be
  loaded exits with 1 before anything was done. No program error and no interrupt escapes. A
  deployment that exits with 0 loaded a valid configuration and has shown a working cluster.
\<close>

theorem main_exit_status:
  "case parse_args argv of
     None \<Rightarrow> main_with (x :: 'e env) argv = None
   | Some args \<Rightarrow> \<exists>prog. main_with x argv = Some prog \<and> (case prog w of (r, w') \<Rightarrow>
       gives (\<lambda>s. s = EXIT_OK \<or> s = EXIT_FAILURE \<or> s = EXIT_INTERRUPTED) r
       \<and> fails_as (\<lambda>e. \<not> (is_VmDeployError e \<or> e = KeyboardInterrupt)) r
       \<and> (case fst (load_cluster_config x (config_path args) w) of
            Inl e \<Rightarrow> r = Inr EXIT_FAILURE \<and> w' = w
          | Inr config \<Rightarrow> valid_config config \<and> gives (\<lambda>s. if command args = ''deploy'' \<and> s = EXIT_OK
              then \<exists>addresses pre es. trace w' = trace w @ pre @ es \<and> configured x config addresses es w' else True) r))"
proof (cases "parse_args argv")
  case None
  then show ?thesis by (simp add: main_with_def)
next
  case (Some args)
  then show ?thesis
    using run_main_status[where x = x and args = args and w = w] parsed_handler[OF Some, where 'e = 'e]
    by (auto simp: main_with_def gives_def split: sum.splits)
qed

end
