(* ===== verification/Seeder.thy ===== *)
theory Seeder
  imports Registry
begin

text \<open>
  \<^verbatim>\<open>docker/seeder/seed.py\<close>: the one-shot program of the container stack that writes the key and an
  encrypted registry of its three hosts, with the registry code of \<^verbatim>\<open>src/vmdeploy/inventory.py\<close>.
\<close>

definition SEED_HOSTS :: "(string \<times> string \<times> string) list" where
  "SEED_HOSTS = [(''apjump'', ''jump'', ''172.28.0.10''), (''apnode1'', ''backend'', ''172.28.0.11''),
     (''apnode2'', ''backend'', ''172.28.0.12'')]"

definition seed_record :: "string \<Rightarrow> string \<times> string \<times> string \<Rightarrow> inventory_record" where
  "seed_record timestamp host = (case host of (name, kind, ipv4) \<Rightarrow>
     \<lparr>inv_hostname = name, inv_role = kind, inv_ipv4 = ipv4, inv_ipv6 = [], inv_status = ''Deployed'',
      status_timestamp = timestamp, inv_state = ''Active'', state_timestamp = timestamp\<rparr>)"

text \<open>\<open>0o666\<close> is 438; a mode that cannot be set is ignored.\<close>

definition open_to_all :: "path \<Rightarrow> ('e, unit) prog" where
  "open_to_all p = catch (chmod p 438) (\<lambda>e. if is_OSError e then Some (ret ()) else None)"

definition seed_key :: "path \<Rightarrow> path" where "seed_key data_dir = path_join data_dir ''inventory.key''"
definition seed_store :: "path \<Rightarrow> path" where "seed_store data_dir = path_join data_dir ''inventory.enc''"

definition seed_message :: "path \<Rightarrow> string" where
  "seed_message store = ''Seeded '' @ show_nat (length SEED_HOSTS) @ '' inventory record(s) to '' @ path_str store"

definition store_registry :: "'e env \<Rightarrow> path \<Rightarrow> bytes \<Rightarrow> ('e, unit) prog" where
  "store_registry x data_dir key =
     bnd (utc_timestamp x) (\<lambda>timestamp.
     bnd (encrypt_records x (map (seed_record timestamp) SEED_HOSTS) key) (\<lambda>blob.
     andthen (write_bytes (seed_store data_dir) blob)
     (andthen (for_each [seed_key data_dir, seed_store data_dir] open_to_all)
     (print (seed_message (seed_store data_dir))))))"

definition seed_into :: "'e env \<Rightarrow> path \<Rightarrow> ('e, unit) prog" where
  "seed_into x data_dir =
     andthen (mkdir data_dir) (bnd (load_or_create_key (seed_key data_dir)) (store_registry x data_dir))"

definition seeder_main :: "'e env \<Rightarrow> ('e, unit) prog" where
  "seeder_main x = bnd (getenv ''DATA_DIR'' ''/data'') (\<lambda>dir. seed_into x (path_of dir))"

section \<open>What the seeder leaves\<close>

definition data_dir :: "'e world \<Rightarrow> path" where
  "data_dir w = path_of (case dget (environ w) ''DATA_DIR'' of None \<Rightarrow> ''/data'' | Some d \<Rightarrow> d)"

lemma seed_files_differ: "seed_key d \<noteq> seed_store d"
  by (simp add: seed_key_def seed_store_def path_join_def startswith_def path_of_def)

lemma run_open_to_all:
  "\<exists>m. open_to_all p w = (Inr (), w\<lparr>modes := m\<rparr>)"
  by (auto simp: open_to_all_def chmod_def run_simps permission_denied_def no_such_file_def
      intro: exI[of _ "modes w"])

lemma run_open_all: "\<exists>m. for_each ps open_to_all w = (Inr (), w\<lparr>modes := m\<rparr>)"
proof (induction ps arbitrary: w)
  case Nil
  then show ?case by (auto simp: run_simps intro: exI[of _ "modes w"])
next
  case (Cons p ps)
  obtain m where m: "open_to_all p w = (Inr (), w\<lparr>modes := m\<rparr>)" using run_open_to_all by blast
  obtain m' where "for_each ps open_to_all (w\<lparr>modes := m\<rparr>) = (Inr (), w\<lparr>modes := m, modes := m'\<rparr>)" using Cons by blast
  with m have "for_each (p # ps) open_to_all w = (Inr (), w\<lparr>modes := m'\<rparr>)" by (simp add: run_simps)
  then show ?case by blast
qed

lemma encrypted_somehow:
  assumes "length key = 32"
  shows "\<exists>blob u. encrypt_records x rs key v = (Inr blob, u) \<and> files u = files v \<and> trace u = trace v
    \<and> denied u = denied v \<and> room u = room v \<and> environ u = environ v \<and> (aead x \<longrightarrow> decrypt_records x blob key = Inr rs)"
proof -
  obtain blob where b: "encrypt_records x rs key v = (Inr blob, v\<lparr>drawn := drawn v + 12\<rparr>)"
    using assms by (simp add: encrypt_records_def run_simps KEY_BYTES_def NONCE_BYTES_def Let_def)
  have "decrypt_records x blob key = Inr rs" if "aead x"
    using encrypt_decrypt[OF that assms, of rs v] b by auto
  with b show ?thesis by (intro exI[of _ blob] exI[of _ "v\<lparr>drawn := drawn v + 12\<rparr>"]) simp
qed

lemma seed_into_result:
  "case seed_into x d w of (r, w') \<Rightarrow>
     trace w' = trace w \<and> keeps_files (\<lambda>p. \<not> (p = seed_key d \<or> p = seed_store d)) w w'
     \<and> gives (\<lambda>_. if aead x
         then \<exists>blob key t. files w' (seed_store d) = Some blob \<and> load_key (seed_key d) w' = (Inr key, w')
           \<and> decrypt_records x blob key = Inr (map (seed_record t) SEED_HOSTS)
         else True) r
     \<and> (if files w (seed_key d) = None then True else files w' (seed_key d) = files w (seed_key d))"
proof -
  let ?own = "\<lambda>p. \<not> (p = seed_key d \<or> p = seed_store d)"
  obtain r w' where run: "seed_into x d w = (r, w')" by (cases "seed_into x d w")
  obtain q v where k: "load_or_create_key (seed_key d) w = (q, v)" by (cases "load_or_create_key (seed_key d) w")
  have kv: "keeps_files ?own w v" "trace v = trace w"
    "files w (seed_key d) \<noteq> None \<Longrightarrow> files v (seed_key d) = files w (seed_key d)"
  proof -
    have "evolves (keeps_files ?own) (load_or_create_key (seed_key d))"
      by (rule keep_host.ev_key[where W = "\<lambda>p. p = seed_key d \<or> p = seed_store d"]) simp
    from evolvesD[OF this k] show "keeps_files ?own w v" .
    show "trace v = trace w" by (rule silentD[OF silent_key k])
    show "files v (seed_key d) = files w (seed_key d)" if "files w (seed_key d) \<noteq> None"
      using k that load_key_result[of "seed_key d" w q v] by (auto simp: load_or_create_key_def run_simps)
  qed
  obtain t where t: "utc_timestamp x v = (Inr t, v)" using run_utc by blast
  let ?rs = "map (seed_record t) SEED_HOSTS"
  have run_eq: "(r, w') = (if denied w Making d then (Inl (permission_denied d), w)
      else case q of Inl e \<Rightarrow> (Inl e, v) | Inr key \<Rightarrow> store_registry x d key v)"
    unfolding run[symmetric] using k by (simp add: seed_into_def run_simps mkdir_def split: sum.splits)
  show ?thesis
  proof (cases "denied w Making d \<or> (\<exists>e. q = Inl e)")
    case True
    then have "(r, w') = (Inl (permission_denied d), w) \<or> (\<exists>e. (r, w') = (Inl e, v))"
      using run_eq by auto
    then show ?thesis using run kv by (auto simp: keep.refl)
  next
    case False
    then obtain key where q: "q = Inr key" by (cases q) auto
    note key = key_on_disk[OF k[unfolded q]]
    obtain blob u where b: "encrypt_records x ?rs key v = (Inr blob, u)" "files u = files v" "trace u = trace v"
      "denied u = denied v" "room u = room v" "environ u = environ v" "aead x \<Longrightarrow> decrypt_records x blob key = Inr ?rs"
      using encrypted_somehow[where x = x and rs = ?rs and v = v] key by blast
    have tail: "(r, w') = (bnd (encrypt_records x ?rs key) (\<lambda>blob. andthen (write_bytes (seed_store d) blob)
        (andthen (for_each [seed_key d, seed_store d] open_to_all) (print (seed_message (seed_store d)))))) v"
      using run_eq False q t by (simp add: store_registry_def run_simps)
    show ?thesis
    proof (cases "denied u Opening (seed_store d) \<or> \<not> fits u (seed_store d) blob")
      case True
      then have "r \<noteq> Inr () \<and> (w' = u \<or> (\<exists>b. w' = u\<lparr>files := (files u)(seed_store d \<mapsto> b)\<rparr>))"
        using tail b(1) by (auto simp: run_simps write_bytes_def split: if_splits)
      then show ?thesis using run kv b seed_files_differ[of d] by (auto simp: keeps_files_def gives_def)
    next
      case ok: False
      obtain m where m: "for_each [seed_key d, seed_store d] open_to_all (u\<lparr>files := (files u)(seed_store d \<mapsto> blob)\<rparr>)
          = (Inr (), u\<lparr>files := (files u)(seed_store d \<mapsto> blob), modes := m\<rparr>)"
        using run_open_all by blast
      have fin: "r = Inr ()" "w' = u\<lparr>files := (files u)(seed_store d \<mapsto> blob), modes := m,
          printed := printed u @ [seed_message (seed_store d)]\<rparr>"
        using tail b(1) ok m by (simp_all add: run_simps(3,4) write_bytes_def run_host_ops del: for_each.simps)
      have "load_key (seed_key d) w' = (Inr key, w')"
        by (rule load_key_cong[OF conjunct1[OF key]]) (use fin b seed_files_differ[of d] in auto)
      moreover have "files w' (seed_store d) = Some blob" using fin by simp
      ultimately show ?thesis using run fin kv b seed_files_differ[of d] by (auto simp: keeps_files_def)
    qed
  qed
qed

text \<open>
  C37: the container stack starts from a registry its service can read. When the seeder returns, and the
  cipher keeps its laws, the datastore on disk decrypts, under the key on disk, to exactly the three
  hosts of the stack in order, deployed and active, with one timestamp; a key that was there is the
  key used. No file but these two changes and nothing leaves the process.
\<close>

theorem seeder_registry_readable:
  "case seeder_main x w of (r, w') \<Rightarrow>
     trace w' = trace w \<and> keeps_files (\<lambda>p. \<not> (p = seed_key (data_dir w) \<or> p = seed_store (data_dir w))) w w'
     \<and> gives (\<lambda>_. if aead x
         then \<exists>blob key t. files w' (seed_store (data_dir w)) = Some blob \<and> load_key (seed_key (data_dir w)) w' = (Inr key, w')
           \<and> decrypt_records x blob key = Inr (map (seed_record t) SEED_HOSTS)
         else True) r
     \<and> (if files w (seed_key (data_dir w)) = None then True else files w' (seed_key (data_dir w)) = files w (seed_key (data_dir w)))"
  using seed_into_result[where x = x and d = "data_dir w" and w = w]
  by (simp add: seeder_main_def run_simps data_dir_def split: option.splits)

end
