(* ===== verification/Spec2Isabelle.thy ===== *)
theory Spec2Isabelle
  imports Cli Seeder
begin

text \<open>
  Verification development of \<open>vmdeploy\<close>, a Python program that builds a golden virtual machine
  image, deploys a cluster of one load balancer (the jump station) and its web servers (the
  backends) from it with VirtualBox, configures the guests over SSH, and keeps an encrypted registry
  of them. All of \<^verbatim>\<open>src/vmdeploy\<close>, the seeder of the container stack (\<^verbatim>\<open>docker/seeder/seed.py\<close>) and the
  two Python helpers of \<^verbatim>\<open>scripts\<close> are modelled. File names below are relative to the repository.

  \<^bold>\<open>The program and the theories\<close>

  A command of the command line loads the configuration and then drives three kinds of outside
  parties: \<^verbatim>\<open>VBoxManage\<close> on the host, the guests over SSH and SFTP, and web servers over HTTP. Each
  theory models one source file or a part of one; later theories use earlier ones the way the
  modules import one another. Definitions keep the names of the functions they translate.

  \<^item> Prelude, PyStr, PyBytes, PyPath: what the program uses of the language and its library:
    insertion-ordered dictionaries, strings, bytes with the UTF-8, ASCII and base64 codecs, paths.
    Sha256 (\<open>hashlib\<close>), Json (\<open>json\<close>) and Doubles (\<open>float\<close>) belong here too.
  \<^item> Errors: \<^verbatim>\<open>exceptions.py\<close> and the Python exceptions that the program raises or lets pass.
  \<^item> World: the state (record \<open>world\<close>), the outside operations (record \<open>env\<close>) and the combinators
    that programs are written with: \<open>bnd\<close> sequences, \<open>raise\<close> and \<open>catch\<close> are exceptions, \<open>always\<close> is
    \<open>finally\<close>, \<open>for_each\<close> is a loop over a list. Evolution: relations between the world before and
    after a run.
  \<^item> Config: \<^verbatim>\<open>config.py\<close>. Every dataclass is a record, every reader and check a function.
  \<^item> Ssh: \<^verbatim>\<open>ssh_client.py\<close>. A \<open>RemoteHost\<close> is a handle; the world holds its open connections.
  \<^item> VirtualBox: \<^verbatim>\<open>virtualbox.py\<close>. Every VBoxManage operation, the readers of its output, the
    loops that poll it, and the choice of the address of a guest.
  \<^item> Inventory: \<^verbatim>\<open>inventory.py\<close>. The registry record, the key file, the encrypted wire format, upsert.
  \<^item> Quoting and Seed: \<^verbatim>\<open>seed.py\<close>. Quoting in YAML and in shell words, the two cloud-init documents
    and the medium that carries them.
  \<^item> Website and Apache: \<^verbatim>\<open>website.py\<close> and \<^verbatim>\<open>apache.py\<close>.
  \<^item> GoService, GoBinary, Registry: \<^verbatim>\<open>inventory_service.py\<close>. The source fingerprint, the pinned
    toolchain and the build; what build and deployment guarantee; the records, the datastore on the
    jump station, the manifest on the host and the look-ups.
  \<^item> Accounts, Image, Setup: \<^verbatim>\<open>setup.py\<close>. Key pair and accounts; sanitising the image and arming
    cloud-init; the local overlay and the three runs.
  \<^item> Provision: \<^verbatim>\<open>provision.py\<close>. Template, guests, cluster, readiness.
  \<^item> Preflight: \<^verbatim>\<open>preflight.py\<close>. The six checks, their verdict and the report.
  \<^item> Cli: \<^verbatim>\<open>cli.py\<close>, with the argument parser, every command, the dispatch and the exit status, and the
    helpers \<^verbatim>\<open>scripts/_resolve_inventory_paths.py\<close> and \<^verbatim>\<open>scripts/_resolve_template_ova.py\<close>.
  \<^item> Seeder: \<^verbatim>\<open>docker/seeder/seed.py\<close>.

  \<^bold>\<open>How the code is represented\<close>

  A function with effects is a function from the world to a result and the world after it; the
  result is \<open>Inl\<close> an exception or \<open>Inr\<close> a value, and an exception keeps the effects made so far. Every
  raise, every except clause and every early return of the source is a branch of the model. The
  world holds the files, their modes, the clock (in milliseconds), the environment variables, the
  entropy pool, the open connections, the printed lines and \<open>trace\<close>, the list of all calls that left
  the process with what they answered. Properties about what a run did or saw are stated on the
  trace.

  What is not code of the repository is a field of \<open>env\<close>, a function on the outside state \<open>ext\<close> of
  an arbitrary type: VBoxManage, SSH, SFTP, HTTP, name resolution, the clock, AES-256-GCM, the TOML
  reader, Ed25519, the ISO writer, the operating system's answers about memory, disk and
  directories. Nothing is assumed of them except where a property says so: the round trip of the
  registry and its authentication take the documented laws of AES-256-GCM as hypotheses, and a
  witness shows that they can hold. An outside call may take any time and may change the outside
  state in any way. The user's interrupt can arrive during each outside call; it is the outcome \<open>None\<close>
  of the call and the exception \<open>KeyboardInterrupt\<close> of the program.

  Conventions. Strings are lists of the code points 0 to 255. Paths have their POSIX form. Text
  from a channel or a process is what the source decodes it to. Machine integers occur in SHA-256 and
  in the memory structure of Windows, as words; Python's integers are \<open>int\<close>. Doubles are a mantissa and an
  exponent, rounded to 53 bits, without overflow and subnormal numbers, which the sizes of memory and
  disks do not reach. The host's file system can refuse each operation on each path by itself, so
  that a file can be written and then not be removed, and a full disk leaves the part of a file that
  fits; what a path refuses does not change during a run, and a file that can be opened for writing
  can be read. Directories are not kept: that one cannot be made, or is there already, is an answer
  of the same kind; removing one as a file fails like removing a missing file. A download that the user interrupts leaves no partial file. An answer over HTTP
  is the last one, after every redirect. Where the source puts the text of an exception of the
  library into a message (base64, UTF-8, JSON), the model has one fixed text. Limits of the
  interpreter on recursion and on the length of integers are left out. Log messages are not
  modelled; they carry no state.

  \<^bold>\<open>Interfaces\<close>

  \<^item> \<open>evolution\<close>: a reflexive and transitive relation on worlds. Its lemmas carry it through the combinators, so that a fact about a program is a fact
    about its calls. It is interpreted by: the clock does not go back; every new call satisfies a
    predicate; files outside a set are kept; the password of sudo is never in a command.
  \<^item> \<open>guest_session\<close>, \<open>host_session\<close>: relations kept by the calls of one SSH session, and by what the
    program does around it on the host. Setting up Apache, the site, the service, the accounts and the
    image is proved once for all such relations.
  \<^item> \<open>machine_idle\<close>, \<open>machine_calls\<close>: relations kept by the VBoxManage calls on one machine, without
    and with those that start it.
  \<^item> \<open>registry\<close>: an upsert that refines the update of a map, interpreted by the upsert of Inventory.
  \<^item> \<open>codec\<close>, \<open>codec_chain\<close>: encoders with a partial inverse and their composition, interpreted by
    UTF-8, ASCII, base64 and UTF-8 inside base64.
  \<^item> \<open>quoting\<close>: a quoting function with the reader that undoes it, interpreted by YAML scalars and
    shell words.

  \<^bold>\<open>What is shown\<close>

  \<^item> Order and gating of effects: nothing that can lock the operator out is sent before the new
    account was seen to work; no machine is started before its seed was written and attached; no toolchain is unpacked before its checksum was seen to match on the
    guest; Apache is not restarted on a configuration that failed its test; a failed preflight run
    stops a deployment; a teardown without confirmation does nothing.
  \<^item> Verified results: when an operation returns, its own calls hold the observation that justifies it
    (machine absent, service active, both endpoints answering, the guest answering with its name). The
    search of the image for keys is one of them; that its empty answer means that no key is left is
    shown only for a guest that answers it truthfully, since the source cannot tell it from a refusal.
  \<^item> Confinement: cluster operations change machines of the cluster only; setting up without a
    template changes only the key pair, the registry key and the overlay; the password of sudo travels on standard input only.
  \<^item> The registry: round trip and authentication of the encrypted form, the datastore of the guest and
    the manifest of the host hold the same records, upsert refines the update of a map.
  \<^item> The configuration: a file that loads gives a well-formed configuration with distinct machines,
    and every well-formed configuration is read back from its document.
  \<^item> Bounds and termination: every wait ends after its timeout; the comparison of disk sizes in doubles
    is right up to one part in \<open>2\<^sup>5\<^sup>0\<close>, and the free memory is exact below \<open>2\<^sup>5\<^sup>3\<close> bytes.
  \<^item> Errors: which exceptions each operation lets escape, up to the exit status of \<open>main\<close>.
  \<^item> A few lemmas exhibit behaviour that the source does not mean to have:
    \<open>install_go_accepts_prefix\<close>, \<open>ensure_binary_needs_password\<close>, \<open>disable_stops_half_way\<close>,
    \<open>verification_passes_when_refused\<close>, \<open>twins_share_a_record\<close>, \<open>listen_backlog_taken\<close>,
    \<open>emit_toml_flattens\<close>.

  \<^bold>\<open>Loops and fuel\<close>

  Loops over lists are \<open>for_each\<close> or a recursion on the list. A loop that polls until a deadline is a
  recursion on the time left: each round sleeps, and \<open>sleep\<close> moves the clock of the world by at least
  the time asked for, so that the difference to the deadline decreases. The reader of JSON has fuel,
  twice the length of the text plus two; \<open>jval_enough\<close> in Json shows that more changes nothing. The
  rest of the recursions decrease a size.

  \<^bold>\<open>Not modelled\<close>

  Logging and its configuration; the spellings of options that \<open>argparse\<close> accepts beside the full one
  (prefixes, \<open>--option=value\<close>), its help and usage texts; the Go service (\<^verbatim>\<open>goservice\<close>), another
  program in another language that reads what this one writes; the images and configuration files of
  the container stack; the PowerShell wrappers; the tests.
\<close>

end
